(* ===== verification/Prelude.thy ===== *)
theory Prelude
  imports Main "HOL-Library.Sublist"
begin

text \<open>
  Shared vocabulary of the development. Rust results and panics are values of
  \<open>outcome\<close>; Rust strings are lists of bytes (\<open>string\<close>, one \<open>char\<close> per UTF-8 byte), with
  the string methods the program calls. The locales at the end state the two contracts that
  several components share: a step function that keeps an invariant, and a step function that
  simulates an abstract one.
\<close>

named_theorems outcome_simps "elimination of successful outcomes"
named_theorems string_simps "facts about the string methods"

section \<open>Outcomes: a result, an error value or a panic\<close>

datatype ('e, 'a) outcome = Ok 'a | Err 'e | Panic

text \<open>Rust's \<open>?\<close> operator and \<open>and_then\<close>: stop at the first error or panic.\<close>

fun bind_out :: "('e, 'a) outcome \<Rightarrow> ('a \<Rightarrow> ('e, 'b) outcome) \<Rightarrow> ('e, 'b) outcome" where
  "bind_out (Ok a) f = f a"
| "bind_out (Err e) f = Err e"
| "bind_out Panic f = Panic"

text \<open>\<open>Result::map_err\<close> (a panic is not caught).\<close>

fun map_err :: "('e \<Rightarrow> 'f) \<Rightarrow> ('e, 'a) outcome \<Rightarrow> ('f, 'a) outcome" where
  "map_err f (Ok a) = Ok a"
| "map_err f (Err e) = Err (f e)"
| "map_err f Panic = Panic"

text \<open>\<open>Result::expect\<close> and \<open>unwrap\<close>: an error becomes a panic.\<close>

fun expect :: "('e, 'a) outcome \<Rightarrow> ('f, 'a) outcome" where
  "expect (Ok a) = Ok a"
| "expect (Err e) = Panic"
| "expect Panic = Panic"

text \<open>\<open>Option::ok_or\<close>.\<close>

fun ok_or :: "'a option \<Rightarrow> 'e \<Rightarrow> ('e, 'a) outcome" where
  "ok_or (Some a) e = Ok a"
| "ok_or None e = Err e"

fun is_ok :: "('e, 'a) outcome \<Rightarrow> bool" where
  "is_ok (Ok a) = True"
| "is_ok (Err e) = False"
| "is_ok Panic = False"

text \<open>
  A loop over \<open>iter().enumerate()\<close> that pushes each result and returns at the first error:
  \<open>i\<close> is the index of the first element.
\<close>

fun traverse :: "(nat \<Rightarrow> 'a \<Rightarrow> ('e, 'b) outcome) \<Rightarrow> nat \<Rightarrow> 'a list \<Rightarrow> ('e, 'b list) outcome" where
  "traverse f i [] = Ok []"
| "traverse f i (x # xs) =
     bind_out (f i x) (\<lambda>y. bind_out (traverse f (Suc i) xs) (\<lambda>ys. Ok (y # ys)))"

lemma bind_out_cong [fundef_cong]:
  "x = y \<Longrightarrow> (\<And>a. y = Ok a \<Longrightarrow> f a = g a) \<Longrightarrow> bind_out x f = bind_out y g"
  by (cases y) auto

lemma bind_out_Ok [simp, outcome_simps]:
  "bind_out x f = Ok b \<longleftrightarrow> (\<exists>a. x = Ok a \<and> f a = Ok b)"
  by (cases x) auto

lemma bind_out_Err [outcome_simps]:
  "bind_out x f = Err e \<longleftrightarrow> x = Err e \<or> (\<exists>a. x = Ok a \<and> f a = Err e)"
  by (cases x) auto

lemma bind_out_Panic [outcome_simps]:
  "bind_out x f = Panic \<longleftrightarrow> x = Panic \<or> (\<exists>a. x = Ok a \<and> f a = Panic)"
  by (cases x) auto

lemma map_err_Ok [simp]: "map_err f x = Ok a \<longleftrightarrow> x = Ok a"
  by (cases x) auto

lemma map_err_Panic [simp]: "map_err f x = Panic \<longleftrightarrow> x = Panic"
  by (cases x) auto

lemma map_err_Err [outcome_simps]: "map_err f x = Err e \<longleftrightarrow> (\<exists>e'. x = Err e' \<and> e = f e')"
  by (cases x) auto

lemma expect_Ok [simp]: "expect x = Ok a \<longleftrightarrow> x = Ok a"
  by (cases x) auto

lemma expect_Err [simp]: "expect x \<noteq> Err e"
  by (cases x) auto

lemma expect_Panic: "expect x = Panic \<longleftrightarrow> (\<forall>a. x \<noteq> Ok a)"
  by (cases x) auto

lemma ok_or_Ok [simp]: "ok_or x e = Ok a \<longleftrightarrow> x = Some a"
  by (cases x) auto

lemma is_ok_iff: "is_ok x \<longleftrightarrow> (\<exists>a. x = Ok a)"
  by (cases x) auto

lemma traverse_Ok_length: "traverse f i xs = Ok ys \<Longrightarrow> length ys = length xs"
  by (induction xs arbitrary: i ys) auto

lemma traverse_Ok_nth:
  "traverse f i xs = Ok ys \<Longrightarrow> k < length xs \<Longrightarrow> f (i + k) (xs ! k) = Ok (ys ! k)"
proof (induction xs arbitrary: i ys k)
  case Nil
  then show ?case by simp
next
  case (Cons x xs)
  then obtain y zs where "f i x = Ok y" "traverse f (Suc i) xs = Ok zs" "ys = y # zs"
    by auto
  with Cons.IH [of "Suc i" zs] Cons.prems show ?case
    by (cases k) auto
qed

lemma traverse_Ok_set:
  "traverse f i xs = Ok ys \<Longrightarrow> y \<in> set ys \<Longrightarrow> \<exists>k < length xs. f (i + k) (xs ! k) = Ok y"
  by (metis in_set_conv_nth traverse_Ok_length traverse_Ok_nth)

lemma traverse_list_all2:
  "traverse f i xs = Ok ys \<Longrightarrow> (\<And>x k y. x \<in> set xs \<Longrightarrow> f k x = Ok y \<Longrightarrow> Q x y) \<Longrightarrow> list_all2 Q xs ys"
  by (induction xs arbitrary: i ys) auto

lemma traverse_Ok_elem: "traverse f i xs = Ok ys \<Longrightarrow> x \<in> set xs \<Longrightarrow> \<exists>k y. f k x = Ok y"
  by (induction xs arbitrary: i ys) auto

lemma traverse_OkI:
  "(\<And>k. k < length xs \<Longrightarrow> f (i + k) (xs ! k) = Ok (g (xs ! k))) \<Longrightarrow> traverse f i xs = Ok (map g xs)"
proof (induction xs arbitrary: i)
  case Nil
  then show ?case by simp
next
  case (Cons x xs)
  have "f i x = Ok (g x)" using Cons.prems [of 0] by simp
  moreover have "traverse f (Suc i) xs = Ok (map g xs)"
    by (rule Cons.IH) (use Cons.prems in force)
  ultimately show ?case by simp
qed

lemma traverse_Panic:
  "traverse f i xs = Panic \<Longrightarrow> \<exists>k < length xs. f (i + k) (xs ! k) = Panic"
proof (induction xs arbitrary: i)
  case Nil
  then show ?case by simp
next
  case (Cons x xs)
  show ?case
  proof (cases "f i x = Panic")
    case True
    then show ?thesis by force
  next
    case False
    with Cons.prems have "traverse f (Suc i) xs = Panic"
      by (auto simp: bind_out_Panic)
    with Cons.IH [of "Suc i"] show ?thesis by force
  qed
qed

lemma list_all2_ball_iff:
  "list_all2 (\<lambda>x y. P x \<longleftrightarrow> Q y) xs ys \<Longrightarrow> (\<forall>x \<in> set xs. P x) \<longleftrightarrow> (\<forall>y \<in> set ys. Q y)"
  by (induction xs ys rule: list_all2_induct) auto

lemma list_all2_bex_iff:
  "list_all2 (\<lambda>x y. P x \<longleftrightarrow> Q y) xs ys \<Longrightarrow> (\<exists>x \<in> set xs. P x) \<longleftrightarrow> (\<exists>y \<in> set ys. Q y)"
  by (induction xs ys rule: list_all2_induct) auto

section \<open>Strings\<close>

text \<open>\<open>str::split(c)\<close>: always at least one piece.\<close>

fun split_on :: "char \<Rightarrow> string \<Rightarrow> string list" where
  "split_on c [] = [[]]"
| "split_on c (x # xs) =
     (if x = c then [] # split_on c xs
      else (case split_on c xs of [] \<Rightarrow> [[x]] | p # ps \<Rightarrow> (x # p) # ps))"

fun join_with :: "char \<Rightarrow> string list \<Rightarrow> string" where
  "join_with c [] = []"
| "join_with c [p] = p"
| "join_with c (p # q # ps) = p @ c # join_with c (q # ps)"

definition strip_prefix :: "string \<Rightarrow> string \<Rightarrow> string option" where
  "strip_prefix p s = (if prefix p s then Some (drop (length p) s) else None)"

text \<open>\<open>str::to_ascii_lowercase\<close> on bytes.\<close>

definition ascii_lower_char :: "char \<Rightarrow> char" where
  "ascii_lower_char c =
     (let n = (of_char c :: nat) in if 65 \<le> n \<and> n \<le> 90 then char_of (n + 32) else c)"

definition to_ascii_lowercase :: "string \<Rightarrow> string" where
  "to_ascii_lowercase = map ascii_lower_char"

text \<open>
  \<open>str::trim\<close>: the UTF-8 encodings of the characters with the \<open>White_Space\<close> property, stripped
  from both ends.
\<close>

definition white_space :: "string list" where
  "white_space =
     map (\<lambda>n. [char_of (n :: nat)]) [9, 10, 11, 12, 13, 32]
     @ map (map (char_of :: nat \<Rightarrow> char))
         ([[194, 133], [194, 160], [225, 154, 128]]
          @ map (\<lambda>n. [226, 128, n]) [128, 129, 130, 131, 132, 133, 134, 135, 136, 137, 138, 168, 169, 175]
          @ [[226, 129, 159], [227, 128, 128]])"

lemma white_space_ne: "w \<in> set white_space \<Longrightarrow> w \<noteq> []"
  by (auto simp: white_space_def)

function trim_start :: "string \<Rightarrow> string" where
  "trim_start s =
     (case find (\<lambda>w. prefix w s) white_space of
        Some w \<Rightarrow> trim_start (drop (length w) s)
      | None \<Rightarrow> s)"
  by pat_completeness auto

termination trim_start
  by (relation "measure length")
    (auto simp: find_Some_iff prefix_def dest!: nth_mem white_space_ne)

function trim_end :: "string \<Rightarrow> string" where
  "trim_end s =
     (case find (\<lambda>w. suffix w s) white_space of
        Some w \<Rightarrow> trim_end (take (length s - length w) s)
      | None \<Rightarrow> s)"
  by pat_completeness auto

termination trim_end
  by (relation "measure length")
    (auto simp: find_Some_iff suffix_def dest!: nth_mem white_space_ne)

declare trim_start.simps [simp del] trim_end.simps [simp del]

definition trim :: "string \<Rightarrow> string" where
  "trim s = trim_end (trim_start s)"

text \<open>The decimal rendering that \<open>format!\<close> gives an index.\<close>

fun show_nat :: "nat \<Rightarrow> string" where
  "show_nat n = (if n < 10 then [char_of (48 + n)] else show_nat (n div 10) @ [char_of (48 + n mod 10)])"

declare show_nat.simps [simp del]

lemma split_on_ne [simp]: "split_on c s \<noteq> []"
  by (induction s) (auto split: list.split)

lemma split_on_length: "length (split_on c s) = Suc (count_list s c)"
  by (induction s) (auto split: list.split)

lemma split_on_no_sep [string_simps]: "c \<notin> set s \<Longrightarrow> split_on c s = [s]"
  by (induction s) auto

lemma split_on_append [string_simps]:
  "c \<notin> set a \<Longrightarrow> split_on c (a @ c # b) = a # split_on c b"
  by (induction a) auto

lemma split_on_pieces: "p \<in> set (split_on c s) \<Longrightarrow> c \<notin> set p"
  by (induction s arbitrary: p) (auto split: list.splits if_splits)

lemma join_with_Cons: "ps \<noteq> [] \<Longrightarrow> join_with c (p # ps) = p @ c # join_with c ps"
  by (cases ps) auto

lemma join_split [simp]: "join_with c (split_on c s) = s"
proof (induction s)
  case Nil
  then show ?case by simp
next
  case (Cons x xs)
  obtain p ps where p: "split_on c xs = p # ps" by (cases "split_on c xs") auto
  with Cons show ?case by (cases ps) auto
qed

lemma split_join:
  "ps \<noteq> [] \<Longrightarrow> (\<And>p. p \<in> set ps \<Longrightarrow> c \<notin> set p) \<Longrightarrow> split_on c (join_with c ps) = ps"
proof (induction ps)
  case Nil
  then show ?case by simp
next
  case (Cons p ps)
  then show ?case
    by (cases ps) (auto simp: string_simps)
qed

lemma split_on_append_free:
  "c \<notin> set w \<Longrightarrow> split_on c (w @ b) = (w @ hd (split_on c b)) # tl (split_on c b)"
  by (induction w) (auto simp: list.case_eq_if)

text \<open>A word without separators lies inside a piece.\<close>

lemma sublist_piece:
  assumes "c \<notin> set w"
  shows "\<exists>p \<in> set (split_on c (a @ w @ b)). sublist w p"
proof (induction a)
  case Nil
  then show ?case by (simp add: split_on_append_free [OF assms])
next
  case (Cons x a)
  then obtain p where p: "p \<in> set (split_on c (a @ w @ b))" "sublist w p" by blast
  then have "sublist w (x # p)" by (simp add: sublist_Cons_right)
  with p show ?case
    by (cases "split_on c (a @ w @ b)") auto
qed

lemma sublist_split_iff:
  "c \<notin> set w \<Longrightarrow> sublist w s \<longleftrightarrow> (\<exists>p \<in> set (split_on c s). sublist w p)"
proof
  assume c: "c \<notin> set w" and "sublist w s"
  then obtain a b where "s = a @ w @ b" by (auto simp: sublist_def)
  then show "\<exists>p \<in> set (split_on c s). sublist w p" using sublist_piece [OF c] by simp
next
  have part: "sublist p s" if "p \<in> set (split_on c s)" for p
    using that
  proof (induction s arbitrary: p)
    case (Cons x s)
    obtain q qs where q: "split_on c s = q # qs" by (cases "split_on c s") auto
    have "prefix q s"
    proof -
      have "s = join_with c (q # qs)" using join_split [of c s] q by simp
      then show ?thesis by (cases qs) (auto simp: prefix_def)
    qed
    then have "sublist (x # q) (x # s)" by (simp add: prefix_imp_sublist)
    with Cons q show ?case
      by (auto split: if_splits simp: sublist_Cons_right)
  qed simp
  show "\<exists>p \<in> set (split_on c s). sublist w p \<Longrightarrow> sublist w s"
    using part sublist_order.order_trans by blast
qed

lemma strip_prefix_Some [string_simps]: "strip_prefix p s = Some r \<longleftrightarrow> s = p @ r"
  by (auto simp: strip_prefix_def prefix_def)

lemma strip_prefix_None: "strip_prefix p s = None \<longleftrightarrow> \<not> prefix p s"
  by (simp add: strip_prefix_def)

section \<open>Shared contracts\<close>

text \<open>A component driven by events, and an invariant every event keeps.\<close>

locale event_machine =
  fixes step :: "'s \<Rightarrow> 'e \<Rightarrow> 's"
    and inv :: "'s \<Rightarrow> bool"
  assumes inv_step: "inv s \<Longrightarrow> inv (step s e)"
begin

lemma inv_run: "inv s \<Longrightarrow> inv (foldl step s es)"
  by (induction es arbitrary: s) (auto intro: inv_step)

lemma inv_prefix: "inv s \<Longrightarrow> inv (foldl step s (take n es))"
  by (rule inv_run)

end

text \<open>An event machine that simulates an abstract one through an abstraction function.\<close>

locale simulation = event_machine step inv
  for step :: "'s \<Rightarrow> 'e \<Rightarrow> 's" and inv :: "'s \<Rightarrow> bool" +
  fixes astep :: "'a \<Rightarrow> 'e \<Rightarrow> 'a"
    and abs :: "'s \<Rightarrow> 'a"
  assumes sim_step: "inv s \<Longrightarrow> abs (step s e) = astep (abs s) e"
begin

lemma sim_run: "inv s \<Longrightarrow> abs (foldl step s es) = foldl astep (abs s) es"
  by (induction es arbitrary: s) (auto simp: sim_step inv_step)

end

end
