(* ===== verification/Float64.thy ===== *)
theory Float64
  imports Prelude Complex_Main
begin

text \<open>
  Rust's \<open>f64\<close> as the program uses it: IEEE-754 binary64 values, with subtraction rounded to
  nearest (ties to even), absolute value, ordering and the finiteness test. A finite value is
  the rational it denotes. The two zeros are one value: no operation of the program tells them
  apart (\<open>-0.0 == 0.0\<close>, neither is less, and neither is printed to a decision).
\<close>

datatype f64 = Fin rat | PInf | NInf | NaN

text \<open>The exponent \<open>e\<close> of a positive rational with \<open>2^e \<le> x < 2^(e+1)\<close>.\<close>

definition pow2 :: "int \<Rightarrow> rat" where
  "pow2 e = (if 0 \<le> e then 2 ^ nat e else inverse (2 ^ nat (- e)))"

function bit_length :: "int \<Rightarrow> int" where
  "bit_length n = (if n \<le> 0 then 0 else 1 + bit_length (n div 2))"
  by pat_completeness auto
termination
  by (relation "measure nat") auto

declare bit_length.simps [simp del]

definition exponent :: "rat \<Rightarrow> int" where
  "exponent x =
     (let (p, q) = quotient_of x; e = bit_length p - bit_length q
      in if pow2 e \<le> x then e else e - 1)"

definition round_half_even :: "rat \<Rightarrow> int" where
  "round_half_even x =
     (let f = \<lfloor>x\<rfloor>; d = x - of_int f
      in if d < 1 / 2 then f else if d > 1 / 2 then f + 1 else if even f then f else f + 1)"

text \<open>
  Rounding of a real result to binary64: 53 significant bits, smallest quantum \<open>2^-1074\<close>,
  overflow at \<open>2^1024\<close>. A negative number is rounded as its magnitude.
\<close>

definition round_mag :: "rat \<Rightarrow> f64" where
  "round_mag x =
     (let q = pow2 (max (exponent x - 52) (-1074));
          r = of_int (round_half_even (x / q)) * q
      in if 1024 \<le> exponent r then PInf else Fin r)"

fun f64_neg :: "f64 \<Rightarrow> f64" where
  "f64_neg (Fin a) = Fin (- a)"
| "f64_neg PInf = NInf"
| "f64_neg NInf = PInf"
| "f64_neg NaN = NaN"

definition round64 :: "rat \<Rightarrow> f64" where
  "round64 x = (if x = 0 then Fin 0 else if 0 < x then round_mag x else f64_neg (round_mag (- x)))"

fun f64_sub :: "f64 \<Rightarrow> f64 \<Rightarrow> f64" where
  "f64_sub (Fin a) (Fin b) = round64 (a - b)"
| "f64_sub NaN _ = NaN"
| "f64_sub _ NaN = NaN"
| "f64_sub PInf PInf = NaN"
| "f64_sub NInf NInf = NaN"
| "f64_sub PInf _ = PInf"
| "f64_sub NInf _ = NInf"
| "f64_sub (Fin _) PInf = NInf"
| "f64_sub (Fin _) NInf = PInf"

fun f64_abs :: "f64 \<Rightarrow> f64" where
  "f64_abs (Fin a) = Fin \<bar>a\<bar>"
| "f64_abs PInf = PInf"
| "f64_abs NInf = PInf"
| "f64_abs NaN = NaN"

datatype ordering = Less | Equal | Greater

fun f64_partial_cmp :: "f64 \<Rightarrow> f64 \<Rightarrow> ordering option" where
  "f64_partial_cmp NaN _ = None"
| "f64_partial_cmp _ NaN = None"
| "f64_partial_cmp (Fin a) (Fin b) = Some (if a < b then Less else if a = b then Equal else Greater)"
| "f64_partial_cmp PInf PInf = Some Equal"
| "f64_partial_cmp NInf NInf = Some Equal"
| "f64_partial_cmp PInf _ = Some Greater"
| "f64_partial_cmp NInf _ = Some Less"
| "f64_partial_cmp (Fin _) PInf = Some Less"
| "f64_partial_cmp (Fin _) NInf = Some Greater"

definition f64_lt :: "f64 \<Rightarrow> f64 \<Rightarrow> bool" where
  "f64_lt a b \<longleftrightarrow> f64_partial_cmp a b = Some Less"

definition f64_le :: "f64 \<Rightarrow> f64 \<Rightarrow> bool" where
  "f64_le a b \<longleftrightarrow> f64_partial_cmp a b = Some Less \<or> f64_partial_cmp a b = Some Equal"

fun is_finite :: "f64 \<Rightarrow> bool" where
  "is_finite (Fin _) = True"
| "is_finite _ = False"

text \<open>A finite value is one that rounding leaves alone.\<close>

definition f64_repr :: "f64 \<Rightarrow> bool" where
  "f64_repr x = (case x of Fin a \<Rightarrow> round64 a = Fin a | _ \<Rightarrow> True)"

lemma f64_neg_neg [simp]: "f64_neg (f64_neg x) = x"
  by (cases x) auto

lemma f64_abs_neg [simp]: "f64_abs (f64_neg x) = f64_abs x"
  by (cases x) auto

lemma round64_0 [simp]: "round64 0 = Fin 0"
  by (simp add: round64_def)

lemma round64_minus: "round64 (- x) = f64_neg (round64 x)"
  by (auto simp: round64_def)

lemma f64_sub_self [simp]: "is_finite x \<Longrightarrow> f64_sub x x = Fin 0"
  by (cases x) auto

lemma f64_sub_commute_abs: "f64_abs (f64_sub x y) = f64_abs (f64_sub y x)"
proof (cases "\<exists>a b. x = Fin a \<and> y = Fin b")
  case True
  then obtain a b where "x = Fin a" "y = Fin b" by blast
  moreover have "round64 (b - a) = f64_neg (round64 (a - b))"
    using round64_minus [of "a - b"] by simp
  ultimately show ?thesis by simp
next
  case False
  then show ?thesis by (cases x; cases y) auto
qed

lemma f64_partial_cmp_swap:
  "f64_partial_cmp a b = Some Less \<longleftrightarrow> f64_partial_cmp b a = Some Greater"
  by (cases a; cases b) auto

lemma f64_partial_cmp_eq: "f64_partial_cmp a b = Some Equal \<longleftrightarrow> a = b \<and> a \<noteq> NaN"
  by (cases a; cases b) auto

lemma f64_partial_cmp_None: "f64_partial_cmp a b = None \<longleftrightarrow> a = NaN \<or> b = NaN"
  by (cases a; cases b) auto

lemma f64_lt_trans: "f64_lt a b \<Longrightarrow> f64_lt b c \<Longrightarrow> f64_lt a c"
  by (cases a; cases b; cases c) (auto simp: f64_lt_def split: if_splits)

lemma f64_lt_le_trans: "f64_lt a b \<Longrightarrow> f64_le b c \<Longrightarrow> f64_lt a c"
  by (cases a; cases b; cases c) (auto simp: f64_lt_def f64_le_def split: if_splits)

end
