(* ===== verification/Json.thy ===== *)
theory Json
  imports Float64 "HOL-Library.Word"
begin

text \<open>
  JSON payloads. \<open>serde_json::Value\<close> is data with the constructors the program matches on;
  the functions of \<open>serde_json\<close> that the program calls are a parameter, the record
  \<open>serde\<close>, over an unknown type \<open>'n\<close> of numbers. \<open>serde_documented\<close> states their documented
  behaviour, and \<open>f64_serde\<close> is an instance of it used to evaluate concrete payloads.
\<close>

datatype 'n json =
    JNull
  | JBool bool
  | JNumber 'n
  | JString string
  | JArray "'n json list"
  | JObject "(string \<times> 'n json) list"

record 'n serde =
  sj_get :: "'n json \<Rightarrow> string \<Rightarrow> 'n json option" \<comment> \<open>\<open>Value::get\<close>\<close>
  sj_as_str :: "'n json \<Rightarrow> string option" \<comment> \<open>\<open>Value::as_str\<close>\<close>
  sj_eq :: "'n json \<Rightarrow> 'n json \<Rightarrow> bool" \<comment> \<open>\<open>PartialEq for Value\<close>\<close>
  sj_of_f64 :: "f64 \<Rightarrow> 'n json" \<comment> \<open>\<open>From<f64> for Value\<close>\<close>
  num_as_f64 :: "'n \<Rightarrow> f64 option" \<comment> \<open>\<open>Number::as_f64\<close>\<close>
  num_from_f64 :: "f64 \<Rightarrow> 'n option" \<comment> \<open>\<open>Number::from_f64\<close>\<close>
  num_from_i64 :: "64 word \<Rightarrow> 'n" \<comment> \<open>\<open>From<i64> for Number\<close>\<close>

definition serde_documented :: "'n serde \<Rightarrow> bool" where
  "serde_documented L \<longleftrightarrow>
     (\<forall>kvs k. distinct (map fst kvs) \<longrightarrow> sj_get L (JObject kvs) k = map_of kvs k) \<and>
     (\<forall>v k. (\<forall>kvs. v \<noteq> JObject kvs) \<longrightarrow> sj_get L v k = None) \<and>
     (\<forall>s. sj_as_str L (JString s) = Some s) \<and>
     (\<forall>v. (\<forall>s. v \<noteq> JString s) \<longrightarrow> sj_as_str L v = None) \<and>
     (\<forall>s t. sj_eq L (JString s) (JString t) \<longleftrightarrow> s = t) \<and>
     (\<forall>v. sj_eq L v v) \<and>
     (\<forall>x. \<not> is_finite x \<longrightarrow> num_from_f64 L x = None) \<and>
     (\<forall>x. is_finite x \<longrightarrow> (\<exists>n. num_from_f64 L x = Some n \<and> num_as_f64 L n = Some x))"

definition f64_serde :: "f64 serde" where
  "f64_serde = \<lparr>
     sj_get = (\<lambda>v k. case v of JObject kvs \<Rightarrow> map_of kvs k | _ \<Rightarrow> None),
     sj_as_str = (\<lambda>v. case v of JString s \<Rightarrow> Some s | _ \<Rightarrow> None),
     sj_eq = (=),
     sj_of_f64 = (\<lambda>x. if is_finite x then JNumber x else JNull),
     num_as_f64 = Some,
     num_from_f64 = (\<lambda>x. if is_finite x then Some x else None),
     num_from_i64 = (\<lambda>i. round64 (of_int (sint i)))\<rparr>"

lemma f64_serde_documented [simp]: "serde_documented f64_serde"
  by (auto simp: serde_documented_def f64_serde_def split: json.split)

lemma serde_get_object:
  "serde_documented L \<Longrightarrow> distinct (map fst kvs) \<Longrightarrow> sj_get L (JObject kvs) k = map_of kvs k"
  by (simp add: serde_documented_def)

lemma serde_get_nonobject:
  "serde_documented L \<Longrightarrow> (\<forall>kvs. v \<noteq> JObject kvs) \<Longrightarrow> sj_get L v k = None"
  by (simp add: serde_documented_def)

lemma serde_as_str: "serde_documented L \<Longrightarrow> sj_as_str L v = (case v of JString s \<Rightarrow> Some s | _ \<Rightarrow> None)"
  by (cases v) (auto simp: serde_documented_def)

lemma serde_eq_string: "serde_documented L \<Longrightarrow> sj_eq L (JString s) (JString t) \<longleftrightarrow> s = t"
  by (simp add: serde_documented_def)

lemma serde_eq_refl: "serde_documented L \<Longrightarrow> sj_eq L v v"
  by (simp add: serde_documented_def)

lemma serde_from_f64_nonfinite: "serde_documented L \<Longrightarrow> \<not> is_finite x \<Longrightarrow> num_from_f64 L x = None"
  by (simp add: serde_documented_def)

lemma serde_from_f64_finite:
  "serde_documented L \<Longrightarrow> is_finite x \<Longrightarrow> \<exists>n. num_from_f64 L x = Some n \<and> num_as_f64 L n = Some x"
  by (simp add: serde_documented_def)

end
