(* ===== verification/Rules.thy ===== *)
theory Rules
  imports Json
begin

text \<open>
  \<open>src/rules.rs\<close>: the runtime ruleset as data. Constructors and fields keep the source's names,
  prefixed where another type of the development has the same one.
\<close>

datatype qos = Reliable | BestEffort

datatype op = Eq | Ne | Lt | Gt | Le | Ge | SameZoneAs

datatype primitive_ref = Site | Zone | Robot | Proximity string | HumanPresence

datatype operand =
    OBool bool
  | OInt "64 word"
  | OFloat f64
  | OStr string
  | OField string
  | OPrim primitive_ref

datatype eval_mode = Edge | Level

datatype predicate =
    Comparison op operand operand
  | PAnd "predicate list"
  | POr "predicate list"
  | PNot predicate

record 'n action =
  act_topic :: string
  act_qos :: qos
  act_payload :: "'n json"

record trigger =
  tr_topic :: string
  tr_pred :: "predicate option"
  tr_mode :: eval_mode

record when_guard =
  when_all :: "trigger list"
  when_any :: "trigger list"

record 'n rule =
  rule_name :: string
  rule_when :: when_guard
  rule_actions :: "'n action list"

record 'n rules =
  rules_list :: "'n rule list"

record 'n ruleset =
  ruleset_name :: string
  rs_version :: "64 word"
  robot_owner :: string
  rs_rules :: "'n rule list"

text \<open>\<open>Trigger::default()\<close> and \<open>When::default()\<close>.\<close>

definition trigger_default :: trigger where
  "trigger_default = \<lparr>tr_topic = [], tr_pred = None, tr_mode = Edge\<rparr>"

definition when_default :: when_guard where
  "when_default = \<lparr>when_all = [], when_any = []\<rparr>"

definition rules_default :: "'n rules" where
  "rules_default = \<lparr>rules_list = []\<rparr>"

abbreviation guard_triggers :: "when_guard \<Rightarrow> trigger list" where
  "guard_triggers w \<equiv> when_all w @ when_any w"

end
