(* ===== verification/Topic.thy ===== *)
theory Topic
  imports Prelude
begin

text \<open>
  \<open>src/topic.rs\<close>: the topic naming convention. \<open>topic_try_new\<close>, \<open>acl_try_new\<close> and
  \<open>pattern_try_new\<close> are the three validating constructors, the builders are the functions other
  modules call; a builder whose \<open>expect\<close> fails is \<open>Panic\<close>. The lemmas show that validation is
  idempotent and canonical, exactly what the table accepts, when a builder panics, and that
  per-robot topics are injective in the robot id.
\<close>

section \<open>Newtypes and errors\<close>

datatype topic = Topic (topic_str: string)
datatype acl_expr = AclExpr (acl_str: string)
datatype pattern = Pattern (pattern_str: string)

datatype topic_error_kind = Empty | UnknownPattern

record topic_error =
  te_topic :: string
  te_kind :: topic_error_kind

definition topic_error_text :: "topic_error \<Rightarrow> string" where
  "topic_error_text e =
     (case te_kind e of
        Empty \<Rightarrow> ''topic is empty''
      | UnknownPattern \<Rightarrow>
          ''topic '' @ [CHR 0x27] @ te_topic e @ [CHR 0x27] @ '' does not match the flo naming convention '' @
          ''(expected robot/{id}/local/{resource}, fleet/{action}, '' @
          ''stop/{scope}/cmd, lidar/{scope}/scan, '' @
          ''zone/{zone_id}/entered|cleared, or robot/{id}/signal/{peer}/{msgtype})'')"

section \<open>Canonicalisation and the match table\<close>

definition canonicalize :: "string \<Rightarrow> string" where
  "canonicalize s =
     (case strip_prefix ''robot-'' s of
        Some rest \<Rightarrow>
          (if CHR ''/'' \<in> set rest
           then let id = takeWhile (\<lambda>c. c \<noteq> CHR ''/'') rest;
                    suffix = dropWhile (\<lambda>c. c \<noteq> CHR ''/'') rest
                in ''robot/'' @ id @ suffix
           else ''robot/'' @ rest)
      | None \<Rightarrow> s)"

text \<open>Rust slice patterns over path segments: a literal, \<open>_\<close>, or an alternative of literals.\<close>

datatype seg_pat = Lit string | Wild | Alt string string

fun seg_match :: "seg_pat \<Rightarrow> string \<Rightarrow> bool" where
  "seg_match (Lit l) s \<longleftrightarrow> s = l"
| "seg_match Wild s \<longleftrightarrow> True"
| "seg_match (Alt a b) s \<longleftrightarrow> s = a \<or> s = b"

definition slice_match :: "seg_pat list \<Rightarrow> string list \<Rightarrow> bool" where
  "slice_match ps ss \<longleftrightarrow> list_all2 seg_match ps ss"

definition matches_one_of :: "string list \<Rightarrow> bool" where
  "matches_one_of parts =
     (if slice_match [Lit ''robot'', Wild, Lit ''local'', Wild] parts then length parts = 4
      else if slice_match [Lit ''robot'', Wild, Lit ''location'', Wild] parts then length parts = 4
      else if slice_match [Lit ''robot'', Wild, Lit ''signal'', Lit ''presence''] parts then length parts = 4
      else if slice_match [Lit ''robot'', Wild, Lit ''signal'', Wild, Wild] parts then length parts = 5
      else if slice_match [Lit ''robot'', Wild, Lit ''zone''] parts then length parts = 3
      else if slice_match [Lit ''robot'', Wild, Lit ''site''] parts then length parts = 3
      else if slice_match [Lit ''robot'', Wild, Lit ''client'', Lit ''liveliness''] parts then length parts = 4
      else if slice_match [Lit ''fleet'', Lit ''registration''] parts then length parts = 2
      else if slice_match [Lit ''fleet'', Lit ''deregistration''] parts then length parts = 2
      else if slice_match [Lit ''fleet'', Lit ''registration'', Lit ''response'', Wild] parts then length parts = 4
      else if slice_match [Lit ''fleet'', Lit ''deregistration'', Lit ''response'', Wild] parts then length parts = 4
      else if slice_match [Lit ''fleet'', Lit ''alerts'', Lit ''heartbeat'', Wild] parts then length parts = 4
      else if slice_match [Lit ''fleet'', Wild, Lit ''ruleset'', Wild] parts then length parts = 4
      else if slice_match [Lit ''stop'', Wild, Lit ''cmd''] parts then length parts = 3
      else if slice_match [Lit ''lidar'', Wild, Lit ''scan''] parts then length parts = 3
      else if slice_match [Lit ''zone'', Wild, Alt ''entered'' ''cleared''] parts then length parts = 3
      else if slice_match [Lit ''zone'', Wild, Wild, Wild, Alt ''entered'' ''cleared''] parts then length parts = 5
      else if slice_match [Lit ''sensor'', Wild] parts then length parts = 2
      else if slice_match [Lit ''actuator'', Wild] parts then length parts = 2
      else False)"

definition is_valid_pattern :: "string list \<Rightarrow> bool" where
  "is_valid_pattern parts =
     (if slice_match [Lit ''robot'', Lit ''*'', Lit ''client'', Lit ''liveliness''] parts then True
      else if slice_match [Lit ''robot'', Lit ''*'', Lit ''signal'', Lit ''presence''] parts then True
      else if slice_match [Lit ''robot'', Lit ''*'', Lit ''signal'', Wild, Lit ''offer''] parts
           \<or> slice_match [Lit ''robot'', Lit ''*'', Lit ''signal'', Wild, Lit ''answer''] parts
           \<or> slice_match [Lit ''robot'', Lit ''*'', Lit ''signal'', Wild, Lit ''ice''] parts then True
      else if slice_match [Lit ''fleet'', Lit ''*'', Lit ''ruleset'', Lit ''**''] parts then True
      else if slice_match [Lit ''zone'', Lit ''*'', Lit ''entered''] parts
           \<or> slice_match [Lit ''zone'', Lit ''*'', Lit ''cleared''] parts then True
      else if slice_match [Lit ''zone'', Lit ''*'', Lit ''*'', Lit ''*'', Alt ''entered'' ''cleared''] parts then True
      else if \<exists>p \<in> set parts. p = ''*'' \<or> p = ''**'' then False
      else matches_one_of parts)"

section \<open>The validating constructors\<close>

definition topic_try_new :: "string \<Rightarrow> (topic_error, topic) outcome" where
  "topic_try_new s =
     (if s = [] then Err \<lparr>te_topic = s, te_kind = Empty\<rparr>
      else let canon = canonicalize s; parts = split_on CHR ''/'' canon
           in if matches_one_of parts then Ok (Topic canon)
              else Err \<lparr>te_topic = s, te_kind = UnknownPattern\<rparr>)"

text \<open>The slice \<open>s[7..len-3]\<close> panics when its start lies behind its end.\<close>

definition acl_try_new :: "string \<Rightarrow> (topic_error, acl_expr) outcome" where
  "acl_try_new s =
     (if s = [] then Err \<lparr>te_topic = s, te_kind = Empty\<rparr>
      else if prefix ''/robot/'' s \<and> suffix ''/**'' s then
        (if length s - length ''/**'' < length ''/robot/'' then Panic
         else let inner = drop (length ''/robot/'') (take (length s - length ''/**'') s)
              in if inner \<noteq> [] \<and> CHR ''/'' \<notin> set inner \<and> CHR ''*'' \<notin> set inner
                 then Ok (AclExpr s)
                 else Err \<lparr>te_topic = s, te_kind = UnknownPattern\<rparr>)
      else Err \<lparr>te_topic = s, te_kind = UnknownPattern\<rparr>)"

definition pattern_try_new :: "string \<Rightarrow> (topic_error, pattern) outcome" where
  "pattern_try_new s =
     (if s = [] then Err \<lparr>te_topic = s, te_kind = Empty\<rparr>
      else if (sublist ''//'' s \<or> prefix ''/'' s \<or> suffix ''/'' s)
              \<and> s \<noteq> ''fleet/*/ruleset/**'' \<and> sublist ''//'' s
      then Err \<lparr>te_topic = s, te_kind = UnknownPattern\<rparr>
      else let canon = canonicalize s; parts = split_on CHR ''/'' canon
           in if is_valid_pattern parts then Ok (Pattern canon)
              else Err \<lparr>te_topic = s, te_kind = UnknownPattern\<rparr>)"

definition check_topic_pattern :: "string \<Rightarrow> (topic_error, unit) outcome" where
  "check_topic_pattern s = bind_out (topic_try_new s) (\<lambda>_. Ok ())"

section \<open>Topic constants and builders\<close>

definition LIVELINESS_PATTERN :: string where
  "LIVELINESS_PATTERN = ''robot/*/client/liveliness''"
definition SIGNAL_PRESENCE_PATTERN :: string where
  "SIGNAL_PRESENCE_PATTERN = ''robot/*/signal/presence''"
definition REGISTRATION_KEY :: string where
  "REGISTRATION_KEY = ''fleet/registration''"
definition DEREGISTRATION_KEY :: string where
  "DEREGISTRATION_KEY = ''fleet/deregistration''"
definition RULESET_PUB_PATTERN :: string where
  "RULESET_PUB_PATTERN = ''fleet/*/ruleset/**''"
definition ZONE_ENTERED_PATTERN :: string where
  "ZONE_ENTERED_PATTERN = ''zone/*/entered''"
definition ZONE_CLEARED_PATTERN :: string where
  "ZONE_CLEARED_PATTERN = ''zone/*/cleared''"

definition robot_local :: "string \<Rightarrow> string \<Rightarrow> ('e, topic) outcome" where
  "robot_local robot_id resource = expect (topic_try_new (''robot/'' @ robot_id @ ''/local/'' @ resource))"

definition rules_key :: "string \<Rightarrow> ('e, topic) outcome" where
  "rules_key robot_id = expect (topic_try_new (''robot/'' @ robot_id @ ''/local/rules''))"

definition liveliness_key :: "string \<Rightarrow> ('e, topic) outcome" where
  "liveliness_key robot_id = expect (topic_try_new (''robot/'' @ robot_id @ ''/client/liveliness''))"

definition liveliness_pattern :: "('e, pattern) outcome" where
  "liveliness_pattern = expect (pattern_try_new LIVELINESS_PATTERN)"

definition signal_presence_key :: "string \<Rightarrow> ('e, topic) outcome" where
  "signal_presence_key robot_id = expect (topic_try_new (''robot/'' @ robot_id @ ''/signal/presence''))"

definition signal_presence_pattern :: "('e, pattern) outcome" where
  "signal_presence_pattern = expect (pattern_try_new SIGNAL_PRESENCE_PATTERN)"

definition signal_offer_key :: "string \<Rightarrow> string \<Rightarrow> ('e, topic) outcome" where
  "signal_offer_key self_id peer_id =
     expect (topic_try_new (''robot/'' @ self_id @ ''/signal/'' @ peer_id @ ''/offer''))"

definition signal_answer_key :: "string \<Rightarrow> string \<Rightarrow> ('e, topic) outcome" where
  "signal_answer_key self_id peer_id =
     expect (topic_try_new (''robot/'' @ self_id @ ''/signal/'' @ peer_id @ ''/answer''))"

definition signal_ice_key :: "string \<Rightarrow> string \<Rightarrow> ('e, topic) outcome" where
  "signal_ice_key self_id peer_id =
     expect (topic_try_new (''robot/'' @ self_id @ ''/signal/'' @ peer_id @ ''/ice''))"

definition signal_offer_pattern :: "string \<Rightarrow> ('e, pattern) outcome" where
  "signal_offer_pattern self_id = expect (pattern_try_new (''robot/*/signal/'' @ self_id @ ''/offer''))"

definition signal_answer_pattern :: "string \<Rightarrow> ('e, pattern) outcome" where
  "signal_answer_pattern self_id = expect (pattern_try_new (''robot/*/signal/'' @ self_id @ ''/answer''))"

definition signal_ice_pattern :: "string \<Rightarrow> ('e, pattern) outcome" where
  "signal_ice_pattern self_id = expect (pattern_try_new (''robot/*/signal/'' @ self_id @ ''/ice''))"

definition registration_response :: "string \<Rightarrow> ('e, topic) outcome" where
  "registration_response robot_id = expect (topic_try_new (''fleet/registration/response/'' @ robot_id))"

definition deregistration_response :: "string \<Rightarrow> ('e, topic) outcome" where
  "deregistration_response robot_id = expect (topic_try_new (''fleet/deregistration/response/'' @ robot_id))"

definition heartbeat_alert :: "string \<Rightarrow> ('e, topic) outcome" where
  "heartbeat_alert robot_id = expect (topic_try_new (''fleet/alerts/heartbeat/'' @ robot_id))"

definition ruleset_pub_key :: "string \<Rightarrow> string \<Rightarrow> ('e, topic) outcome" where
  "ruleset_pub_key site name = expect (topic_try_new (''fleet/'' @ site @ ''/ruleset/'' @ name))"

definition ruleset_pub_pattern :: "('e, pattern) outcome" where
  "ruleset_pub_pattern = expect (pattern_try_new RULESET_PUB_PATTERN)"

definition stop_cmd :: "string \<Rightarrow> ('e, topic) outcome" where
  "stop_cmd scope = expect (topic_try_new (''stop/'' @ scope @ ''/cmd''))"

definition lidar_scan :: "string \<Rightarrow> ('e, topic) outcome" where
  "lidar_scan scope = expect (topic_try_new (''lidar/'' @ scope @ ''/scan''))"

definition zone_entered :: "string \<Rightarrow> ('e, topic) outcome" where
  "zone_entered zone_id = expect (topic_try_new (''zone/'' @ zone_id @ ''/entered''))"

definition zone_cleared :: "string \<Rightarrow> ('e, topic) outcome" where
  "zone_cleared zone_id = expect (topic_try_new (''zone/'' @ zone_id @ ''/cleared''))"

definition zone_entered_pattern :: "('e, pattern) outcome" where
  "zone_entered_pattern = expect (pattern_try_new ZONE_ENTERED_PATTERN)"

definition zone_cleared_pattern :: "('e, pattern) outcome" where
  "zone_cleared_pattern = expect (pattern_try_new ZONE_CLEARED_PATTERN)"

definition robot_namespace :: "string \<Rightarrow> ('e, acl_expr) outcome" where
  "robot_namespace robot_id = expect (acl_try_new (''/robot/'' @ robot_id @ ''/**''))"

section \<open>The match table\<close>

lemma slice_match_simps [simp]:
  "slice_match [] []"
  "\<not> slice_match [] (s # ss)"
  "\<not> slice_match (p # ps) []"
  "slice_match (p # ps) (s # ss) \<longleftrightarrow> seg_match p s \<and> slice_match ps ss"
  by (simp_all add: slice_match_def)

lemma slice_match_length: "slice_match ps ss \<Longrightarrow> length ss = length ps"
  by (simp add: slice_match_def list_all2_lengthD)

text \<open>
  The convention as documented in the module header, one row per category (the camera and rules
  rows are instances of the robot-local one), with the response topics and the test helpers.
\<close>

definition topic_table :: "seg_pat list list" where
  "topic_table =
     [[Lit ''robot'', Wild, Lit ''local'', Wild],
      [Lit ''robot'', Wild, Lit ''location'', Wild],
      [Lit ''robot'', Wild, Lit ''signal'', Lit ''presence''],
      [Lit ''robot'', Wild, Lit ''signal'', Wild, Wild],
      [Lit ''robot'', Wild, Lit ''zone''],
      [Lit ''robot'', Wild, Lit ''site''],
      [Lit ''robot'', Wild, Lit ''client'', Lit ''liveliness''],
      [Lit ''fleet'', Lit ''registration''],
      [Lit ''fleet'', Lit ''deregistration''],
      [Lit ''fleet'', Lit ''registration'', Lit ''response'', Wild],
      [Lit ''fleet'', Lit ''deregistration'', Lit ''response'', Wild],
      [Lit ''fleet'', Lit ''alerts'', Lit ''heartbeat'', Wild],
      [Lit ''fleet'', Wild, Lit ''ruleset'', Wild],
      [Lit ''stop'', Wild, Lit ''cmd''],
      [Lit ''lidar'', Wild, Lit ''scan''],
      [Lit ''zone'', Wild, Alt ''entered'' ''cleared''],
      [Lit ''zone'', Wild, Wild, Wild, Alt ''entered'' ''cleared''],
      [Lit ''sensor'', Wild],
      [Lit ''actuator'', Wild]]"

lemma slice_arm:
  "length ps = n \<Longrightarrow> (if slice_match ps ss then length ss = n else Q) \<longleftrightarrow> slice_match ps ss \<or> Q"
  by (auto dest: slice_match_length)

lemma matches_one_of_table: "matches_one_of parts \<longleftrightarrow> (\<exists>row \<in> set topic_table. slice_match row parts)"
proof -
  have arms: "matches_one_of parts \<longleftrightarrow>
      foldr (\<lambda>row acc. slice_match row parts \<or> acc) topic_table False"
    unfolding matches_one_of_def topic_table_def by (simp add: slice_arm)
  have fold: "foldr (\<lambda>row acc. slice_match row parts \<or> acc) rows False \<longleftrightarrow>
      (\<exists>row \<in> set rows. slice_match row parts)" for rows
    by (induction rows) auto
  show ?thesis unfolding arms fold ..
qed

lemma matches_length: "matches_one_of parts \<Longrightarrow> length parts \<in> {2, 3, 4, 5}"
  by (auto simp: matches_one_of_table topic_table_def dest: slice_match_length)

lemma matches_head:
  "matches_one_of parts \<Longrightarrow>
     hd parts \<in> {''robot'', ''fleet'', ''stop'', ''lidar'', ''zone'', ''sensor'', ''actuator''}"
  by (cases parts) (auto simp: matches_one_of_table topic_table_def)

section \<open>Canonical form\<close>

lemma canonicalize_eq:
  "canonicalize s = (case strip_prefix ''robot-'' s of Some rest \<Rightarrow> ''robot/'' @ rest | None \<Rightarrow> s)"
  by (simp add: canonicalize_def Let_def split: option.split)

lemma canonicalize_robot [simp]: "canonicalize (''robot/'' @ r) = ''robot/'' @ r"
  by (simp add: canonicalize_eq strip_prefix_def)

lemma canonicalize_idem [simp]: "canonicalize (canonicalize s) = canonicalize s"
proof (cases "strip_prefix ''robot-'' s")
  case None
  then show ?thesis by (simp add: canonicalize_eq)
next
  case (Some rest)
  then have "canonicalize s = ''robot/'' @ rest" by (simp add: canonicalize_eq)
  then show ?thesis by (simp only: canonicalize_robot)
qed

lemma canonicalize_ne [simp]: "canonicalize s = [] \<longleftrightarrow> s = []"
  by (auto simp: canonicalize_eq strip_prefix_def split: option.split)

lemma canonicalize_hyphen: "canonicalize (''robot-'' @ r) = canonicalize (''robot/'' @ r)"
  by (simp add: canonicalize_eq strip_prefix_def)

lemma canonicalize_other: "\<not> prefix ''robot-'' s \<Longrightarrow> canonicalize s = s"
  by (simp add: canonicalize_eq strip_prefix_def)

lemma topic_try_new_Ok:
  "topic_try_new s = Ok t \<longleftrightarrow>
     s \<noteq> [] \<and> t = Topic (canonicalize s) \<and> matches_one_of (split_on CHR ''/'' (canonicalize s))"
  by (auto simp: topic_try_new_def Let_def)

lemma topic_try_new_no_panic [simp]: "topic_try_new s \<noteq> Panic"
  by (simp add: topic_try_new_def Let_def)

lemma pattern_try_new_no_panic [simp]: "pattern_try_new s \<noteq> Panic"
  by (simp add: pattern_try_new_def Let_def)

text \<open>A validating constructor: what it accepts it stores in a form it accepts again, unchanged.\<close>

locale validator =
  fixes try_new :: "string \<Rightarrow> (topic_error, 'v) outcome"
    and as_str :: "'v \<Rightarrow> string"
  assumes accepted_again: "try_new s = Ok v \<Longrightarrow> try_new (as_str v) = Ok v"
    and rejects_empty: "try_new [] = Err \<lparr>te_topic = [], te_kind = Empty\<rparr>"
begin

lemma stored_nonempty: "try_new s = Ok v \<Longrightarrow> as_str v \<noteq> []"
  using accepted_again rejects_empty by force

lemma as_str_inj: "try_new s = Ok v \<Longrightarrow> try_new s' = Ok v' \<Longrightarrow> as_str v = as_str v' \<Longrightarrow> v = v'"
  by (metis accepted_again outcome.inject(1))

end

interpretation topic_v: validator topic_try_new topic_str
  by unfold_locales (auto simp: topic_try_new_def Let_def split: if_splits)

interpretation acl_v: validator acl_try_new acl_str
  by unfold_locales (auto simp: acl_try_new_def Let_def split: if_splits)

lemma empty_piece_of_slash_pair: "[] \<in> set (tl (split_on c (a @ c # c # b)))"
proof (induction a)
  case Nil
  then show ?case by simp
next
  case (Cons x a)
  then show ?case
    by (cases "split_on c (a @ c # c # b)") auto
qed

lemma slash_pair_split:
  assumes "sublist ''//'' s"
  shows "[] \<in> set (split_on CHR ''/'' s)"
proof -
  obtain a b where "s = a @ CHR ''/'' # CHR ''/'' # b"
    using assms by (auto simp: sublist_def)
  then show ?thesis
    using empty_piece_of_slash_pair [of "CHR ''/''" a b] by (metis list.set_sel(2) split_on_ne)
qed

lemma canonicalize_slash_pair:
  assumes n: "\<not> sublist ''//'' s" and p: "\<not> prefix ''robot-/'' s"
  shows "\<not> sublist ''//'' (canonicalize s)"
proof (cases "strip_prefix ''robot-'' s")
  case None
  then show ?thesis using n by (simp add: canonicalize_eq)
next
  case (Some rest)
  then have can: "canonicalize s = ''robot/'' @ rest" by (simp add: canonicalize_eq)
  from Some have s: "s = ''robot-'' @ rest" by (simp only: strip_prefix_Some)
  have "\<not> sublist ''//'' rest"
    using n unfolding s by (metis sublist_appendI append_Nil2 sublist_order.order_trans)
  moreover have "\<not> prefix ''/'' rest" using p unfolding s by simp
  ultimately show ?thesis unfolding can by (simp add: sublist_Cons_right)
qed

section \<open>Builders\<close>

lemmas topic_builders =
  robot_local_def rules_key_def liveliness_key_def signal_presence_key_def signal_offer_key_def
  signal_answer_key_def signal_ice_key_def registration_response_def deregistration_response_def
  heartbeat_alert_def ruleset_pub_key_def stop_cmd_def lidar_scan_def zone_entered_def zone_cleared_def

lemmas pattern_builders =
  liveliness_pattern_def signal_presence_pattern_def signal_offer_pattern_def signal_answer_pattern_def
  signal_ice_pattern_def ruleset_pub_pattern_def zone_entered_pattern_def zone_cleared_pattern_def

lemmas topic_eval =
  topic_try_new_def Let_def canonicalize_eq strip_prefix_def string_simps matches_one_of_def

lemma expect_topic:
  "topic_try_new s = Ok t \<Longrightarrow> expect (topic_try_new s) = Ok t"
  by simp

lemma expect_topic_Panic: "expect (topic_try_new s) = Panic \<longleftrightarrow> \<not> is_ok (topic_try_new s)"
  by (simp add: expect_Panic is_ok_iff)

lemma robot_local_Ok [simp]:
  "CHR ''/'' \<notin> set r \<Longrightarrow> CHR ''/'' \<notin> set x \<Longrightarrow>
     robot_local r x = Ok (Topic (''robot/'' @ r @ ''/local/'' @ x))"
  by (simp add: robot_local_def topic_eval)

lemma stop_cmd_Ok [simp]: "CHR ''/'' \<notin> set x \<Longrightarrow> stop_cmd x = Ok (Topic (''stop/'' @ x @ ''/cmd''))"
  by (simp add: stop_cmd_def topic_eval)

text \<open>A topic without empty or wildcard segments is also a pattern.\<close>

lemma double_slash_segment: "[] \<in> set (tl (split_on c (a @ c # c # b)))"
proof (induction a)
  case (Cons x a)
  then show ?case by (cases "split_on c (a @ c # c # b)") auto
qed simp

lemma no_double_slash: "[] \<notin> set (split_on CHR ''/'' s) \<Longrightarrow> \<not> sublist ''//'' s"
proof
  assume *: "[] \<notin> set (split_on CHR ''/'' s)" "sublist ''//'' s"
  then obtain a b where "s = a @ CHR ''/'' # CHR ''/'' # b" by (auto simp: sublist_def)
  then have "[] \<in> set (tl (split_on CHR ''/'' s))" using double_slash_segment by simp
  with *(1) show False by (meson list.set_sel(2) split_on_ne)
qed

lemma slice_match_Lit: "slice_match ps ss \<Longrightarrow> Lit x \<in> set ps \<Longrightarrow> x \<in> set ss"
  unfolding slice_match_def by (induction ps ss rule: list_all2_induct) auto

lemma is_valid_pattern_plain:
  assumes "''*'' \<notin> set parts" and "''**'' \<notin> set parts"
  shows "is_valid_pattern parts = matches_one_of parts"
proof -
  have no: "\<not> slice_match ps parts" if "Lit ''*'' \<in> set ps" for ps
    using slice_match_Lit [OF _ that] assms by blast
  show ?thesis
    using assms by (auto simp: is_valid_pattern_def no)
qed

lemma plain_topic_pattern:
  assumes "topic_try_new s = Ok (Topic s)"
    and "\<And>p. p \<in> set (split_on CHR ''/'' s) \<Longrightarrow> p \<notin> {[], ''*'', ''**''}"
  shows "pattern_try_new s = Ok (Pattern s)"
proof -
  have m: "matches_one_of (split_on CHR ''/'' s)" and c: "canonicalize s = s" and "s \<noteq> []"
    using assms(1) by (auto simp: topic_try_new_Ok)
  moreover have "\<not> sublist ''//'' s"
    by (rule no_double_slash) (use assms(2) in blast)
  moreover have "is_valid_pattern (split_on CHR ''/'' s)"
    using m assms(2) by (subst is_valid_pattern_plain) blast+
  ultimately show ?thesis by (simp add: pattern_try_new_def Let_def)
qed

lemma robot_local_pattern:
  assumes "CHR ''/'' \<notin> set r" "CHR ''/'' \<notin> set x"
    and "r \<notin> {[], ''*'', ''**''}" "x \<notin> {[], ''*'', ''**''}"
  shows "pattern_try_new (''robot/'' @ r @ ''/local/'' @ x) =
    Ok (Pattern (''robot/'' @ r @ ''/local/'' @ x))"
proof (rule plain_topic_pattern)
  show "topic_try_new (''robot/'' @ r @ ''/local/'' @ x) = Ok (Topic (''robot/'' @ r @ ''/local/'' @ x))"
    using robot_local_Ok [OF assms(1,2)] by (simp add: robot_local_def)
  have parts: "split_on CHR ''/'' (''robot/'' @ r @ ''/local/'' @ x) = [''robot'', r, ''local'', x]"
    using assms by (simp add: string_simps)
  show "p \<notin> {[], ''*'', ''**''}" if "p \<in> set (split_on CHR ''/'' (''robot/'' @ r @ ''/local/'' @ x))" for p
    using that assms unfolding parts by auto
qed

lemma too_many_segments:
  "CHR ''/'' \<in> set r \<Longrightarrow> \<not> matches_one_of (''fleet'' # a # b # split_on CHR ''/'' r)"
proof
  assume r: "CHR ''/'' \<in> set r" and m: "matches_one_of (''fleet'' # a # b # split_on CHR ''/'' r)"
  have "count_list r CHR ''/'' \<noteq> 0" using r by (simp add: count_list_0_iff)
  then have "1 < length (split_on CHR ''/'' r)" by (simp add: split_on_length)
  then obtain x y zs where "split_on CHR ''/'' r = x # y # zs"
    by (metis One_nat_def length_Cons length_Suc_conv less_nat_zero_code list.size(3) neq_Nil_conv not_less_iff_gr_or_eq)
  with m show False by (auto simp: matches_one_of_table topic_table_def)
qed

lemma response_Ok [simp]:
  "CHR ''/'' \<notin> set r \<Longrightarrow> registration_response r = Ok (Topic (''fleet/registration/response/'' @ r))"
  "CHR ''/'' \<notin> set r \<Longrightarrow> deregistration_response r = Ok (Topic (''fleet/deregistration/response/'' @ r))"
  "CHR ''/'' \<notin> set r \<Longrightarrow> heartbeat_alert r = Ok (Topic (''fleet/alerts/heartbeat/'' @ r))"
  by (simp_all add: topic_builders topic_eval)

lemma response_Panic [simp]:
  "CHR ''/'' \<in> set r \<Longrightarrow> registration_response r = Panic"
  "CHR ''/'' \<in> set r \<Longrightarrow> deregistration_response r = Panic"
  "CHR ''/'' \<in> set r \<Longrightarrow> heartbeat_alert r = Panic"
  by (simp_all add: topic_builders topic_try_new_def Let_def canonicalize_eq strip_prefix_def too_many_segments)

lemma builders_succeed_liveliness:
  "CHR ''/'' \<notin> set a \<Longrightarrow> liveliness_key a = Ok (Topic (''robot/'' @ a @ ''/client/liveliness''))"
  by (simp add: liveliness_key_def topic_eval)

lemma acl_shape:
  assumes "prefix ''/robot/'' s" and "suffix ''/**'' s" and "10 \<le> length s"
  obtains r where "s = ''/robot/'' @ r @ ''/**''"
    and "drop 7 (take (length s - 3) s) = r"
proof -
  obtain a where a: "s = ''/robot/'' @ a" using assms(1) by (rule prefixE)
  have "suffix ''/**'' a"
  proof -
    obtain b where b: "s = b @ ''/**''" using assms(2) by (auto simp: suffix_def)
    have "7 \<le> length b" using assms(3) b by simp
    have "a = drop 7 s" using a by simp
    also have "\<dots> = drop 7 b @ ''/**''" using b \<open>7 \<le> length b\<close> by simp
    finally show ?thesis by (auto simp: suffix_def)
  qed
  then obtain r where "a = r @ ''/**''" by (auto simp: suffix_def)
  with a have "s = ''/robot/'' @ r @ ''/**''" by simp
  then show ?thesis by (intro that) auto
qed

lemma acl_short:
  assumes "prefix ''/robot/'' s" and "suffix ''/**'' s" and "length s < 10"
  shows "s = ''/robot/**''"
proof -
  obtain a where a: "s = ''/robot/'' @ a" using assms(1) by (rule prefixE)
  have "length a < 3" using assms(3) a by simp
  then have "a = [] \<or> (\<exists>x. a = [x]) \<or> (\<exists>x y. a = [x, y])"
    by (auto simp: numeral_3_eq_3 less_Suc_eq length_Suc_conv)
  then show ?thesis using a assms(2) by (auto simp: suffix_def Cons_eq_append_conv)
qed

lemma acl_long:
  "10 \<le> length s \<Longrightarrow> acl_try_new s \<noteq> Panic"
  by (auto simp: acl_try_new_def Let_def)

lemma acl_accepts:
  "acl_try_new s = Ok e \<longleftrightarrow>
     e = AclExpr s \<and> (\<exists>r. s = ''/robot/'' @ r @ ''/**'' \<and> r \<noteq> [] \<and> CHR ''/'' \<notin> set r \<and> CHR ''*'' \<notin> set r)"
proof
  assume ok: "acl_try_new s = Ok e"
  then have pre: "prefix ''/robot/'' s" "suffix ''/**'' s" "10 \<le> length s" and e: "e = AclExpr s"
    by (auto simp: acl_try_new_def Let_def split: if_splits)
  obtain r where "s = ''/robot/'' @ r @ ''/**''" "drop 7 (take (length s - 3) s) = r"
    using acl_shape [OF pre] by blast
  with ok e show "e = AclExpr s \<and> (\<exists>r. s = ''/robot/'' @ r @ ''/**'' \<and> r \<noteq> [] \<and> CHR ''/'' \<notin> set r \<and> CHR ''*'' \<notin> set r)"
    by (auto simp: acl_try_new_def Let_def split: if_splits)
next
  assume "e = AclExpr s \<and> (\<exists>r. s = ''/robot/'' @ r @ ''/**'' \<and> r \<noteq> [] \<and> CHR ''/'' \<notin> set r \<and> CHR ''*'' \<notin> set r)"
  then show "acl_try_new s = Ok e"
    by (auto simp: acl_try_new_def Let_def suffix_def Cons_eq_append_conv)
qed

lemma acl_panics: "acl_try_new s = Panic \<longleftrightarrow> s = ''/robot/**''"
proof
  assume p: "acl_try_new s = Panic"
  then have "length s < 10" using acl_long [of s] by force
  moreover from p have "prefix ''/robot/'' s" "suffix ''/**'' s"
    by (auto simp: acl_try_new_def Let_def split: if_splits)
  ultimately show "s = ''/robot/**''" by (blast intro: acl_short)
next
  assume "s = ''/robot/**''"
  then show "acl_try_new s = Panic" by (simp add: acl_try_new_def suffix_def Cons_eq_append_conv)
qed

section \<open>Properties\<close>

text \<open>
  \<open>Topic::try_new\<close> accepts exactly the non-empty strings whose canonical form, split at the
  slashes, matches a row of the documented convention; the stored topic is that canonical form.
\<close>

theorem topic_accepts_convention:
  "topic_try_new s = Ok t \<longleftrightarrow>
     s \<noteq> [] \<and> t = Topic (canonicalize s) \<and>
     (\<exists>row \<in> set topic_table. slice_match row (split_on CHR ''/'' (canonicalize s)))"
  by (simp add: topic_try_new_Ok matches_one_of_table)

text \<open>
  validation is stable. A stored topic is accepted again unchanged, the legacy hyphen form
  and the slash form of a robot topic are stored as the same topic, and no stored topic starts
  with a slash.
\<close>

theorem topic_canonical:
  assumes "topic_try_new s = Ok t"
  shows "topic_try_new (topic_str t) = Ok t
    \<and> (\<forall>r. s = ''robot-'' @ r \<longrightarrow> topic_try_new (''robot/'' @ r) = Ok t)
    \<and> \<not> prefix ''/'' (topic_str t)"
proof (intro conjI allI impI)
  show "topic_try_new (topic_str t) = Ok t"
    using assms by (rule topic_v.accepted_again)
  show "topic_try_new (''robot/'' @ r) = Ok t" if "s = ''robot-'' @ r" for r
    using assms unfolding that topic_try_new_Ok by (simp only: canonicalize_hyphen) simp
  have m: "matches_one_of (split_on CHR ''/'' (topic_str t))"
    using assms by (auto simp: topic_try_new_Ok)
  show "\<not> prefix ''/'' (topic_str t)"
  proof
    assume "prefix ''/'' (topic_str t)"
    then have "hd (split_on CHR ''/'' (topic_str t)) = []"
      by (auto simp: prefix_def)
    with matches_head [OF m] show False by simp
  qed
qed

theorem topic_canonical_witness:
  "topic_try_new ''robot-7/zone'' = Ok (Topic ''robot/7/zone'') \<and>
   topic_try_new ''robot/7/zone'' = Ok (Topic ''robot/7/zone'') \<and>
   \<not> prefix ''/'' (topic_str (Topic ''robot/7/zone''))"
proof -
  have h: "topic_try_new ''robot-7/zone'' = Ok (Topic ''robot/7/zone'')" by code_simp
  show ?thesis
    using h topic_canonical [OF h] by simp
qed

text \<open>
  every builder, given identifiers without a slash, returns the topic it documents (its
  \<open>expect\<close> does not fire).
\<close>

theorem builders_succeed:
  assumes "CHR ''/'' \<notin> set a" and "CHR ''/'' \<notin> set b"
  shows "robot_local a b = Ok (Topic (''robot/'' @ a @ ''/local/'' @ b))
    \<and> rules_key a = Ok (Topic (''robot/'' @ a @ ''/local/rules''))
    \<and> liveliness_key a = Ok (Topic (''robot/'' @ a @ ''/client/liveliness''))
    \<and> signal_presence_key a = Ok (Topic (''robot/'' @ a @ ''/signal/presence''))
    \<and> signal_offer_key a b = Ok (Topic (''robot/'' @ a @ ''/signal/'' @ b @ ''/offer''))
    \<and> signal_answer_key a b = Ok (Topic (''robot/'' @ a @ ''/signal/'' @ b @ ''/answer''))
    \<and> signal_ice_key a b = Ok (Topic (''robot/'' @ a @ ''/signal/'' @ b @ ''/ice''))
    \<and> ruleset_pub_key a b = Ok (Topic (''fleet/'' @ a @ ''/ruleset/'' @ b))
    \<and> stop_cmd a = Ok (Topic (''stop/'' @ a @ ''/cmd''))
    \<and> lidar_scan a = Ok (Topic (''lidar/'' @ a @ ''/scan''))
    \<and> zone_entered a = Ok (Topic (''zone/'' @ a @ ''/entered''))
    \<and> zone_cleared a = Ok (Topic (''zone/'' @ a @ ''/cleared''))"
  using assms by (simp_all add: topic_builders topic_eval)

theorem builders_succeed_witness:
  "robot_local ''7'' ''bumper'' = (Ok (Topic ''robot/7/local/bumper'') :: (unit, topic) outcome)"
  using builders_succeed [of "''7''" "''bumper''"] by simp

text \<open>
  the response and alert builders, whose argument is a robot id taken from the wire, panic
  exactly when the id contains a slash.
\<close>

theorem response_builders_panic:
  "(registration_response r = Panic \<longleftrightarrow> CHR ''/'' \<in> set r)
   \<and> (deregistration_response r = Panic \<longleftrightarrow> CHR ''/'' \<in> set r)
   \<and> (heartbeat_alert r = Panic \<longleftrightarrow> CHR ''/'' \<in> set r)"
  by (cases "CHR ''/'' \<in> set r"; simp)

text \<open>
  robots do not share topics. Two successful calls of a per-robot builder return the same
  topic only for the same robot id (and the same resource).
\<close>

theorem robot_topics_injective:
  assumes "CHR ''/'' \<notin> set a" "CHR ''/'' \<notin> set a'" "CHR ''/'' \<notin> set b" "CHR ''/'' \<notin> set b'"
  shows "((robot_local a b :: (unit, topic) outcome) = robot_local a' b' \<longrightarrow> a = a' \<and> b = b')
    \<and> ((liveliness_key a :: (unit, topic) outcome) = liveliness_key a' \<longrightarrow> a = a')
    \<and> ((registration_response a :: (unit, topic) outcome) = registration_response a' \<longrightarrow> a = a')"
proof (intro conjI impI)
  have seg: "split_on CHR ''/'' (x @ CHR ''/'' # y) = x # split_on CHR ''/'' y"
    if "CHR ''/'' \<notin> set x" for x y using that by (rule split_on_append)
  have both: "a = a' \<and> b = b'" if "(robot_local a b :: (unit, topic) outcome) = robot_local a' b'"
  proof -
    have "a @ CHR ''/'' # (''local/'' @ b) = a' @ CHR ''/'' # (''local/'' @ b')"
      using that assms by simp
    then have "split_on CHR ''/'' (a @ CHR ''/'' # (''local/'' @ b)) =
        split_on CHR ''/'' (a' @ CHR ''/'' # (''local/'' @ b'))" by (rule arg_cong)
    then show ?thesis using assms by (simp add: seg string_simps)
  qed
  show "a = a'" if "(robot_local a b :: (unit, topic) outcome) = robot_local a' b'"
    using both that by blast
  show "b = b'" if "(robot_local a b :: (unit, topic) outcome) = robot_local a' b'"
    using both that by blast
  show "a = a'" if "(liveliness_key a :: (unit, topic) outcome) = liveliness_key a'"
    using that assms by (simp add: builders_succeed_liveliness)
  show "a = a'" if "(registration_response a :: (unit, topic) outcome) = registration_response a'"
    using that assms by simp
qed

theorem robot_topics_injective_witness:
  "(robot_local ''7'' ''zone'' :: (unit, topic) outcome) \<noteq> robot_local ''8'' ''zone''"
  using robot_topics_injective [of "''7''" "''8''" "''zone''" "''zone''"] by auto

text \<open>
  \<open>AclExpr::try_new\<close> accepts exactly \<open>/robot/{id}/**\<close> with a non-empty id free of \<open>/\<close> and \<open>*\<close>,
  so an accepted expression is scoped to one robot; on the input \<open>/robot/**\<close>, and only there,
  the slice that extracts the id panics.
\<close>

theorem acl_scoped_to_one_robot:
  "(acl_try_new s = Ok e \<longleftrightarrow>
     e = AclExpr s \<and> (\<exists>r. s = ''/robot/'' @ r @ ''/**'' \<and> r \<noteq> [] \<and> CHR ''/'' \<notin> set r \<and> CHR ''*'' \<notin> set r))
   \<and> (acl_try_new s = Panic \<longleftrightarrow> s = ''/robot/**'')"
  using acl_accepts acl_panics by blast

end
