(* ===== verification/Semantic.thy ===== *)
theory Semantic
  imports Rules Topic
begin

text \<open>
  \<open>src/semantic.rs\<close>: the rule language operators write, its validation and its compilation to the
  runtime ruleset. Error messages are kept as data (\<open>message\<close>) instead of formatted text; codes
  and field paths are those of the source. The TOML and JSON readers and the Unicode part of
  \<open>str::to_lowercase\<close> are arguments. The lemmas show that building and lowering a guard preserve
  its meaning under every reading of the triggers.
\<close>

section \<open>Errors\<close>

datatype error_code =
    Parse | NoActionVerb | InvalidDistance | UnknownZone | MissingField | NonPrimitivePayload
  | InvalidRulesetName | InvalidTopic | EmptyWhen | UnrepresentableNesting

fun error_code_str :: "error_code \<Rightarrow> string" where
  "error_code_str Parse = ''E001''"
| "error_code_str NoActionVerb = ''E002''"
| "error_code_str InvalidDistance = ''E003''"
| "error_code_str UnknownZone = ''E004''"
| "error_code_str MissingField = ''E005''"
| "error_code_str NonPrimitivePayload = ''E006''"
| "error_code_str InvalidRulesetName = ''E007''"
| "error_code_str InvalidTopic = ''E008''"
| "error_code_str EmptyWhen = ''E009''"
| "error_code_str UnrepresentableNesting = ''E010''"

text \<open>What a message says, one constructor per \<open>format!\<close> of the source.\<close>

datatype 'n message =
    MParse string
  | MNoVerb string
  | MManyVerbs string
  | MPayload string "'n json"
  | MSlowTo string f64
  | MTopicEmpty string
  | MWhenEmpty string
  | MDistance string f64
  | MZone string string
  | MSecondOr string string nat
  | MAndWithOr string string
  | MAndOf string string nat
  | MSiteId
  | MTopic string topic_error
  | MName string

record 'n semantic_error =
  se_message :: "'n message"
  se_code :: error_code
  field_path :: "string option"

definition sem_error :: "error_code \<Rightarrow> 'n message \<Rightarrow> 'n semantic_error" where
  "sem_error code message = \<lparr>se_message = message, se_code = code, field_path = None\<rparr>"

definition with_path :: "'n semantic_error \<Rightarrow> string \<Rightarrow> 'n semantic_error" where
  "with_path e path = e\<lparr>field_path := Some path\<rparr>"

section \<open>The authored document\<close>

record site =
  site_id :: string
  site_frame :: string

record zone_def =
  zone_shape :: string
  zone_x :: f64
  zone_y :: f64
  zone_w :: f64
  zone_h :: f64

record near_spec =
  near_entity :: string
  near_dist :: f64

datatype semantic_when = SemanticWhen
  (in_zone: "string option")
  (not_in_zone: "string option")
  (near_human: "f64 option")
  (not_near_human: "f64 option")
  (near: "near_spec option")
  (role: "string option")
  (sw_all: "semantic_when list")
  (sw_any: "semantic_when list")

definition semantic_when_default :: semantic_when where
  "semantic_when_default = SemanticWhen None None None None None None [] []"

record 'n semantic_action =
  sa_estop :: bool
  sa_slow_to :: "f64 option"
  sa_resume :: bool
  sa_topic :: "string option"
  sa_payload :: "'n json option"
  sa_qos :: qos

record 'n semantic_rule =
  sr_name :: string
  sr_when :: semantic_when
  sr_actions :: "'n semantic_action list"

record 'n rules_manifest =
  rm_site :: site
  rm_zones :: "string \<rightharpoonup> zone_def"
  rm_rules :: "'n semantic_rule list"

record 'n semantic_ruleset_rule =
  srr_name :: string
  srr_when :: semantic_when
  srr_actions :: "'n semantic_action list"

record 'n semantic_ruleset =
  srs_name :: string
  srs_version :: "64 word"
  srs_owner :: string
  srs_site :: site
  srs_zones :: "string \<rightharpoonup> zone_def"
  srs_rules :: "'n semantic_ruleset_rule list"

datatype when_expr = All "when_expr list" | Any "when_expr list" | Leaf trigger

datatype 'n action_spec = Estop | SlowTo f64 | Resume | Raw string "'n json"

section \<open>Actions\<close>

fun is_leaf :: "'n json \<Rightarrow> bool" where
  "is_leaf (JBool _) = True"
| "is_leaf (JNumber _) = True"
| "is_leaf (JString _) = True"
| "is_leaf _ = False"

fun is_primitive :: "'n json \<Rightarrow> bool" where
  "is_primitive (JBool _) = True"
| "is_primitive (JNumber _) = True"
| "is_primitive (JString _) = True"
| "is_primitive (JObject m) = list_all is_leaf (map snd m)"
| "is_primitive _ = False"

definition verb_count :: "'n semantic_action \<Rightarrow> nat" where
  "verb_count a =
     (if sa_estop a then 1 else 0) + (if sa_slow_to a \<noteq> None then 1 else 0)
     + (if sa_resume a then 1 else 0) + (if sa_topic a \<noteq> None then 1 else 0)"

definition try_from_action ::
  "'n semantic_action \<Rightarrow> string \<Rightarrow> ('n semantic_error, 'n action_spec) outcome" where
  "try_from_action a rname =
     (if verb_count a = 0 then Err (sem_error NoActionVerb (MNoVerb rname))
      else if 1 < verb_count a then Err (sem_error NoActionVerb (MManyVerbs rname))
      else case (case sa_payload a of Some p \<Rightarrow> if is_primitive p then None else Some p | None \<Rightarrow> None) of
             Some p \<Rightarrow> Err (sem_error NonPrimitivePayload (MPayload rname p))
           | None \<Rightarrow>
               if sa_estop a then Ok Estop
               else if sa_resume a then Ok Resume
               else case sa_slow_to a of
                      Some v \<Rightarrow>
                        if \<not> is_finite v then Err (sem_error InvalidDistance (MSlowTo rname v))
                        else Ok (SlowTo v)
                    | None \<Rightarrow>
                        (case sa_topic a of
                           Some t \<Rightarrow>
                             if t = [] then Err (sem_error InvalidTopic (MTopicEmpty rname))
                             else Ok (Raw t (case sa_payload a of Some p \<Rightarrow> p | None \<Rightarrow> JNull))
                         | None \<Rightarrow> Panic))"

definition compile_action_from_spec ::
  "'n serde \<Rightarrow> 'n action_spec \<Rightarrow> 'n semantic_action \<Rightarrow> string \<Rightarrow> ('n semantic_error, 'n action) outcome" where
  "compile_action_from_spec L spec original robot_id =
     (case spec of
        Estop \<Rightarrow>
          bind_out (stop_cmd ''fleet'') (\<lambda>t. Ok \<lparr>act_topic = topic_str t, act_qos = Reliable,
            act_payload = JObject [(''stop'', JBool True)]\<rparr>)
      | Resume \<Rightarrow>
          bind_out (robot_local robot_id ''drive'') (\<lambda>t. Ok \<lparr>act_topic = topic_str t, act_qos = Reliable,
            act_payload = JObject [(''resume'', JBool True)]\<rparr>)
      | SlowTo v \<Rightarrow>
          bind_out (robot_local robot_id ''drive'') (\<lambda>t. Ok \<lparr>act_topic = topic_str t, act_qos = sa_qos original,
            act_payload = JObject [(''speed_mps'', sj_of_f64 L v)]\<rparr>)
      | Raw topic payload \<Rightarrow>
          bind_out (map_err (\<lambda>e. sem_error InvalidTopic (MTopic topic e)) (topic_try_new topic))
            (\<lambda>t. Ok \<lparr>act_topic = topic_str t, act_qos = sa_qos original, act_payload = payload\<rparr>))"

section \<open>Guards\<close>

definition when_is_empty :: "semantic_when \<Rightarrow> bool" where
  "when_is_empty w \<longleftrightarrow>
     in_zone w = None \<and> not_in_zone w = None \<and> near_human w = None \<and> not_near_human w = None
     \<and> near w = None \<and> role w = None \<and> sw_all w = [] \<and> sw_any w = []"

text \<open>\<open>[a, b, c].into_iter().flatten()\<close> over options.\<close>

definition flatten_options :: "'a option list \<Rightarrow> 'a list" where
  "flatten_options xs = List.map_filter (\<lambda>x. x) xs"

definition when_distances :: "semantic_when \<Rightarrow> f64 list" where
  "when_distances w = flatten_options [near_human w, not_near_human w, map_option near_dist (near w)]"

definition when_zones :: "semantic_when \<Rightarrow> string list" where
  "when_zones w = flatten_options [in_zone w, not_in_zone w]"

definition leaf_trigger ::
  "string \<Rightarrow> string \<Rightarrow> predicate \<Rightarrow> eval_mode \<Rightarrow> ('n semantic_error, trigger) outcome" where
  "leaf_trigger robot_id resource p mode =
     bind_out (robot_local robot_id resource)
       (\<lambda>t. Ok \<lparr>tr_topic = topic_str t, tr_pred = Some p, tr_mode = mode\<rparr>)"

text \<open>The flat conditions of a guard, in the order the source pushes their triggers.\<close>

definition flat_conditions :: "semantic_when \<Rightarrow> (string \<times> predicate \<times> eval_mode) list" where
  "flat_conditions w = flatten_options
     [map_option (\<lambda>z. (''zone'', Comparison Eq (OPrim Zone) (OStr z), Edge)) (in_zone w),
      map_option (\<lambda>z. (''zone'', PNot (Comparison Eq (OPrim Zone) (OStr z)), Edge)) (not_in_zone w),
      map_option (\<lambda>d. (''human_present'', Comparison Lt (OPrim HumanPresence) (OFloat d), Level)) (near_human w),
      map_option (\<lambda>d. (''human_present'', Comparison Ge (OPrim HumanPresence) (OFloat d), Level)) (not_near_human w),
      map_option (\<lambda>n. (''proximity'',
         Comparison Lt (OPrim (Proximity (near_entity n))) (OFloat (near_dist n)), Level)) (near w),
      map_option (\<lambda>r. (''role'', Comparison Eq (OPrim Robot) (OStr r), Edge)) (role w)]"

definition leaf_triggers :: "semantic_when \<Rightarrow> string \<Rightarrow> ('n semantic_error, trigger list) outcome" where
  "leaf_triggers w robot_id =
     traverse (\<lambda>_ (resource, p, mode). leaf_trigger robot_id resource p mode) 0 (flat_conditions w)"

definition child_path :: "string \<Rightarrow> string \<Rightarrow> nat \<Rightarrow> string" where
  "child_path path kind idx = path @ ''.'' @ kind @ ''['' @ show_nat idx @ '']''"

text \<open>The final \<open>match\<close> of \<open>build_when_expr\<close>; its \<open>unreachable!\<close> arm is a panic.\<close>

definition combine_parts :: "when_expr list \<Rightarrow> when_expr list \<Rightarrow> ('n semantic_error, when_expr) outcome" where
  "combine_parts and_parts any_children =
     (case (and_parts, any_children) of
        ([], []) \<Rightarrow> Panic
      | ([], _) \<Rightarrow> Ok (Any any_children)
      | (p # ps, []) \<Rightarrow> if ps = [] then Ok p else Ok (All and_parts)
      | (_, _) \<Rightarrow> Ok (All (and_parts @ [Any any_children])))"

lemma traverse_cong [fundef_cong]:
  "xs = ys \<Longrightarrow> i = j \<Longrightarrow> (\<And>k x. x \<in> set ys \<Longrightarrow> f k x = g k x) \<Longrightarrow> traverse f i xs = traverse g j ys"
proof (induction xs arbitrary: ys i j)
  case (Cons x xs)
  then show ?case by (auto intro!: bind_out_cong)
qed auto

function build_when_expr ::
  "semantic_when \<Rightarrow> string \<Rightarrow> 'n rules_manifest \<Rightarrow> string \<Rightarrow> string \<Rightarrow> ('n semantic_error, when_expr) outcome" where
  "build_when_expr w robot_id doc rname path =
     (if when_is_empty w then Err (with_path (sem_error EmptyWhen (MWhenEmpty rname)) path)
      else case find (\<lambda>d. f64_le d (Fin 0)) (when_distances w) of
             Some d \<Rightarrow> Err (with_path (sem_error InvalidDistance (MDistance rname d)) path)
           | None \<Rightarrow>
         (case find (\<lambda>z. rm_zones doc z = None) (when_zones w) of
             Some z \<Rightarrow> Err (with_path (sem_error UnknownZone (MZone rname z)) path)
           | None \<Rightarrow>
               bind_out (leaf_triggers w robot_id) (\<lambda>leaves.
               bind_out (traverse (\<lambda>idx nested.
                   build_when_expr nested robot_id doc rname (child_path path ''all'' idx)) 0 (sw_all w))
                 (\<lambda>all_children.
               bind_out (traverse (\<lambda>idx nested.
                   build_when_expr nested robot_id doc rname (child_path path ''any'' idx)) 0 (sw_any w))
                 (\<lambda>any_children.
               combine_parts (map Leaf leaves @ all_children) any_children)))))"
  by pat_completeness auto

lemma semantic_when_size [termination_simp]:
  "x \<in> set (sw_all w) \<Longrightarrow> size x < size w" "x \<in> set (sw_any w) \<Longrightarrow> size x < size w"
proof -
  have le: "size x \<le> size_list size xs" if "x \<in> set xs" for xs :: "semantic_when list"
    by (rule size_list_estimation' [OF that]) simp
  show "x \<in> set (sw_all w) \<Longrightarrow> size x < size w" using le [of "sw_all w"] by (cases w) auto
  show "x \<in> set (sw_any w) \<Longrightarrow> size x < size w" using le [of "sw_any w"] by (cases w) auto
qed

termination build_when_expr
  by (relation "measure (\<lambda>(w, _). size w)") (simp_all add: semantic_when_size)

declare build_when_expr.simps [simp del]

fun lower :: "when_expr \<Rightarrow> string \<Rightarrow> string \<Rightarrow> ('n semantic_error, when_guard) outcome"
  and lower_all ::
    "when_expr list \<Rightarrow> nat \<Rightarrow> trigger list \<Rightarrow> trigger list \<Rightarrow> string \<Rightarrow> string \<Rightarrow> ('n semantic_error, when_guard) outcome"
  and lower_any ::
    "when_expr list \<Rightarrow> nat \<Rightarrow> trigger list \<Rightarrow> string \<Rightarrow> string \<Rightarrow> ('n semantic_error, when_guard) outcome" where
  "lower (Leaf t) rname path = Ok \<lparr>when_all = [t], when_any = []\<rparr>"
| "lower (All children) rname path = lower_all children 0 [] [] rname path"
| "lower (Any children) rname path = lower_any children 0 [] rname path"
| "lower_all [] idx al an rname path = Ok \<lparr>when_all = al, when_any = an\<rparr>"
| "lower_all (c # cs) idx al an rname path =
     bind_out (lower c rname (child_path path ''all'' idx)) (\<lambda>w.
       if when_any w \<noteq> [] then
         (if an \<noteq> [] then
            Err (with_path (sem_error UnrepresentableNesting (MSecondOr rname path idx))
                   (child_path path ''all'' idx))
          else lower_all cs (Suc idx) (al @ when_all w) (when_any w) rname path)
       else lower_all cs (Suc idx) (al @ when_all w) an rname path)"
| "lower_any [] idx an rname path = Ok \<lparr>when_all = [], when_any = an\<rparr>"
| "lower_any (c # cs) idx an rname path =
     bind_out (lower c rname (child_path path ''any'' idx)) (\<lambda>w.
       if when_all w \<noteq> [] \<and> when_any w \<noteq> [] then
         Err (with_path (sem_error UnrepresentableNesting (MAndWithOr rname (child_path path ''any'' idx)))
                (child_path path ''any'' idx))
       else if when_any w = [] then
         (case when_all w of
            [t] \<Rightarrow> lower_any cs (Suc idx) (an @ [t]) rname path
          | ts \<Rightarrow>
            Err (with_path (sem_error UnrepresentableNesting
                              (MAndOf rname (child_path path ''any'' idx) (length ts)))
                   (child_path path ''any'' idx)))
       else lower_any cs (Suc idx) (an @ when_any w) rname path)"

section \<open>Validation and compilation\<close>

definition action_path :: "nat \<Rightarrow> nat \<Rightarrow> string" where
  "action_path rule_idx action_idx =
     ''rules['' @ show_nat rule_idx @ ''].actions['' @ show_nat action_idx @ '']''"

definition when_path :: "nat \<Rightarrow> string" where
  "when_path rule_idx = ''rules['' @ show_nat rule_idx @ ''].when''"

definition promote_path :: "string \<Rightarrow> 'n semantic_error \<Rightarrow> 'n semantic_error" where
  "promote_path path e =
     (if field_path e = None then with_path e path
      else if field_path e = Some ''payload'' then with_path e (path @ ''.payload'')
      else with_path e path)"

definition payload_path :: "string \<Rightarrow> 'n semantic_error \<Rightarrow> 'n semantic_error" where
  "payload_path path e =
     (if se_code e = NonPrimitivePayload
         \<and> \<not> suffix ''.payload'' (case field_path e of None \<Rightarrow> [] | Some p \<Rightarrow> p)
      then e\<lparr>field_path := Some (path @ ''.payload'')\<rparr> else e)"

definition validate_rule ::
  "'n rules_manifest \<Rightarrow> nat \<Rightarrow> 'n semantic_rule \<Rightarrow> ('n semantic_error, unit) outcome" where
  "validate_rule doc rule_idx rule =
     bind_out (traverse (\<lambda>action_idx a.
         map_err (payload_path (action_path rule_idx action_idx))
           (map_err (promote_path (action_path rule_idx action_idx)) (try_from_action a (sr_name rule))))
         0 (sr_actions rule))
       (\<lambda>_. bind_out (build_when_expr (sr_when rule) ''validation'' doc (sr_name rule) (when_path rule_idx))
       (\<lambda>_. Ok ()))"

definition validate :: "'n rules_manifest \<Rightarrow> ('n semantic_error, unit) outcome" where
  "validate doc = bind_out (traverse (validate_rule doc) 0 (rm_rules doc)) (\<lambda>_. Ok ())"

definition compile_action ::
  "'n serde \<Rightarrow> string \<Rightarrow> string \<Rightarrow> nat \<Rightarrow> nat \<Rightarrow> 'n semantic_action \<Rightarrow> ('n semantic_error, 'n action) outcome" where
  "compile_action L robot_id rname rule_idx action_idx a =
     bind_out (map_err (promote_path (action_path rule_idx action_idx)) (try_from_action a rname))
       (\<lambda>spec. compile_action_from_spec L spec a robot_id)"

definition compile_rule ::
  "'n serde \<Rightarrow> 'n rules_manifest \<Rightarrow> string \<Rightarrow> nat \<Rightarrow> 'n semantic_rule \<Rightarrow> ('n semantic_error, 'n rule) outcome" where
  "compile_rule L doc robot_id rule_idx rule =
     bind_out (build_when_expr (sr_when rule) robot_id doc (sr_name rule) (when_path rule_idx)) (\<lambda>expr.
     bind_out (lower expr (sr_name rule) (when_path rule_idx)) (\<lambda>w.
     bind_out (traverse (compile_action L robot_id (sr_name rule) rule_idx) 0 (sr_actions rule)) (\<lambda>actions.
     Ok \<lparr>rule_name = sr_name rule, rule_when = w, rule_actions = actions\<rparr>)))"

definition compile ::
  "'n serde \<Rightarrow> 'n rules_manifest \<Rightarrow> string \<Rightarrow> ('n semantic_error, 'n rules) outcome" where
  "compile L doc robot_id =
     bind_out (validate doc) (\<lambda>_.
       if site_id (rm_site doc) = []
       then Err (with_path (sem_error MissingField MSiteId) ''site.id'')
       else bind_out (traverse (compile_rule L doc robot_id) 0 (rm_rules doc))
              (\<lambda>out. Ok \<lparr>rules_list = out\<rparr>))"

definition ruleset_name_char :: "char \<Rightarrow> bool" where
  "ruleset_name_char c \<longleftrightarrow>
     (let n = (of_char c :: nat) in 97 \<le> n \<and> n \<le> 122 \<or> 48 \<le> n \<and> n \<le> 57 \<or> n = 45)"

definition normalize_ruleset_name ::
  "(string \<Rightarrow> string) \<Rightarrow> string \<Rightarrow> ('n semantic_error, string) outcome" where
  "normalize_ruleset_name to_lowercase name =
     (let rsname = to_lowercase name
      in if \<not> list_all ruleset_name_char rsname \<or> rsname = [] \<or> 64 < length rsname
         then Err (with_path (sem_error InvalidRulesetName (MName rsname)) ''ruleset_name'')
         else Ok rsname)"

definition desugar :: "'n semantic_ruleset \<Rightarrow> 'n rules_manifest" where
  "desugar doc =
     \<lparr>rm_site = srs_site doc, rm_zones = srs_zones doc,
      rm_rules = map (\<lambda>r. \<lparr>sr_name = srr_name r, sr_when = srr_when r, sr_actions = srr_actions r\<rparr>)
                   (srs_rules doc)\<rparr>"

definition compile_ruleset ::
  "'n serde \<Rightarrow> (string \<Rightarrow> string) \<Rightarrow> 'n semantic_ruleset \<Rightarrow> string \<Rightarrow> ('n semantic_error, 'n ruleset) outcome" where
  "compile_ruleset L to_lowercase doc robot_id =
     bind_out (normalize_ruleset_name to_lowercase (srs_name doc)) (\<lambda>name.
     bind_out (compile L (desugar doc) robot_id) (\<lambda>rls.
     Ok \<lparr>ruleset_name = name, rs_version = srs_version doc, robot_owner = srs_owner doc,
         rs_rules = rules_list rls\<rparr>))"

section \<open>Reading documents\<close>

datatype format = Json | Toml

definition guess_format :: "string \<Rightarrow> format" where
  "guess_format text = (if prefix ''{'' (trim text) then Json else Toml)"

text \<open>The readers of the \<open>toml\<close> and \<open>serde_json\<close> crates, with the text of their errors.\<close>

record 'n readers =
  toml_manifest :: "string \<Rightarrow> (string, 'n rules_manifest) outcome"
  json_manifest :: "string \<Rightarrow> (string, 'n rules_manifest) outcome"
  toml_ruleset :: "string \<Rightarrow> (string, 'n semantic_ruleset) outcome"

definition parse_semantic :: "'n readers \<Rightarrow> string \<Rightarrow> ('n semantic_error, 'n rules_manifest) outcome" where
  "parse_semantic R text = map_err (\<lambda>e. sem_error Parse (MParse e)) (toml_manifest R text)"

definition parse_semantic_json :: "'n readers \<Rightarrow> string \<Rightarrow> ('n semantic_error, 'n rules_manifest) outcome" where
  "parse_semantic_json R text = map_err (\<lambda>e. sem_error Parse (MParse e)) (json_manifest R text)"

definition parse_semantic_ruleset :: "'n readers \<Rightarrow> string \<Rightarrow> ('n semantic_error, 'n semantic_ruleset) outcome" where
  "parse_semantic_ruleset R text = map_err (\<lambda>e. sem_error Parse (MParse e)) (toml_ruleset R text)"

definition parse_semantic_auto :: "'n readers \<Rightarrow> string \<Rightarrow> ('n semantic_error, 'n rules_manifest) outcome" where
  "parse_semantic_auto R text =
     (case guess_format text of Json \<Rightarrow> parse_semantic_json R text | Toml \<Rightarrow> parse_semantic R text)"

end
