(* ===== verification/Semantic_Meaning.thy ===== *)
theory Semantic_Meaning
  imports Semantic
begin

text \<open>
  Correctness of the rule compiler: the meaning of authored guards, of the intermediate
  expressions and of the runtime guard agree under every reading of the triggers, the compiler
  does not panic, and what it emits is well formed.
\<close>

section \<open>Meanings\<close>

fun expr_holds :: "(trigger \<Rightarrow> bool) \<Rightarrow> when_expr \<Rightarrow> bool" where
  "expr_holds f (Leaf t) = f t"
| "expr_holds f (All es) = (\<forall>e \<in> set es. expr_holds f e)"
| "expr_holds f (Any es) = (\<exists>e \<in> set es. expr_holds f e)"

fun expr_ok :: "when_expr \<Rightarrow> bool" where
  "expr_ok (Leaf t) = True"
| "expr_ok (All es) = (es \<noteq> [] \<and> (\<forall>e \<in> set es. expr_ok e))"
| "expr_ok (Any es) = (es \<noteq> [] \<and> (\<forall>e \<in> set es. expr_ok e))"

definition guard_holds :: "(trigger \<Rightarrow> bool) \<Rightarrow> when_guard \<Rightarrow> bool" where
  "guard_holds f w \<longleftrightarrow>
     (\<forall>t \<in> set (when_all w). f t) \<and> (when_any w = [] \<or> (\<exists>t \<in> set (when_any w). f t))"

text \<open>An authored guard: every flat condition, every nested \<open>all\<close>, and one of \<open>any\<close> if there are any.\<close>

function sem_holds :: "(string \<times> predicate \<times> eval_mode \<Rightarrow> bool) \<Rightarrow> semantic_when \<Rightarrow> bool" where
  "sem_holds f w \<longleftrightarrow>
     (\<forall>c \<in> set (flat_conditions w). f c) \<and> (\<forall>n \<in> set (sw_all w). sem_holds f n)
     \<and> (sw_any w = [] \<or> (\<exists>n \<in> set (sw_any w). sem_holds f n))"
  by pat_completeness auto

termination sem_holds
  by (relation "measure (\<lambda>(_, w). size w)") (simp_all add: semantic_when_size)

declare sem_holds.simps [simp del]

definition cond_trigger :: "string \<Rightarrow> string \<times> predicate \<times> eval_mode \<Rightarrow> trigger" where
  "cond_trigger robot_id c =
     \<lparr>tr_topic = ''robot/'' @ robot_id @ ''/local/'' @ fst c, tr_pred = Some (fst (snd c)),
      tr_mode = snd (snd c)\<rparr>"

section \<open>Lowering\<close>

lemma lower_correct:
  "lower e rn p = (Ok w :: ('n semantic_error, when_guard) outcome) \<Longrightarrow> expr_ok e \<Longrightarrow>
     (guard_holds f w \<longleftrightarrow> expr_holds f e) \<and> guard_triggers w \<noteq> []"
  "lower_all cs i al an rn p = (Ok w :: ('n semantic_error, when_guard) outcome) \<Longrightarrow>
     (\<forall>c \<in> set cs. expr_ok c) \<Longrightarrow>
     (guard_holds f w \<longleftrightarrow>
        guard_holds f \<lparr>when_all = al, when_any = an\<rparr> \<and> (\<forall>c \<in> set cs. expr_holds f c)) \<and>
     (al @ an \<noteq> [] \<or> cs \<noteq> [] \<longrightarrow> guard_triggers w \<noteq> [])"
  "lower_any cs i an rn p = (Ok w :: ('n semantic_error, when_guard) outcome) \<Longrightarrow>
     (\<forall>c \<in> set cs. expr_ok c) \<Longrightarrow>
     when_all w = [] \<and> ((\<exists>t \<in> set (when_any w). f t) \<longleftrightarrow> (\<exists>t \<in> set an. f t) \<or> (\<exists>c \<in> set cs. expr_holds f c)) \<and>
     (an \<noteq> [] \<or> cs \<noteq> [] \<longrightarrow> when_any w \<noteq> [])"
proof (induction e rn p and cs i al an rn p and cs i an rn p arbitrary: w and w and w
    rule: lower_lower_all_lower_any.induct [where 'n = 'n])
  case (1 t rn p)
  then show ?case by (auto simp: guard_holds_def)
next
  case (2 cs rn p)
  then show ?case by (auto simp: guard_holds_def)
next
  case (3 cs rn p)
  then show ?case by (auto simp: guard_holds_def)
next
  case (4 i al an rn p)
  then show ?case by auto
next
  case (5 c cs i al an rn p)
  from 5(4) obtain v where v: "lower c rn (child_path p ''all'' i) = (Ok v :: ('n semantic_error, when_guard) outcome)"
    and rest: "lower_all cs (Suc i) (al @ when_all v) (if when_any v \<noteq> [] then when_any v else an) rn p =
      (Ok w :: ('n semantic_error, when_guard) outcome)"
    and one: "when_any v = [] \<or> an = []"
    by (auto split: if_splits)
  have ih1: "(guard_holds f v \<longleftrightarrow> expr_holds f c) \<and> guard_triggers v \<noteq> []"
    using 5(1) v 5(5) by simp
  have ih2: "(guard_holds f w \<longleftrightarrow>
      guard_holds f \<lparr>when_all = al @ when_all v, when_any = (if when_any v \<noteq> [] then when_any v else an)\<rparr>
        \<and> (\<forall>c \<in> set cs. expr_holds f c)) \<and> guard_triggers w \<noteq> []"
  proof (cases "when_any v = []")
    case True
    with rest have "lower_all cs (Suc i) (al @ when_all v) an rn p =
      (Ok w :: ('n semantic_error, when_guard) outcome)" by simp
    from 5(3) [OF v _ this] True ih1 5(5) show ?thesis by simp
  next
    case False
    with rest have "lower_all cs (Suc i) (al @ when_all v) (when_any v) rn p =
      (Ok w :: ('n semantic_error, when_guard) outcome)" by simp
    from 5(2) [OF v False _ this] False one 5(5) show ?thesis by simp
  qed
  show ?case
  proof (cases "when_any v = []")
    case True
    with ih1 ih2 show ?thesis by (simp add: guard_holds_def ball_Un conj_ac)
  next
    case False
    with ih1 ih2 one show ?thesis by (auto simp: guard_holds_def)
  qed
next
  case (6 i an rn p)
  then show ?case by auto
next
  case (7 c cs i an rn p)
  from 7(4) obtain v where v: "lower c rn (child_path p ''any'' i) = (Ok v :: ('n semantic_error, when_guard) outcome)"
    and shape: "when_all v = [] \<or> when_any v = []"
    by (auto split: if_splits)
  have ih1: "(guard_holds f v \<longleftrightarrow> expr_holds f c) \<and> guard_triggers v \<noteq> []"
    using 7(1) v 7(5) by simp
  show ?case
  proof (cases "when_any v = []")
    case True
    then obtain t where t: "when_all v = [t]"
      "lower_any cs (Suc i) (an @ [t]) rn p = (Ok w :: ('n semantic_error, when_guard) outcome)"
      using 7(4) v by (auto split: list.splits)
    from 7(2) [OF v _ True t(1) _ t(2)] shape True 7(5) ih1 t(1) show ?thesis
      by (auto simp: guard_holds_def)
  next
    case False
    then have rest: "lower_any cs (Suc i) (an @ when_any v) rn p = (Ok w :: ('n semantic_error, when_guard) outcome)"
      using 7(4) v shape by auto
    from 7(3) [OF v _ False rest] shape False 7(5) ih1 show ?thesis
      by (auto simp: guard_holds_def)
  qed
qed

section \<open>Building\<close>

lemma robot_local_topic:
  "robot_local robot_id resource = Ok t \<Longrightarrow> topic_str t = ''robot/'' @ robot_id @ ''/local/'' @ resource"
  using canonicalize_robot [of "robot_id @ ''/local/'' @ resource"]
  by (auto simp: robot_local_def topic_try_new_Ok)

lemma leaf_triggers_Ok:
  assumes "leaf_triggers w robot_id = Ok ts"
  shows "ts = map (cond_trigger robot_id) (flat_conditions w)"
proof -
  have "list_all2 (\<lambda>c t. t = cond_trigger robot_id c) (flat_conditions w) ts"
    using assms unfolding leaf_triggers_def
    by (rule traverse_list_all2) (auto simp: leaf_trigger_def cond_trigger_def robot_local_topic)
  then show ?thesis
    by (simp add: list_all2_conv_all_nth list_eq_iff_nth_eq)
qed

lemma combine_parts_Ok:
  assumes "combine_parts ps cs = Ok e" and "\<forall>p \<in> set ps \<union> set cs. expr_ok p"
  shows "expr_ok e \<and>
    (expr_holds f e \<longleftrightarrow> (\<forall>p \<in> set ps. expr_holds f p) \<and> (cs = [] \<or> (\<exists>c \<in> set cs. expr_holds f c)))"
  using assms by (auto simp: combine_parts_def split: list.splits if_splits)

lemma build_when_expr_parts:
  assumes "build_when_expr w robot_id doc rn p = (Ok e :: ('n semantic_error, when_expr) outcome)"
  obtains leaves als ans where
    "\<not> when_is_empty w"
    "find (\<lambda>d. f64_le d (Fin 0)) (when_distances w) = None"
    "find (\<lambda>z. rm_zones doc z = None) (when_zones w) = None"
    "leaf_triggers w robot_id = (Ok leaves :: ('n semantic_error, trigger list) outcome)"
    "traverse (\<lambda>idx n. build_when_expr n robot_id doc rn (child_path p ''all'' idx)) 0 (sw_all w) = Ok als"
    "traverse (\<lambda>idx n. build_when_expr n robot_id doc rn (child_path p ''any'' idx)) 0 (sw_any w) = Ok ans"
    "combine_parts (map Leaf leaves @ als) ans = (Ok e :: ('n semantic_error, when_expr) outcome)"
proof -
  from assms have "\<not> when_is_empty w" "find (\<lambda>d. f64_le d (Fin 0)) (when_distances w) = None"
    "find (\<lambda>z. rm_zones doc z = None) (when_zones w) = None"
    by (auto simp: build_when_expr.simps [of w] split: if_splits option.splits)
  with assms that show thesis
    by (auto simp: build_when_expr.simps [of w])
qed

lemma build_when_expr_Ok:
  "build_when_expr w robot_id doc rn p = Ok e \<Longrightarrow>
     expr_ok e \<and> (expr_holds f e \<longleftrightarrow> sem_holds (\<lambda>c. f (cond_trigger robot_id c)) w)"
proof (induction w robot_id doc rn p arbitrary: e rule: build_when_expr.induct)
  case (1 w robot_id doc rn p)
  let ?h = "sem_holds (\<lambda>c. f (cond_trigger robot_id c))"
  from build_when_expr_parts [OF "1.prems"] obtain leaves als ans where
    not_empty: "\<not> when_is_empty w" and
    dist: "find (\<lambda>d. f64_le d (Fin 0)) (when_distances w) = None" and
    zone: "find (\<lambda>z. rm_zones doc z = None) (when_zones w) = None" and
    leaves: "leaf_triggers w robot_id = (Ok leaves :: ('a semantic_error, trigger list) outcome)" and
    als: "traverse (\<lambda>idx n. build_when_expr n robot_id doc rn (child_path p ''all'' idx)) 0 (sw_all w) = Ok als" and
    ans: "traverse (\<lambda>idx n. build_when_expr n robot_id doc rn (child_path p ''any'' idx)) 0 (sw_any w) = Ok ans" and
    e: "combine_parts (map Leaf leaves @ als) ans = (Ok e :: ('a semantic_error, when_expr) outcome)"
    by metis
  have ih_all: "list_all2 (\<lambda>n e. expr_ok e \<and> (?h n \<longleftrightarrow> expr_holds f e)) (sw_all w) als"
    by (rule traverse_list_all2 [OF als]) (use "1.IH"(1) [OF not_empty dist zone leaves] in blast)
  have ih_any: "list_all2 (\<lambda>n e. expr_ok e \<and> (?h n \<longleftrightarrow> expr_holds f e)) (sw_any w) ans"
    by (rule traverse_list_all2 [OF ans]) (use "1.IH"(2) [OF not_empty dist zone leaves als] in blast)
  have ok: "\<forall>x \<in> set (map Leaf leaves @ als) \<union> set ans. expr_ok x"
    using ih_all ih_any by (auto simp: list_all2_conv_all_nth in_set_conv_nth)
  have "(\<forall>n \<in> set (sw_all w). ?h n) \<longleftrightarrow> (\<forall>x \<in> set als. expr_holds f x)"
    by (rule list_all2_ball_iff) (use ih_all in \<open>rule list_all2_mono; blast\<close>)
  moreover have "(\<exists>n \<in> set (sw_any w). ?h n) \<longleftrightarrow> (\<exists>x \<in> set ans. expr_holds f x)"
    by (rule list_all2_bex_iff) (use ih_any in \<open>rule list_all2_mono; blast\<close>)
  moreover have "sw_any w = [] \<longleftrightarrow> ans = []"
    using list_all2_lengthD [OF ih_any] by auto
  moreover have "(\<forall>x \<in> set (map Leaf leaves). expr_holds f x) \<longleftrightarrow>
      (\<forall>c \<in> set (flat_conditions w). f (cond_trigger robot_id c))"
    by (simp add: leaf_triggers_Ok [OF leaves])
  ultimately have "?h w \<longleftrightarrow> (\<forall>x \<in> set (map Leaf leaves). expr_holds f x) \<and>
      (\<forall>x \<in> set als. expr_holds f x) \<and> (ans = [] \<or> (\<exists>x \<in> set ans. expr_holds f x))"
    by (subst sem_holds.simps) presburger
  with combine_parts_Ok [OF e ok, of f] show ?case
    by (simp only: set_append ball_Un conj_assoc simp_thms)
qed

section \<open>Where the triggers of a guard come from\<close>

fun expr_triggers :: "when_expr \<Rightarrow> trigger set" where
  "expr_triggers (Leaf t) = {t}"
| "expr_triggers (All es) = (\<Union>e \<in> set es. expr_triggers e)"
| "expr_triggers (Any es) = (\<Union>e \<in> set es. expr_triggers e)"

function sem_conditions :: "semantic_when \<Rightarrow> (string \<times> predicate \<times> eval_mode) set" where
  "sem_conditions w = set (flat_conditions w) \<union> (\<Union>n \<in> set (sw_all w). sem_conditions n)
     \<union> (\<Union>n \<in> set (sw_any w). sem_conditions n)"
  by pat_completeness auto

termination sem_conditions
  by (relation "measure size") (simp_all add: semantic_when_size)

declare sem_conditions.simps [simp del]

lemma lower_triggers:
  "lower e rn p = (Ok w :: ('n semantic_error, when_guard) outcome) \<Longrightarrow>
     set (guard_triggers w) = expr_triggers e"
  "lower_all cs i al an rn p = (Ok w :: ('n semantic_error, when_guard) outcome) \<Longrightarrow>
     set (guard_triggers w) = set al \<union> set an \<union> (\<Union>c \<in> set cs. expr_triggers c)"
  "lower_any cs i an rn p = (Ok w :: ('n semantic_error, when_guard) outcome) \<Longrightarrow>
     set (guard_triggers w) = set an \<union> (\<Union>c \<in> set cs. expr_triggers c)"
proof (induction e rn p and cs i al an rn p and cs i an rn p arbitrary: w and w and w
    rule: lower_lower_all_lower_any.induct [where 'n = 'n])
  case (5 c cs i al an rn p)
  from 5(4) obtain v where v: "lower c rn (child_path p ''all'' i) = (Ok v :: ('n semantic_error, when_guard) outcome)"
    and rest: "(if when_any v \<noteq> [] then lower_all cs (Suc i) (al @ when_all v) (when_any v) rn p
      else lower_all cs (Suc i) (al @ when_all v) an rn p) = (Ok w :: ('n semantic_error, when_guard) outcome)"
    and one: "when_any v = [] \<or> an = []"
    by (auto split: if_splits)
  show ?case
  proof (cases "when_any v = []")
    case True
    then show ?thesis using 5(1) [OF v] 5(3) [OF v] rest by auto
  next
    case False
    then show ?thesis using 5(1) [OF v] 5(2) [OF v] rest one by auto
  qed
next
  case (7 c cs i an rn p)
  from 7(4) obtain v where v: "lower c rn (child_path p ''any'' i) = (Ok v :: ('n semantic_error, when_guard) outcome)"
    and shape: "when_all v = [] \<or> when_any v = []"
    by (auto split: if_splits)
  show ?case
  proof (cases "when_any v = []")
    case True
    with 7(4) v obtain t where t: "when_all v = [t]"
      "lower_any cs (Suc i) (an @ [t]) rn p = (Ok w :: ('n semantic_error, when_guard) outcome)"
      by (auto split: list.splits)
    show ?thesis using 7(1) [OF v] 7(2) [OF v _ True t(1) _ t(2)] True t(1) by auto
  next
    case False
    with 7(4) v shape have rest: "lower_any cs (Suc i) (an @ when_any v) rn p =
      (Ok w :: ('n semantic_error, when_guard) outcome)" by auto
    show ?thesis using 7(1) [OF v] 7(3) [OF v _ False rest] shape False by auto
  qed
qed auto

lemma combine_parts_triggers:
  "combine_parts ps cs = Ok e \<Longrightarrow> expr_triggers e = (\<Union>p \<in> set ps \<union> set cs. expr_triggers p)"
  by (auto simp: combine_parts_def split: list.splits if_splits)

lemma build_when_expr_triggers:
  "build_when_expr w robot_id doc rn p = Ok e \<Longrightarrow> expr_triggers e \<subseteq> cond_trigger robot_id ` sem_conditions w"
proof (induction w robot_id doc rn p arbitrary: e rule: build_when_expr.induct)
  case (1 w robot_id doc rn p)
  from build_when_expr_parts [OF "1.prems"] obtain leaves als ans where
    not_empty: "\<not> when_is_empty w" and
    dist: "find (\<lambda>d. f64_le d (Fin 0)) (when_distances w) = None" and
    zone: "find (\<lambda>z. rm_zones doc z = None) (when_zones w) = None" and
    leaves: "leaf_triggers w robot_id = (Ok leaves :: ('a semantic_error, trigger list) outcome)" and
    als: "traverse (\<lambda>idx n. build_when_expr n robot_id doc rn (child_path p ''all'' idx)) 0 (sw_all w) = Ok als" and
    ans: "traverse (\<lambda>idx n. build_when_expr n robot_id doc rn (child_path p ''any'' idx)) 0 (sw_any w) = Ok ans" and
    e: "combine_parts (map Leaf leaves @ als) ans = (Ok e :: ('a semantic_error, when_expr) outcome)"
    by metis
  have all: "list_all2 (\<lambda>n e. expr_triggers e \<subseteq> cond_trigger robot_id ` sem_conditions n) (sw_all w) als"
    by (rule traverse_list_all2 [OF als]) (use "1.IH"(1) [OF not_empty dist zone leaves] in blast)
  have any: "list_all2 (\<lambda>n e. expr_triggers e \<subseteq> cond_trigger robot_id ` sem_conditions n) (sw_any w) ans"
    by (rule traverse_list_all2 [OF ans]) (use "1.IH"(2) [OF not_empty dist zone leaves als] in blast)
  have nested: "(\<Union>x \<in> set ys. expr_triggers x) \<subseteq> (\<Union>n \<in> set xs. cond_trigger robot_id ` sem_conditions n)"
    if "list_all2 (\<lambda>n e. expr_triggers e \<subseteq> cond_trigger robot_id ` sem_conditions n) xs ys" for xs ys
    using that by (induction xs ys rule: list_all2_induct) auto
  have "expr_triggers e = cond_trigger robot_id ` set (flat_conditions w)
      \<union> (\<Union>x \<in> set als. expr_triggers x) \<union> (\<Union>x \<in> set ans. expr_triggers x)"
    by (simp add: combine_parts_triggers [OF e] leaf_triggers_Ok [OF leaves] UNION_singleton_eq_range
        UN_Un image_image)
  also have "\<dots> \<subseteq> cond_trigger robot_id ` set (flat_conditions w)
      \<union> (\<Union>n \<in> set (sw_all w). cond_trigger robot_id ` sem_conditions n)
      \<union> (\<Union>n \<in> set (sw_any w). cond_trigger robot_id ` sem_conditions n)"
    by (intro Un_mono nested all any) simp
  also have "\<dots> = cond_trigger robot_id ` sem_conditions w"
    by (simp only: sem_conditions.simps [of w] image_Un image_UN)
  finally show ?case .
qed

section \<open>No panic\<close>

lemma flat_conditions_resource: "c \<in> set (flat_conditions w) \<Longrightarrow> fst c \<in> {''zone'', ''human_present'', ''proximity'', ''role''}"
  by (auto simp: flat_conditions_def flatten_options_def map_filter_def split: if_splits)

lemma sem_conditions_resource:
  "c \<in> sem_conditions w \<Longrightarrow> fst c \<in> {''zone'', ''human_present'', ''proximity'', ''role''}"
proof (induction w rule: sem_conditions.induct)
  case (1 w)
  then show ?case
    using flat_conditions_resource [of c w] by (auto simp: sem_conditions.simps [of w])
qed

lemma flat_conditions_empty:
  "flat_conditions w = [] \<longleftrightarrow> in_zone w = None \<and> not_in_zone w = None \<and> near_human w = None
     \<and> not_near_human w = None \<and> near w = None \<and> role w = None"
  by (auto simp: flat_conditions_def flatten_options_def map_filter_def split: if_splits)

lemma leaf_triggers_no_panic:
  assumes "CHR ''/'' \<notin> set robot_id"
  shows "leaf_triggers w robot_id \<noteq> (Panic :: ('n semantic_error, trigger list) outcome)"
proof
  assume "leaf_triggers w robot_id = (Panic :: ('n semantic_error, trigger list) outcome)"
  then obtain c where "c \<in> set (flat_conditions w)"
    "leaf_trigger robot_id (fst c) (fst (snd c)) (snd (snd c)) = (Panic :: ('n semantic_error, trigger) outcome)"
    unfolding leaf_triggers_def by (force dest: traverse_Panic simp: case_prod_beta)
  with flat_conditions_resource [of c w] assms show False
    by (auto simp: leaf_trigger_def)
qed

lemma combine_parts_no_panic: "ps \<noteq> [] \<or> cs \<noteq> [] \<Longrightarrow> combine_parts ps cs \<noteq> Panic"
  by (auto simp: combine_parts_def split: list.split)

lemma build_when_expr_no_panic:
  "CHR ''/'' \<notin> set robot_id \<Longrightarrow> build_when_expr w robot_id doc rn p \<noteq> Panic"
proof (induction w robot_id doc rn p rule: build_when_expr.induct)
  case (1 w robot_id doc rn p)
  show ?case
  proof
    assume *: "build_when_expr w robot_id doc rn p = Panic"
    then have not_empty: "\<not> when_is_empty w"
      and dist: "find (\<lambda>d. f64_le d (Fin 0)) (when_distances w) = None"
      and zone: "find (\<lambda>z. rm_zones doc z = None) (when_zones w) = None"
      by (auto simp: build_when_expr.simps [of w] split: if_splits option.splits)
    obtain leaves where leaves: "leaf_triggers w robot_id = (Ok leaves :: ('a semantic_error, trigger list) outcome)"
      using * not_empty dist zone leaf_triggers_no_panic [OF "1.prems", where 'n = 'a, of w]
      by (auto simp: build_when_expr.simps [of w] bind_out_Panic)
    have "traverse (\<lambda>idx n. build_when_expr n robot_id doc rn (child_path p ''all'' idx)) 0 (sw_all w) \<noteq> Panic"
      using "1.IH"(1) [OF not_empty dist zone leaves] "1.prems" by (auto dest!: traverse_Panic)
    moreover have "traverse (\<lambda>idx n. build_when_expr n robot_id doc rn (child_path p ''any'' idx)) 0 (sw_any w) \<noteq> Panic"
      if "traverse (\<lambda>idx n. build_when_expr n robot_id doc rn (child_path p ''all'' idx)) 0 (sw_all w) = Ok als" for als
      using "1.IH"(2) [OF not_empty dist zone leaves that] "1.prems" by (auto dest!: traverse_Panic)
    moreover have "combine_parts (map Leaf leaves @ als) ans \<noteq> (Panic :: ('a semantic_error, when_expr) outcome)"
      if "length als = length (sw_all w)" "length ans = length (sw_any w)" for als ans
      using that not_empty leaf_triggers_Ok [OF leaves]
      by (intro combine_parts_no_panic) (auto simp: when_is_empty_def flat_conditions_empty)
    ultimately show False
      using * not_empty dist zone leaves
      by (auto simp: build_when_expr.simps [of w] bind_out_Panic dest: traverse_Ok_length)
  qed
qed

lemma lower_no_panic:
  "lower e rn p \<noteq> (Panic :: ('n semantic_error, when_guard) outcome)"
  "lower_all cs i al an rn p \<noteq> (Panic :: ('n semantic_error, when_guard) outcome)"
  "lower_any cs i an rn p \<noteq> (Panic :: ('n semantic_error, when_guard) outcome)"
  by (induction e rn p and cs i al an rn p and cs i an rn p
      rule: lower_lower_all_lower_any.induct [where 'n = 'n])
    (auto simp: bind_out_Panic split: list.splits if_splits)

lemma try_from_action_no_panic: "try_from_action a rn \<noteq> Panic"
  by (auto simp: try_from_action_def verb_count_def split: option.split)

lemma compile_action_no_panic:
  "CHR ''/'' \<notin> set robot_id \<Longrightarrow> compile_action L robot_id rn i j a \<noteq> Panic"
  by (auto simp: compile_action_def compile_action_from_spec_def bind_out_Panic try_from_action_no_panic
      stop_cmd_Ok robot_local_Ok split: action_spec.splits)

end
