(* ===== verification/Compiler.thy ===== *)
theory Compiler
  imports Semantic_Meaning
begin

text \<open>
  What \<open>compile\<close> and \<open>compile_ruleset\<close> of \<open>src/semantic.rs\<close> guarantee about the ruleset they return:
  each rule means what its author wrote, its topics are valid, and bad documents are rejected
  with an error and never with a panic.
\<close>

section \<open>Taking a successful compilation apart\<close>

lemma compile_Ok:
  "compile L doc robot_id = Ok rls \<longleftrightarrow>
     validate doc = Ok () \<and> site_id (rm_site doc) \<noteq> [] \<and>
     traverse (compile_rule L doc robot_id) 0 (rm_rules doc) = Ok (rules_list rls)"
  by (cases rls) (auto simp: compile_def)

lemma compile_length:
  "compile L doc robot_id = Ok rls \<Longrightarrow> length (rules_list rls) = length (rm_rules doc)"
  by (auto simp: compile_Ok dest: traverse_Ok_length)

lemma compile_rule_Ok:
  "compile_rule L doc robot_id i r = Ok q \<longleftrightarrow>
     (\<exists>expr. build_when_expr (sr_when r) robot_id doc (sr_name r) (when_path i) = Ok expr \<and>
        lower expr (sr_name r) (when_path i) = (Ok (rule_when q) :: ('n semantic_error, when_guard) outcome)) \<and>
     traverse (compile_action L robot_id (sr_name r) i) 0 (sr_actions r) = Ok (rule_actions q) \<and>
     rule_name q = sr_name r"
  for q :: "'n rule"
  by (cases q) (auto simp: compile_rule_def)

lemma compile_nth:
  assumes "compile L doc robot_id = Ok rls" and "i < length (rm_rules doc)"
  shows "compile_rule L doc robot_id i (rm_rules doc ! i) = Ok (rules_list rls ! i)"
proof -
  have "traverse (compile_rule L doc robot_id) 0 (rm_rules doc) = Ok (rules_list rls)"
    using assms by (simp add: compile_Ok)
  from traverse_Ok_nth [OF this assms(2)] show ?thesis by simp
qed

lemma compile_member:
  assumes "compile L doc robot_id = Ok rls" and "q \<in> set (rules_list rls)"
  obtains i where "i < length (rm_rules doc)" "q = rules_list rls ! i"
    "compile_rule L doc robot_id i (rm_rules doc ! i) = Ok q"
  using assms compile_nth [OF assms(1)] compile_length [OF assms(1)]
  by (metis in_set_conv_nth)

lemma compile_rule_guard:
  assumes "compile_rule L doc robot_id i r = Ok q"
  shows "guard_triggers (rule_when q) \<noteq> []
    \<and> (guard_holds f (rule_when q) \<longleftrightarrow> sem_holds (\<lambda>c. f (cond_trigger robot_id c)) (sr_when r))
    \<and> set (guard_triggers (rule_when q)) \<subseteq> cond_trigger robot_id ` sem_conditions (sr_when r)"
proof -
  from assms obtain expr where
    e: "build_when_expr (sr_when r) robot_id doc (sr_name r) (when_path i) = Ok expr" and
    l: "lower expr (sr_name r) (when_path i) = (Ok (rule_when q) :: ('a semantic_error, when_guard) outcome)"
    by (auto simp: compile_rule_Ok)
  from lower_correct(1) [OF l] build_when_expr_Ok [OF e] lower_triggers(1) [OF l]
    build_when_expr_triggers [OF e]
  show ?thesis by metis
qed

section \<open>Examples used as witnesses\<close>

definition demo_action :: "f64 semantic_action" where
  "demo_action = \<lparr>sa_estop = True, sa_slow_to = None, sa_resume = False, sa_topic = None,
     sa_payload = None, sa_qos = BestEffort\<rparr>"

definition demo_when :: "f64 \<Rightarrow> semantic_when" where
  "demo_when d = SemanticWhen None None (Some d) None None None [] []"

definition demo_doc :: "f64 \<Rightarrow> f64 rules_manifest" where
  "demo_doc d = \<lparr>rm_site = \<lparr>site_id = ''cell-7'', site_frame = []\<rparr>, rm_zones = Map.empty,
     rm_rules = [\<lparr>sr_name = ''slow'', sr_when = demo_when d, sr_actions = [demo_action]\<rparr>]\<rparr>"

definition demo_rules :: "f64 \<Rightarrow> f64 rules" where
  "demo_rules d = \<lparr>rules_list = [\<lparr>rule_name = ''slow'',
     rule_when = \<lparr>when_all = [cond_trigger ''7'' (''human_present'',
        Comparison Lt (OPrim HumanPresence) (OFloat d), Level)], when_any = []\<rparr>,
     rule_actions = [\<lparr>act_topic = ''stop/fleet/cmd'', act_qos = Reliable,
        act_payload = JObject [(''stop'', JBool True)]\<rparr>]\<rparr>]\<rparr>"

lemma demo_compiles:
  "\<not> f64_le d (Fin 0) \<Longrightarrow> compile f64_serde (demo_doc d) ''7'' = Ok (demo_rules d)"
  by (simp add: compile_def validate_def validate_rule_def demo_doc_def demo_when_def demo_action_def
      demo_rules_def compile_rule_def compile_action_def compile_action_from_spec_def try_from_action_def
      verb_count_def build_when_expr.simps when_is_empty_def when_distances_def when_zones_def
      flatten_options_def map_filter_def leaf_triggers_def flat_conditions_def leaf_trigger_def
      combine_parts_def cond_trigger_def stop_cmd_Ok)

section \<open>Properties\<close>

text \<open>
  C3: the compiler preserves meaning. If \<open>compile\<close> succeeds, there is one runtime rule per authored
  rule, in order and with its name, and for every way of deciding the triggers the runtime guard
  (\<open>all\<close> and one of \<open>any\<close>) holds exactly when the authored guard holds: every flat condition, every
  nested \<open>all\<close>, and some \<open>any\<close>, to any depth. No compiled guard is empty.
\<close>

theorem compile_preserves_meaning:
  assumes "compile L doc robot_id = Ok rls"
  shows "length (rules_list rls) = length (rm_rules doc) \<and>
    (\<forall>i < length (rm_rules doc). \<forall>f.
       let q = rules_list rls ! i; r = rm_rules doc ! i in
         rule_name q = sr_name r \<and> guard_triggers (rule_when q) \<noteq> [] \<and>
         (guard_holds f (rule_when q) \<longleftrightarrow> sem_holds (\<lambda>c. f (cond_trigger robot_id c)) (sr_when r)))"
proof (intro conjI allI impI)
  show "length (rules_list rls) = length (rm_rules doc)" using assms by (rule compile_length)
  fix i f assume "i < length (rm_rules doc)"
  from compile_nth [OF assms this] show
    "let q = rules_list rls ! i; r = rm_rules doc ! i in
       rule_name q = sr_name r \<and> guard_triggers (rule_when q) \<noteq> [] \<and>
       (guard_holds f (rule_when q) \<longleftrightarrow> sem_holds (\<lambda>c. f (cond_trigger robot_id c)) (sr_when r))"
    using compile_rule_guard [of L doc robot_id i "rm_rules doc ! i" "rules_list rls ! i" f]
    by (simp add: Let_def compile_rule_Ok)
qed

theorem compile_preserves_meaning_witness:
  "guard_holds (\<lambda>t. tr_mode t = Level) (rule_when (rules_list (demo_rules (Fin 1)) ! 0)) \<longleftrightarrow>
     sem_holds (\<lambda>c. tr_mode (cond_trigger ''7'' c) = Level) (demo_when (Fin 1))"
proof -
  have "\<not> f64_le (Fin 1) (Fin 0)" by code_simp
  from compile_preserves_meaning [OF demo_compiles [OF this]] show ?thesis
    by (auto simp: demo_doc_def Let_def)
qed

lemma validate_no_panic: "validate doc \<noteq> Panic"
proof
  assume "validate doc = Panic"
  then obtain k where "validate_rule doc k (rm_rules doc ! k) = Panic"
    by (auto simp: validate_def bind_out_Panic dest!: traverse_Panic)
  then show False
    by (auto simp: validate_rule_def bind_out_Panic build_when_expr_no_panic try_from_action_no_panic
        dest!: traverse_Panic)
qed

text \<open>
  C21: the compiler returns. For a robot id without a slash, compiling any document gives a ruleset
  or an error; none of the \<open>expect\<close> and \<open>unreachable!\<close> calls on the way is reached.
\<close>

theorem compile_never_panics:
  assumes "CHR ''/'' \<notin> set robot_id"
  shows "compile L doc robot_id \<noteq> Panic"
proof
  assume "compile L doc robot_id = Panic"
  then obtain k where "compile_rule L doc robot_id k (rm_rules doc ! k) = Panic"
    by (auto simp: compile_def bind_out_Panic validate_no_panic split: if_splits dest!: traverse_Panic)
  then show False
    using assms
    by (auto simp: compile_rule_def bind_out_Panic build_when_expr_no_panic lower_no_panic
        compile_action_no_panic dest!: traverse_Panic)
qed

theorem compile_never_panics_witness: "compile f64_serde (demo_doc NaN) ''7'' \<noteq> Panic"
  by (rule compile_never_panics) simp

lemma topic_try_new_again: "topic_try_new s = Ok t \<Longrightarrow> topic_try_new (topic_str t) = Ok (Topic (topic_str t))"
  using topic_v.accepted_again [of s t] by (cases t) simp

lemma compile_action_topic:
  assumes "compile_action L robot_id rn i j a = Ok act"
  shows "topic_try_new (act_topic act) = Ok (Topic (act_topic act))"
proof -
  from assms obtain spec where "compile_action_from_spec L spec a robot_id = Ok act"
    by (auto simp: compile_action_def)
  then obtain s t where "topic_try_new s = Ok t" "act_topic act = topic_str t"
    by (cases spec) (auto simp: compile_action_from_spec_def stop_cmd_def robot_local_def)
  then show ?thesis using topic_try_new_again by simp
qed

lemma compile_rule_actions:
  assumes "compile_rule L doc robot_id i r = Ok q" and "act \<in> set (rule_actions q)"
  obtains j where "j < length (sr_actions r)"
    "compile_action L robot_id (sr_name r) i j (sr_actions r ! j) = Ok act"
  using assms traverse_Ok_set [of "compile_action L robot_id (sr_name r) i" 0 "sr_actions r" "rule_actions q" act]
  by (auto simp: compile_rule_Ok)

lemma compile_action_nth:
  assumes "compile L doc robot_id = Ok rls" and "i < length (rm_rules doc)"
    and "r = rm_rules doc ! i" and "j < length (sr_actions r)"
  obtains spec where "try_from_action (sr_actions r ! j) (sr_name r) = Ok spec"
    and "compile_action_from_spec L spec (sr_actions r ! j) robot_id = Ok (rule_actions (rules_list rls ! i) ! j)"
    and "j < length (rule_actions (rules_list rls ! i))" and "i < length (rules_list rls)"
proof -
  have acts: "traverse (compile_action L robot_id (sr_name r) i) 0 (sr_actions r) = Ok (rule_actions (rules_list rls ! i))"
    using compile_nth [OF assms(1,2)] assms(3) by (simp add: compile_rule_Ok)
  from traverse_Ok_nth [OF acts assms(4)] traverse_Ok_length [OF acts] compile_length [OF assms(1)] show ?thesis
    using assms(2,4) by (auto simp: compile_action_def intro: that)
qed

definition subscribable :: "string \<Rightarrow> bool" where
  "subscribable topic \<longleftrightarrow>
     topic_try_new topic = Ok (Topic topic) \<and> pattern_try_new topic = Ok (Pattern topic)"

definition plain_id :: "string \<Rightarrow> bool" where
  "plain_id r \<longleftrightarrow> CHR ''/'' \<notin> set r \<and> r \<notin> {[], ''*'', ''**''}"

lemma cond_trigger_subscribable:
  assumes "plain_id robot_id" and "c \<in> sem_conditions w"
  shows "subscribable (tr_topic (cond_trigger robot_id c))"
proof -
  have c: "fst c \<in> {''zone'', ''human_present'', ''proximity'', ''role''}"
    using assms(2) by (rule sem_conditions_resource)
  then have res: "plain_id (fst c)" by (auto simp: plain_id_def)
  have "pattern_try_new (''robot/'' @ robot_id @ ''/local/'' @ fst c) =
      Ok (Pattern (''robot/'' @ robot_id @ ''/local/'' @ fst c))"
    using assms(1) res by (intro robot_local_pattern) (auto simp: plain_id_def)
  moreover have "topic_try_new (''robot/'' @ robot_id @ ''/local/'' @ fst c) =
      Ok (Topic (''robot/'' @ robot_id @ ''/local/'' @ fst c))"
    using assms(1) res robot_local_Ok [of robot_id "fst c"]
    by (simp add: plain_id_def robot_local_def)
  ultimately show ?thesis
    unfolding subscribable_def cond_trigger_def by simp
qed

text \<open>
  C22: everything a compiled ruleset publishes or subscribes to has a valid name. Every action topic
  is a canonical topic that \<open>Topic::try_new\<close> accepts unchanged, so the engine never drops an action
  for its topic; and for a robot id that is neither empty nor a wildcard, every trigger topic is a
  canonical topic and a pattern that \<open>Pattern::try_new\<close> accepts unchanged, so the engine can
  subscribe to it.
\<close>

theorem compiled_topics_valid:
  assumes "compile L doc robot_id = Ok rls" and "q \<in> set (rules_list rls)"
  shows "(\<forall>act \<in> set (rule_actions q). topic_try_new (act_topic act) = Ok (Topic (act_topic act)))
    \<and> (plain_id robot_id \<longrightarrow> (\<forall>t \<in> set (guard_triggers (rule_when q)). subscribable (tr_topic t)))"
proof -
  obtain i where i: "compile_rule L doc robot_id i (rm_rules doc ! i) = Ok q"
    using compile_member [OF assms] by blast
  have "topic_try_new (act_topic act) = Ok (Topic (act_topic act))" if "act \<in> set (rule_actions q)" for act
    using compile_rule_actions [OF i that] compile_action_topic by metis
  moreover have "subscribable (tr_topic t)"
    if "plain_id robot_id" "t \<in> set (guard_triggers (rule_when q))" for t
    using compile_rule_guard [OF i] cond_trigger_subscribable [OF that(1)] that(2) by blast
  ultimately show ?thesis by blast
qed

theorem compiled_topics_valid_witness:
  "subscribable ''robot/7/local/human_present''"
proof -
  have "\<not> f64_le (Fin 1) (Fin 0)" by code_simp
  from compiled_topics_valid [OF demo_compiles [OF this]] show ?thesis
    by (simp add: demo_rules_def cond_trigger_def plain_id_def)
qed

lemma try_from_action_one_verb: "try_from_action a rn = Ok spec \<Longrightarrow> verb_count a = 1"
  by (auto simp: try_from_action_def split: if_splits)

lemma try_from_action_estop: "try_from_action a rn = Ok spec \<Longrightarrow> sa_estop a \<Longrightarrow> spec = Estop"
  by (auto simp: try_from_action_def split: if_splits option.splits)

text \<open>
  C25: an emergency stop always compiles to a reliable publication of \<open>{"stop": true}\<close> on
  \<open>stop/fleet/cmd\<close>, whatever quality of service the author asked for, and a rule compiles only if
  each of its actions has exactly one verb.
\<close>

theorem estop_reliable:
  assumes "compile L doc robot_id = Ok rls" and "i < length (rm_rules doc)"
    and "r = rm_rules doc ! i" and "j < length (sr_actions r)"
  shows "verb_count (sr_actions r ! j) = 1 \<and>
    (sa_estop (sr_actions r ! j) \<longrightarrow>
       rule_actions (rules_list rls ! i) ! j =
         \<lparr>act_topic = ''stop/fleet/cmd'', act_qos = Reliable, act_payload = JObject [(''stop'', JBool True)]\<rparr>)"
proof -
  obtain spec where
    spec: "try_from_action (sr_actions r ! j) (sr_name r) = Ok spec"
    and act: "compile_action_from_spec L spec (sr_actions r ! j) robot_id = Ok (rule_actions (rules_list rls ! i) ! j)"
    by (rule compile_action_nth [OF assms])
  then show ?thesis
    using try_from_action_one_verb [OF spec] try_from_action_estop [OF spec] act
    by (auto simp: compile_action_from_spec_def)
qed

theorem estop_reliable_witness:
  "verb_count demo_action = 1 \<and> act_qos (rule_actions (rules_list (demo_rules (Fin 1)) ! 0) ! 0) = Reliable"
proof -
  have "\<not> f64_le (Fin 1) (Fin 0)" by code_simp
  from estop_reliable [OF demo_compiles [OF this], of 0 "rm_rules (demo_doc (Fin 1)) ! 0" 0] show ?thesis
    by (simp add: demo_doc_def demo_action_def)
qed

function sem_every :: "(semantic_when \<Rightarrow> bool) \<Rightarrow> semantic_when \<Rightarrow> bool" where
  "sem_every P w \<longleftrightarrow> P w \<and> (\<forall>n \<in> set (sw_all w) \<union> set (sw_any w). sem_every P n)"
  by pat_completeness auto

termination sem_every
  by (relation "measure (\<lambda>(_, w). size w)") (auto simp: semantic_when_size)

declare sem_every.simps [simp del]

definition guard_declared :: "'n rules_manifest \<Rightarrow> semantic_when \<Rightarrow> bool" where
  "guard_declared doc w \<longleftrightarrow>
     \<not> when_is_empty w \<and> (\<forall>z \<in> set (when_zones w). rm_zones doc z \<noteq> None)
     \<and> (\<forall>d \<in> set (when_distances w). \<not> f64_le d (Fin 0))"

lemma build_when_expr_declared:
  "build_when_expr w robot_id doc rn p = Ok e \<Longrightarrow> sem_every (guard_declared doc) w"
proof (induction w robot_id doc rn p arbitrary: e rule: build_when_expr.induct)
  case (1 w robot_id doc rn p)
  from build_when_expr_parts [OF "1.prems"] obtain leaves als ans where
    not_empty: "\<not> when_is_empty w" and
    dist: "find (\<lambda>d. f64_le d (Fin 0)) (when_distances w) = None" and
    zone: "find (\<lambda>z. rm_zones doc z = None) (when_zones w) = None" and
    leaves: "leaf_triggers w robot_id = (Ok leaves :: ('a semantic_error, trigger list) outcome)" and
    als: "traverse (\<lambda>idx n. build_when_expr n robot_id doc rn (child_path p ''all'' idx)) 0 (sw_all w) = Ok als" and
    ans: "traverse (\<lambda>idx n. build_when_expr n robot_id doc rn (child_path p ''any'' idx)) 0 (sw_any w) = Ok ans"
    by metis
  have "sem_every (guard_declared doc) n" if "n \<in> set (sw_all w)" for n
    using traverse_Ok_elem [OF als that] "1.IH"(1) [OF not_empty dist zone leaves that] by blast
  moreover have "sem_every (guard_declared doc) n" if "n \<in> set (sw_any w)" for n
    using traverse_Ok_elem [OF ans that] "1.IH"(2) [OF not_empty dist zone leaves als that] by blast
  moreover have "guard_declared doc w"
    using not_empty dist zone by (auto simp: guard_declared_def find_None_iff)
  ultimately show ?case by (subst sem_every.simps) blast
qed

text \<open>
  a compiled guard refers only to what the document declares. If \<open>compile\<close> succeeds, then in
  every guard, at every depth, each \<open>in_zone\<close> and \<open>not_in_zone\<close> names a zone of the document, no
  distance is zero or negative, and no nested guard is empty.
\<close>

theorem compiled_guards_declared:
  assumes "compile L doc robot_id = Ok rls" and "r \<in> set (rm_rules doc)"
  shows "sem_every (guard_declared doc) (sr_when r)"
proof -
  obtain i where i: "i < length (rm_rules doc)" "r = rm_rules doc ! i"
    using assms(2) by (auto simp: in_set_conv_nth)
  from compile_nth [OF assms(1) i(1)] obtain expr where
    "build_when_expr (sr_when r) robot_id doc (sr_name r) (when_path i) = Ok expr"
    by (auto simp: compile_rule_Ok i(2))
  then show ?thesis by (rule build_when_expr_declared)
qed

theorem compiled_guards_declared_witness:
  "sem_every (guard_declared (demo_doc (Fin 1))) (demo_when (Fin 1))"
proof -
  have "\<not> f64_le (Fin 1) (Fin 0)" by code_simp
  from compiled_guards_declared [OF demo_compiles [OF this]] show ?thesis
    by (simp add: demo_doc_def)
qed

text \<open>
  the envelope path adds only the name. \<open>compile_ruleset\<close> succeeds exactly when the lowercased name
  matches \<open>[a-z0-9-]{1,64}\<close> and the document it carries compiles; version, owner and rules are then
  those of the document.
\<close>

theorem compile_ruleset_envelope:
  "compile_ruleset L to_lowercase doc robot_id = Ok rs \<longleftrightarrow>
     ruleset_name rs = to_lowercase (srs_name doc) \<and> rs_version rs = srs_version doc
     \<and> robot_owner rs = srs_owner doc
     \<and> 1 \<le> length (ruleset_name rs) \<and> length (ruleset_name rs) \<le> 64
     \<and> set (ruleset_name rs) \<subseteq> {c. ruleset_name_char c}
     \<and> compile L (desugar doc) robot_id = Ok \<lparr>rules_list = rs_rules rs\<rparr>"
proof -
  have "normalize_ruleset_name to_lowercase s = (Ok n :: ('a semantic_error, string) outcome) \<longleftrightarrow>
      n = to_lowercase s \<and> 1 \<le> length n \<and> length n \<le> 64 \<and> set n \<subseteq> {c. ruleset_name_char c}" for s n
    by (auto simp: normalize_ruleset_name_def Let_def list_all_iff Suc_le_eq)
  then show ?thesis
    by (cases rs) (auto simp: compile_ruleset_def)
qed

end
