(* ===== verification/Registry.thy ===== *)
theory Registry
  imports Rules Prelude "HOL-Library.List_Lexorder" "HOL-Library.Char_ord" "HOL-Library.Multiset"
begin

text \<open>
  \<open>src/registry.rs\<close> and \<open>src/mutation.rs\<close>: the ruleset registry with its audit trail. The two SQLite
  tables are a map and a list; each statement may fail, which the argument \<open>faults\<close> decides, and a
  failed statement changes nothing. SHA-256 and the TOML writer are arguments.
\<close>

section \<open>State\<close>

datatype registry_error = DbError string | IoError string | BadName | LockError string | SerError string

datatype register_outcome = Inserted | Updated "64 word" string | RejectedConflict

record registry_row =
  row_owner :: string
  row_version :: "64 word"
  row_sha :: string

record audit_row =
  au_ts :: string
  au_name :: string
  au_owner :: string
  au_version :: "64 word"
  au_sha :: string
  au_status :: string
  au_blob :: string

record registry =
  reg_table :: "string \<rightharpoonup> registry_row"
  reg_audit :: "audit_row list"

datatype db_op = SelectRow | WriteRow | AuditRow

type_synonym faults = "db_op \<Rightarrow> registry_error option"

text \<open>The parts of \<open>sha2\<close> and \<open>toml\<close> the registry calls.\<close>

record 'n digests =
  sha256 :: "string \<Rightarrow> 8 word list"
  toml_of_ruleset :: "'n ruleset \<Rightarrow> (string, string) outcome"

definition registry_new :: registry where
  "registry_new = \<lparr>reg_table = Map.empty, reg_audit = []\<rparr>"

section \<open>Digests\<close>

definition hex_digit :: "nat \<Rightarrow> char" where
  "hex_digit n = char_of (if n < 10 then 48 + n else 87 + n)"

definition hex_byte :: "8 word \<Rightarrow> string" where
  "hex_byte b = [hex_digit (unat b div 16), hex_digit (unat b mod 16)]"

definition to_hex :: "8 word list \<Rightarrow> string" where
  "to_hex bytes = concat (map hex_byte bytes)"

definition canonical_ruleset :: "'n digests \<Rightarrow> 'n ruleset \<Rightarrow> (registry_error, string) outcome" where
  "canonical_ruleset D rs =
     map_err SerError (toml_of_ruleset D (rs\<lparr>rs_rules := sort_key rule_name (rs_rules rs)\<rparr>))"

definition ruleset_digest :: "'n digests \<Rightarrow> 'n ruleset \<Rightarrow> (registry_error, string) outcome" where
  "ruleset_digest D rs = bind_out (canonical_ruleset D rs) (\<lambda>text. Ok (to_hex (sha256 D text)))"

section \<open>Publication\<close>

definition registry_name_char :: "char \<Rightarrow> bool" where
  "registry_name_char c \<longleftrightarrow>
     (let n = (of_char c :: nat) in 97 \<le> n \<and> n \<le> 122 \<or> 48 \<le> n \<and> n \<le> 57 \<or> n = 45)"

definition valid_name :: "string \<Rightarrow> bool" where
  "valid_name name \<longleftrightarrow> \<not> (\<not> list_all registry_name_char name \<or> name = [] \<or> 64 < length name)"

definition write_audit ::
  "'n digests \<Rightarrow> faults \<Rightarrow> registry \<Rightarrow> string \<Rightarrow> 'n ruleset \<Rightarrow> 64 word \<Rightarrow> string \<Rightarrow> string
   \<Rightarrow> (registry_error, unit) outcome \<times> registry" where
  "write_audit D faults g ts rs version sha status =
     (case canonical_ruleset D rs of
        Ok blob \<Rightarrow>
          (case faults AuditRow of
             Some e \<Rightarrow> (Err e, g)
           | None \<Rightarrow>
               (Ok (), g\<lparr>reg_audit := reg_audit g @
                  [\<lparr>au_ts = ts, au_name = ruleset_name rs, au_owner = robot_owner rs, au_version = version,
                    au_sha = sha, au_status = status, au_blob = blob\<rparr>]\<rparr>))
      | Err e \<Rightarrow> (Err e, g)
      | Panic \<Rightarrow> (Panic, g))"

definition publish_ruleset ::
  "'n digests \<Rightarrow> faults \<Rightarrow> string \<Rightarrow> registry \<Rightarrow> 'n ruleset
   \<Rightarrow> (registry_error, register_outcome) outcome \<times> registry" where
  "publish_ruleset D faults ts g rs =
     (if \<not> valid_name (ruleset_name rs) then (Err BadName, g)
      else case ruleset_digest D rs of
        Err e \<Rightarrow> (Err e, g)
      | Panic \<Rightarrow> (Panic, g)
      | Ok sha \<Rightarrow>
          (case faults SelectRow of
             Some e \<Rightarrow> (Err e, g)
           | None \<Rightarrow>
          (case reg_table g (ruleset_name rs) of
             None \<Rightarrow>
               (case faults WriteRow of
                  Some e \<Rightarrow> (Err e, g)
                | None \<Rightarrow>
                    (let g' = g\<lparr>reg_table := (reg_table g)(ruleset_name rs \<mapsto>
                                 \<lparr>row_owner = robot_owner rs, row_version = 1, row_sha = sha\<rparr>)\<rparr>;
                         (res, g'') = write_audit D faults g' ts rs 1 sha ''inserted''
                     in (bind_out res (\<lambda>_. Ok Inserted), g'')))
           | Some row \<Rightarrow>
               (if row_owner row \<noteq> robot_owner rs then
                  (let (res, g') = write_audit D faults g ts rs (row_version row) sha ''rejected_conflict''
                   in (bind_out res (\<lambda>_. Ok RejectedConflict), g'))
                else if row_sha row = sha then (Ok (Updated (row_version row) sha), g)
                else
                  (case faults WriteRow of
                     Some e \<Rightarrow> (Err e, g)
                   | None \<Rightarrow>
                       (let new_ver = row_version row + 1;
                            g' = g\<lparr>reg_table := (reg_table g)(ruleset_name rs \<mapsto>
                                   \<lparr>row_owner = robot_owner rs, row_version = new_ver, row_sha = sha\<rparr>)\<rparr>;
                            (res, g'') = write_audit D faults g' ts rs new_ver sha ''updated''
                        in (bind_out res (\<lambda>_. Ok (Updated new_ver sha)), g'')))))))"

section \<open>Mutation tracking\<close>

record 'n mutated_ruleset =
  mut_ruleset :: "'n ruleset"
  mut_sha :: string

definition compute_sha :: "'n digests \<Rightarrow> string \<Rightarrow> string" where
  "compute_sha D data = to_hex (sha256 D data)"

definition mutate_ruleset :: "'n digests \<Rightarrow> 'n ruleset \<Rightarrow> ('e, 'n mutated_ruleset) outcome" where
  "mutate_ruleset D rs =
     bind_out (expect (toml_of_ruleset D rs)) (\<lambda>raw. Ok \<lparr>mut_ruleset = rs, mut_sha = compute_sha D raw\<rparr>)"

definition is_same_as_last :: "'n digests \<Rightarrow> string \<Rightarrow> string \<Rightarrow> bool" where
  "is_same_as_last D raw_toml last_sha \<longleftrightarrow> compute_sha D raw_toml = last_sha"

section \<open>Lemmas on digests\<close>

lemma hex_digit_inj: "m < 16 \<Longrightarrow> n < 16 \<Longrightarrow> hex_digit m = hex_digit n \<longleftrightarrow> m = n"
proof -
  assume "m < 16" "n < 16"
  moreover have "inj_on hex_digit {..<16}"
    by (simp add: inj_on_def lessThan_nat_numeral hex_digit_def)
  ultimately show ?thesis by (auto simp: inj_on_def)
qed

lemma hex_byte_inj [simp]: "hex_byte a = hex_byte b \<longleftrightarrow> a = b"
proof
  assume eq: "hex_byte a = hex_byte b"
  have bound: "unat x div 16 < 16" for x :: "8 word"
    using unsigned_less [of x, where ?'a = nat] by simp
  from eq have "unat a div 16 = unat b div 16" "unat a mod 16 = unat b mod 16"
    by (auto simp: hex_byte_def hex_digit_inj bound)
  then have "unat a = unat b" by (metis div_mult_mod_eq)
  then show "a = b" by (simp add: word_unat_eq_iff)
qed simp

lemma to_hex_inj: "length xs = length ys \<Longrightarrow> to_hex xs = to_hex ys \<longleftrightarrow> xs = ys"
  by (induction xs ys rule: list_induct2) (auto simp: to_hex_def hex_byte_def simp flip: hex_byte_inj)

lemma to_hex_length: "length (to_hex xs) = 2 * length xs"
  by (induction xs) (auto simp: to_hex_def hex_byte_def)

section \<open>Publishing\<close>

lemma write_audit_table [simp]: "reg_table (snd (write_audit D faults g ts rs v sha st)) = reg_table g"
  by (simp add: write_audit_def split: outcome.split option.split)

lemma write_audit_grows: "\<exists>rows. reg_audit (snd (write_audit D faults g ts rs v sha st)) = reg_audit g @ rows"
  by (simp add: write_audit_def split: outcome.split option.split)

lemma ruleset_digest_Ok:
  "ruleset_digest D rs = Ok sha \<longleftrightarrow> (\<exists>text. canonical_ruleset D rs = Ok text \<and> sha = to_hex (sha256 D text))"
  by (auto simp: ruleset_digest_def)

text \<open>The change a publication makes to the table, if any.\<close>

lemma publish_table:
  "reg_table (snd (publish_ruleset D faults ts g rs)) = reg_table g \<or>
   (\<exists>sha. ruleset_digest D rs = Ok sha \<and> valid_name (ruleset_name rs) \<and>
      reg_table (snd (publish_ruleset D faults ts g rs)) =
        (reg_table g)(ruleset_name rs \<mapsto>
           \<lparr>row_owner = robot_owner rs,
            row_version = (case reg_table g (ruleset_name rs) of None \<Rightarrow> 1 | Some row \<Rightarrow> row_version row + 1),
            row_sha = sha\<rparr>) \<and>
      (\<forall>row. reg_table g (ruleset_name rs) = Some row \<longrightarrow> row_owner row = robot_owner rs \<and> row_sha row \<noteq> sha))"
  by (simp add: publish_ruleset_def Let_def case_prod_beta split: outcome.split option.split)

text \<open>A run of publications, each with its own faults and time stamp.\<close>

definition publish_step ::
  "'n digests \<Rightarrow> registry \<Rightarrow> faults \<times> string \<times> 'n ruleset \<Rightarrow> registry" where
  "publish_step D g e = (case e of (faults, ts, rs) \<Rightarrow> snd (publish_ruleset D faults ts g rs))"

definition registry_ok :: "registry \<Rightarrow> bool" where
  "registry_ok g \<longleftrightarrow> (\<forall>name \<in> dom (reg_table g). valid_name name)"

interpretation publishing: event_machine "publish_step D" registry_ok for D :: "'n digests"
proof
  show "registry_ok (publish_step D g e)" if "registry_ok g" for g and e :: "faults \<times> string \<times> 'n ruleset"
    using that publish_table [of D "fst e" "fst (snd e)" g "snd (snd e)"]
    by (auto simp: registry_ok_def publish_step_def case_prod_beta split: if_splits)
qed

section \<open>The contract of a registry of names\<close>

text \<open>
  What the hot reload of the fleet relies on: whoever is accepted owns the name, and an owner stays. \<open>'a\<close> is
  what a publication meets besides the state, here failing statements and the clock.
\<close>

locale name_registry =
  fixes publish_name :: "'a \<Rightarrow> 's \<Rightarrow> 'p \<Rightarrow> ('e, register_outcome) outcome \<times> 's"
    and owner :: "'s \<Rightarrow> string \<Rightarrow> string option"
    and name_of owner_of :: "'p \<Rightarrow> string"
  assumes accepted: "publish_name a s p = (Ok res, s') \<Longrightarrow> res \<noteq> RejectedConflict \<Longrightarrow>
      owner s' (name_of p) = Some (owner_of p)"
    and kept: "owner s name = Some ow \<Longrightarrow> owner (snd (publish_name a s p)) name = Some ow"
begin

lemma owner_run: "owner s name = Some ow \<Longrightarrow> owner (foldl (\<lambda>s (a, p). snd (publish_name a s p)) s es) name = Some ow"
  by (induction es arbitrary: s) (auto simp: kept)

lemma conflict_refused:
  assumes "owner s (name_of p) = Some ow" and "ow \<noteq> owner_of p" and "publish_name a s p = (Ok res, s')"
  shows "res = RejectedConflict"
  using accepted [OF assms(3)] kept [OF assms(1), of a p] assms(2,3) by auto

text \<open>However many publications lie between them, two accepted ones of a name are of the same owner.\<close>

lemma accepted_agree:
  assumes "publish_name a s p = (Ok res, s1)" and "res \<noteq> RejectedConflict"
    and "publish_name b (foldl (\<lambda>s (a, p). snd (publish_name a s p)) s1 es) q = (Ok res', s2)" and "res' \<noteq> RejectedConflict"
    and "name_of q = name_of p"
  shows "owner_of q = owner_of p"
  using conflict_refused [OF _ _ assms(3), of "owner_of p"] owner_run [OF accepted [OF assms(1,2)], of es] assms(4,5) by metis

end

definition owned_by :: "string \<Rightarrow> string \<Rightarrow> registry \<Rightarrow> bool" where
  "owned_by name owner g \<longleftrightarrow> (\<exists>row. reg_table g name = Some row \<and> row_owner row = owner)"

definition row_owner_of :: "registry \<Rightarrow> string \<Rightarrow> string option" where
  "row_owner_of g name = map_option row_owner (reg_table g name)"

lemma row_owner_of_Some: "row_owner_of g name = Some owner \<longleftrightarrow> owned_by name owner g"
  by (auto simp: row_owner_of_def owned_by_def)

lemma publish_accepted:
  assumes "publish_ruleset D faults ts g rs = (Ok res, g')" and "res \<noteq> RejectedConflict"
  shows "valid_name (ruleset_name rs) \<and>
    (\<exists>row. reg_table g' (ruleset_name rs) = Some row \<and> row_owner row = robot_owner rs \<and>
       ruleset_digest D rs = Ok (row_sha row))"
  using assms
  by (auto simp: publish_ruleset_def Let_def case_prod_beta split: if_splits outcome.splits option.splits)

interpretation names: name_registry "\<lambda>(faults, ts). publish_ruleset D faults ts" row_owner_of ruleset_name robot_owner
  for D :: "'n digests"
proof
  fix a :: "faults \<times> string" and g g' res and rs :: "'n ruleset"
  assume "(case a of (faults, ts) \<Rightarrow> publish_ruleset D faults ts) g rs = (Ok res, g')" and "res \<noteq> RejectedConflict"
  then show "row_owner_of g' (ruleset_name rs) = Some (robot_owner rs)"
    using publish_accepted [of D "fst a" "snd a" g rs res g'] by (auto simp: row_owner_of_def case_prod_beta)
next
  fix a :: "faults \<times> string" and g name ow and rs :: "'n ruleset"
  assume "row_owner_of g name = Some ow"
  then show "row_owner_of (snd ((case a of (faults, ts) \<Rightarrow> publish_ruleset D faults ts) g rs)) name = Some ow"
    using publish_table [of D "fst a" "snd a" g rs] by (auto simp: row_owner_of_def case_prod_beta)
qed

lemma publishing_run:
  "foldl (publish_step D) g es = foldl (\<lambda>g (a, rs). snd ((case a of (faults, ts) \<Rightarrow> publish_ruleset D faults ts) g rs)) g
     (map (\<lambda>(faults, ts, rs). ((faults, ts), rs)) es)"
  by (induction es arbitrary: g) (auto simp: publish_step_def)

section \<open>Properties\<close>

text \<open>The ASCII codes of the letters \<open>a\<close> to \<open>z\<close>, the digits and the hyphen.\<close>

definition name_codes :: "nat set" where
  "name_codes = {of_char CHR ''a''..of_char CHR ''z''} \<union> {of_char CHR ''0''..of_char CHR ''9''} \<union> {of_char CHR ''-''}"

lemma name_char_iff: "registry_name_char c \<longleftrightarrow> of_char c \<in> name_codes"
  by (auto simp: registry_name_char_def name_codes_def Let_def)

lemma valid_name_iff: "valid_name name \<longleftrightarrow> of_char ` set name \<subseteq> name_codes \<and> length name \<in> {1..64}"
proof -
  have "name \<noteq> [] \<longleftrightarrow> 1 \<le> length name" by (cases name) auto
  then show ?thesis by (auto simp: valid_name_def list_all_iff name_char_iff image_subset_iff)
qed

text \<open>
  C11: the first owner keeps the name. From an empty registry on, once a ruleset name is registered to an
  owner, no sequence of publications, with any failing database statements, gives it to another owner, and
  whatever another owner then publishes under the name is not accepted. Every name in the registry is made
  of lower case letters, digits and hyphens, one to sixty-four of them, and a publication under any other
  name is refused.
\<close>

theorem first_owner_keeps_name:
  assumes "reg_table (foldl (publish_step D) registry_new es) name = Some row"
  shows "let g = foldl (publish_step D) registry_new (es @ later) in
    (\<exists>row'. reg_table g name = Some row' \<and> row_owner row' = row_owner row) \<and>
    (\<forall>faults ts rs res g''. ruleset_name rs = name \<and> robot_owner rs \<noteq> row_owner row \<and>
       publish_ruleset D faults ts g rs = (Ok res, g'') \<longrightarrow> res = RejectedConflict) \<and>
    (\<forall>name' \<in> dom (reg_table g). of_char ` set name' \<subseteq> name_codes \<and> length name' \<in> {1..64}) \<and>
    (\<forall>faults ts rs. \<not> of_char ` set (ruleset_name rs) \<subseteq> name_codes \<or> length (ruleset_name rs) \<notin> {1..64} \<longrightarrow>
       publish_ruleset D faults ts g rs = (Err BadName, g))"
proof -
  let ?g = "foldl (publish_step D) registry_new (es @ later)"
  have owner: "row_owner_of ?g name = Some (row_owner row)"
  proof -
    have "row_owner_of (foldl (publish_step D) g later) name = Some (row_owner row)"
      if "row_owner_of g name = Some (row_owner row)" for g
      unfolding publishing_run by (rule names.owner_run [OF that])
    then show ?thesis using assms by (simp add: row_owner_of_def)
  qed
  have "res = RejectedConflict" if "ruleset_name rs = name" "robot_owner rs \<noteq> row_owner row"
    "publish_ruleset D faults ts ?g rs = (Ok res, g'')" for faults ts rs res g''
    using names.conflict_refused [of ?g rs "row_owner row" D "(faults, ts)" res g''] owner that by simp
  moreover have "registry_ok ?g" by (rule publishing.inv_run) (simp add: registry_ok_def registry_new_def)
  moreover have "publish_ruleset D faults ts ?g rs = (Err BadName, ?g)" if "\<not> valid_name (ruleset_name rs)" for faults ts rs
    using that by (simp add: publish_ruleset_def)
  ultimately show ?thesis
    using owner unfolding Let_def row_owner_of_def registry_ok_def valid_name_iff by auto
qed

definition demo_digests :: "f64 digests" where
  "demo_digests = \<lparr>sha256 = map (\<lambda>c. of_nat (of_char c)),
     toml_of_ruleset = (\<lambda>rs. Ok (concat (map rule_name (rs_rules rs))))\<rparr>"

definition demo_ruleset :: "string \<Rightarrow> string list \<Rightarrow> f64 ruleset" where
  "demo_ruleset owner names = \<lparr>ruleset_name = ''acme'', rs_version = 1, robot_owner = owner,
     rs_rules = map (\<lambda>n. \<lparr>rule_name = n, rule_when = when_default, rule_actions = []\<rparr>) names\<rparr>"

theorem first_owner_keeps_name_witness:
  "\<exists>row. reg_table (foldl (publish_step demo_digests) registry_new
      ([(\<lambda>_. None, ''0'', demo_ruleset ''robot/7'' [''a''])] @ [(\<lambda>_. None, ''1'', demo_ruleset ''robot/8'' [''b''])])) ''acme'' = Some row \<and>
     row_owner row = ''robot/7''"
proof -
  have valid: "valid_name ''acme''" by code_simp
  obtain row where row: "reg_table (foldl (publish_step demo_digests) registry_new
      [(\<lambda>_. None, ''0'', demo_ruleset ''robot/7'' [''a''])]) ''acme'' = Some row" "row_owner row = ''robot/7''"
    by (simp add: publish_step_def publish_ruleset_def demo_ruleset_def valid ruleset_digest_def canonical_ruleset_def
        demo_digests_def registry_new_def Let_def case_prod_beta)
  show ?thesis
    using first_owner_keeps_name [OF row(1), of "[(\<lambda>_. None, ''1'', demo_ruleset ''robot/8'' [''b''])]"] row(2)
    unfolding Let_def by (elim conjE exE) (rule exI, rule conjI, assumption, simp)
qed

definition audit_entry :: "string \<Rightarrow> 'n ruleset \<Rightarrow> string \<Rightarrow> string \<Rightarrow> 64 word \<Rightarrow> string \<Rightarrow> audit_row" where
  "audit_entry ts rs text sha version status =
     \<lparr>au_ts = ts, au_name = ruleset_name rs, au_owner = robot_owner rs, au_version = version,
      au_sha = sha, au_status = status, au_blob = text\<rparr>"

text \<open>
  what a publication does when the database works. A new name is inserted at version 1; another
  owner's publication is refused and only audited; the same content is acknowledged with the stored
  version and changes nothing at all; different content increments the version. Every change of the
  table is audited with its owner, version and digest.
\<close>

theorem publish_behaviour:
  assumes "valid_name (ruleset_name rs)" and "canonical_ruleset D rs = Ok text"
    and "\<And>x. faults x = None" and "sha = to_hex (sha256 D text)"
  shows "publish_ruleset D faults ts g rs =
    (let row = \<lambda>version. \<lparr>row_owner = robot_owner rs, row_version = version, row_sha = sha\<rparr>;
         entry = audit_entry ts rs text sha
     in case reg_table g (ruleset_name rs) of
       None \<Rightarrow> (Ok Inserted,
         \<lparr>reg_table = (reg_table g)(ruleset_name rs \<mapsto> row 1), reg_audit = reg_audit g @ [entry 1 ''inserted'']\<rparr>)
     | Some old \<Rightarrow>
         if row_owner old \<noteq> robot_owner rs
         then (Ok RejectedConflict, g\<lparr>reg_audit := reg_audit g @ [entry (row_version old) ''rejected_conflict'']\<rparr>)
         else if row_sha old = sha then (Ok (Updated (row_version old) sha), g)
         else (Ok (Updated (row_version old + 1) sha),
           \<lparr>reg_table = (reg_table g)(ruleset_name rs \<mapsto> row (row_version old + 1)),
            reg_audit = reg_audit g @ [entry (row_version old + 1) ''updated'']\<rparr>))"
  using assms
  by (cases g) (simp add: publish_ruleset_def ruleset_digest_def write_audit_def audit_entry_def Let_def
      split: option.split)

theorem publish_behaviour_witness:
  "fst (publish_ruleset demo_digests (\<lambda>_. None) ''0'' registry_new (demo_ruleset ''robot/7'' [''b'', ''a''])) = Ok Inserted"
proof -
  have "valid_name (ruleset_name (demo_ruleset ''robot/7'' [''b'', ''a'']))" by code_simp
  moreover have "canonical_ruleset demo_digests (demo_ruleset ''robot/7'' [''b'', ''a'']) = Ok ''ab''" by code_simp
  ultimately show ?thesis
    by (subst publish_behaviour [OF _ _ _ refl]) (simp_all add: registry_new_def Let_def)
qed

text \<open>
  the digest does not depend on the order of the rules. Two rulesets that differ only in the
  order of rules with distinct names have the same digest, so publishing the reordered one after the
  other is acknowledged without a new version and without any change of the registry.
\<close>

theorem digest_order_independent:
  assumes "mset rs1 = mset (rs_rules rs)" and "distinct (map rule_name rs1)"
  shows "ruleset_digest D (rs\<lparr>rs_rules := rs1\<rparr>) = ruleset_digest D rs
    \<and> (\<forall>row sha faults ts. reg_table g (ruleset_name rs) = Some row \<and> valid_name (ruleset_name rs)
         \<and> row_owner row = robot_owner rs \<and> ruleset_digest D rs = Ok (row_sha row) \<and> faults SelectRow = None
         \<longrightarrow> publish_ruleset D faults ts g (rs\<lparr>rs_rules := rs1\<rparr>) = (Ok (Updated (row_version row) (row_sha row)), g))"
proof -
  have "sort_key rule_name rs1 = sort_key rule_name (rs_rules rs)"
    by (rule sort_key_inj_key_eq) (use assms in \<open>simp_all add: distinct_map\<close>)
  then have "ruleset_digest D (rs\<lparr>rs_rules := rs1\<rparr>) = ruleset_digest D rs"
    by (simp add: ruleset_digest_def canonical_ruleset_def)
  then show ?thesis by (auto simp: publish_ruleset_def)
qed

theorem digest_order_independent_witness:
  "ruleset_digest demo_digests ((demo_ruleset ''o'' [''b'', ''a''])\<lparr>rs_rules := rs_rules (demo_ruleset ''o'' [''a'', ''b''])\<rparr>) =
   ruleset_digest demo_digests (demo_ruleset ''o'' [''b'', ''a''])"
  using digest_order_independent [of "rs_rules (demo_ruleset ''o'' [''a'', ''b''])" "demo_ruleset ''o'' [''b'', ''a'']"]
  by (simp add: demo_ruleset_def)

text \<open>
  a failed audit leaves a gap. If the row is written but the audit statement fails, the publisher
  gets an error; when it publishes the same ruleset again it is acknowledged, so the update is not
  lost, but the acknowledgement writes no audit row and the change stays unaudited.
\<close>

theorem failed_audit_gap:
  assumes "valid_name (ruleset_name rs)" and "ruleset_digest D rs = Ok sha"
    and "reg_table g (ruleset_name rs) = None"
    and "faults SelectRow = None" and "faults WriteRow = None" and "faults AuditRow = Some e"
    and "faults' SelectRow = None"
  shows "let (res, g1) = publish_ruleset D faults ts g rs; (res', g2) = publish_ruleset D faults' ts' g1 rs
    in res = Err e \<and> res' = Ok (Updated 1 sha) \<and> reg_audit g2 = reg_audit g
       \<and> reg_table g2 (ruleset_name rs) = Some \<lparr>row_owner = robot_owner rs, row_version = 1, row_sha = sha\<rparr>"
proof -
  obtain raw where "canonical_ruleset D rs = Ok raw" using assms(2) by (auto simp: ruleset_digest_Ok)
  with assms show ?thesis
    by (simp add: publish_ruleset_def write_audit_def Let_def)
qed

theorem failed_audit_gap_witness:
  "reg_audit (snd (publish_ruleset demo_digests (\<lambda>_. None) ''1''
     (snd (publish_ruleset demo_digests (\<lambda>x. if x = AuditRow then Some (DbError ''full'') else None) ''0''
        registry_new (demo_ruleset ''robot/7'' [''a'']))) (demo_ruleset ''robot/7'' [''a'']))) = []"
proof -
  let ?rs = "demo_ruleset ''robot/7'' [''a'']"
  have "valid_name (ruleset_name ?rs)" by code_simp
  moreover have "ruleset_digest demo_digests ?rs = Ok ''61''" by code_simp
  ultimately show ?thesis
    using failed_audit_gap [of ?rs demo_digests "''61''" registry_new
        "\<lambda>x. if x = AuditRow then Some (DbError ''full'') else None" "DbError ''full''" "\<lambda>_. None" "''0''" "''1''"]
    by (simp add: registry_new_def case_prod_beta Let_def)
qed

end
