(* ===== verification/Engine_Eval.thy ===== *)
theory Engine_Eval
  imports Rules Topic
begin

text \<open>
  The predicate evaluator of \<open>src/engine.rs\<close>: operand resolution, comparison, the recursive walk
  of a predicate tree and the matching of one trigger against one sample. The zone map is
  \<open>HashMap<String, HashSet<String>>\<close> as a map to sets; \<open>L\<close> is the \<open>serde_json\<close> parameter.
\<close>

type_synonym zones = "string \<rightharpoonup> string set"

definition EPSILON :: f64 where
  "EPSILON = round64 (1 / 1000000000)"

definition share_zone :: "zones \<Rightarrow> string \<Rightarrow> string \<Rightarrow> bool" where
  "share_zone zs robot_a robot_b =
     (case zs robot_a of
        None \<Rightarrow> False
      | Some a_zones \<Rightarrow>
          (case zs robot_b of
             None \<Rightarrow> False
           | Some b_zones \<Rightarrow> (\<exists>z \<in> a_zones. z \<in> b_zones)))"

fun values_equal :: "'n serde \<Rightarrow> 'n json \<Rightarrow> 'n json \<Rightarrow> bool" where
  "values_equal L (JNumber x) (JNumber y) =
     (case (num_as_f64 L x, num_as_f64 L y) of
        (Some xf, Some yf) \<Rightarrow> f64_lt (f64_abs (f64_sub xf yf)) EPSILON
      | _ \<Rightarrow> False)"
| "values_equal L a b = sj_eq L a b"

text \<open>\<open>str::cmp\<close>: byte-wise lexicographic.\<close>

fun str_cmp :: "string \<Rightarrow> string \<Rightarrow> ordering" where
  "str_cmp [] [] = Equal"
| "str_cmp [] (y # ys) = Less"
| "str_cmp (x # xs) [] = Greater"
| "str_cmp (x # xs) (y # ys) =
     (if (of_char x :: nat) < of_char y then Less
      else if (of_char y :: nat) < of_char x then Greater else str_cmp xs ys)"

fun bool_cmp :: "bool \<Rightarrow> bool \<Rightarrow> ordering" where
  "bool_cmp False True = Less"
| "bool_cmp True False = Greater"
| "bool_cmp _ _ = Equal"

fun json_cmp :: "'n serde \<Rightarrow> 'n json \<Rightarrow> 'n json \<Rightarrow> ordering option" where
  "json_cmp L (JNumber x) (JNumber y) =
     (case (num_as_f64 L x, num_as_f64 L y) of
        (Some xf, Some yf) \<Rightarrow> f64_partial_cmp xf yf
      | _ \<Rightarrow> None)"
| "json_cmp L (JString x) (JString y) = Some (str_cmp x y)"
| "json_cmp L (JBool x) (JBool y) = Some (bool_cmp x y)"
| "json_cmp L _ _ = None"

fun prim_field :: "primitive_ref \<Rightarrow> string" where
  "prim_field Zone = ''zone_id''"
| "prim_field Robot = ''role''"
| "prim_field HumanPresence = ''separation_distance''"
| "prim_field (Proximity _) = ''separation_distance''"
| "prim_field Site = ''site_id''"

fun resolve_operand :: "'n serde \<Rightarrow> operand \<Rightarrow> 'n json \<Rightarrow> 'n json option" where
  "resolve_operand L (OBool v) payload = Some (JBool v)"
| "resolve_operand L (OInt v) payload = Some (JNumber (num_from_i64 L v))"
| "resolve_operand L (OFloat v) payload = map_option JNumber (num_from_f64 L v)"
| "resolve_operand L (OStr v) payload = Some (JString v)"
| "resolve_operand L (OField name) payload = sj_get L payload name"
| "resolve_operand L (OPrim p) payload =
     (case p of
        Proximity entity \<Rightarrow>
          (if Option.bind (sj_get L payload ''peer_id'') (sj_as_str L) \<noteq> Some entity then None
           else sj_get L payload (prim_field p))
      | _ \<Rightarrow> sj_get L payload (prim_field p))"

fun eval_comparison :: "'n serde \<Rightarrow> op \<Rightarrow> 'n json \<Rightarrow> 'n json \<Rightarrow> zones \<Rightarrow> bool" where
  "eval_comparison L Eq l r zs = values_equal L l r"
| "eval_comparison L Ne l r zs = (\<not> values_equal L l r)"
| "eval_comparison L Lt l r zs = (json_cmp L l r = Some Less)"
| "eval_comparison L Gt l r zs = (json_cmp L l r = Some Greater)"
| "eval_comparison L Le l r zs = (json_cmp L l r = Some Less \<or> json_cmp L l r = Some Equal)"
| "eval_comparison L Ge l r zs = (json_cmp L l r = Some Greater \<or> json_cmp L l r = Some Equal)"
| "eval_comparison L SameZoneAs l r zs =
     (case (sj_as_str L l, sj_as_str L r) of
        (Some a, Some b) \<Rightarrow> share_zone zs a b
      | _ \<Rightarrow> False)"

fun eval_tree :: "'n serde \<Rightarrow> predicate \<Rightarrow> 'n json \<Rightarrow> zones \<Rightarrow> bool" where
  "eval_tree L (Comparison op lhs rhs) payload zs =
     (case (resolve_operand L lhs payload, resolve_operand L rhs payload) of
        (Some l, Some r) \<Rightarrow> eval_comparison L op l r zs
      | _ \<Rightarrow> False)"
| "eval_tree L (PAnd v) payload zs = (\<forall>p \<in> set v. eval_tree L p payload zs)"
| "eval_tree L (POr v) payload zs = (\<exists>p \<in> set v. eval_tree L p payload zs)"
| "eval_tree L (PNot b) payload zs = (\<not> eval_tree L b payload zs)"

definition eval_predicate :: "'n serde \<Rightarrow> predicate option \<Rightarrow> 'n json \<Rightarrow> zones \<Rightarrow> bool" where
  "eval_predicate L pred payload zs =
     (case pred of None \<Rightarrow> True | Some p \<Rightarrow> eval_tree L p payload zs)"

definition trigger_matches :: "'n serde \<Rightarrow> trigger \<Rightarrow> string \<Rightarrow> 'n json \<Rightarrow> zones \<Rightarrow> bool" where
  "trigger_matches L trigger topic payload zs \<longleftrightarrow>
     topic = tr_topic trigger \<and> eval_predicate L (tr_pred trigger) payload zs"

section \<open>Comparison laws\<close>

lemma str_cmp_Equal [simp]: "str_cmp x y = Equal \<longleftrightarrow> x = y"
proof (induction x y rule: str_cmp.induct)
  case (4 x xs y ys)
  show ?case
  proof (cases "x = y")
    case True
    with 4 show ?thesis by simp
  next
    case False
    then have "(of_char x :: nat) \<noteq> of_char y" by simp
    then show ?thesis using False by (auto simp: linorder_neq_iff)
  qed
qed auto

lemma str_cmp_swap: "str_cmp x y = Less \<longleftrightarrow> str_cmp y x = Greater"
  by (induction x y rule: str_cmp.induct) auto

lemma bool_cmp_swap: "bool_cmp x y = Less \<longleftrightarrow> bool_cmp y x = Greater"
  by (cases x; cases y) auto

lemma json_cmp_swap: "json_cmp L a b = Some Less \<longleftrightarrow> json_cmp L b a = Some Greater"
  by (cases a; cases b) (auto simp: str_cmp_swap bool_cmp_swap f64_partial_cmp_swap split: option.splits)

lemma json_cmp_swap_eq: "json_cmp L a b = Some Equal \<longleftrightarrow> json_cmp L b a = Some Equal"
proof -
  have "bool_cmp x y = Equal \<longleftrightarrow> bool_cmp y x = Equal" for x y by (cases x; cases y) auto
  then show ?thesis
    by (cases a; cases b) (auto simp: f64_partial_cmp_eq split: option.splits)
qed

lemma share_zone_iff:
  "share_zone zs a b \<longleftrightarrow> (\<exists>A B z. zs a = Some A \<and> zs b = Some B \<and> z \<in> A \<and> z \<in> B)"
  by (auto simp: share_zone_def split: option.splits)

lemma share_zone_sym: "share_zone zs a b \<longleftrightarrow> share_zone zs b a"
  by (auto simp: share_zone_iff)

lemma EPSILON_pos: "f64_lt (Fin 0) EPSILON"
  by code_simp

lemma EPSILON_not_NaN [simp]: "EPSILON \<noteq> NaN"
  using EPSILON_pos by (auto simp: f64_lt_def)

lemma values_equal_number_refl:
  "num_as_f64 L x = Some f \<Longrightarrow> is_finite f \<Longrightarrow> values_equal L (JNumber x) (JNumber x)"
  by (simp add: EPSILON_pos)

lemma values_equal_number_sym:
  "values_equal L (JNumber x) (JNumber y) \<longleftrightarrow> values_equal L (JNumber y) (JNumber x)"
  by (auto split: option.splits simp: f64_sub_commute_abs)

lemma values_equal_string:
  "serde_documented L \<Longrightarrow> values_equal L (JString s) (JString t) \<longleftrightarrow> s = t"
  by (simp add: serde_eq_string)

text \<open>An unresolved operand, or a pair with no order, makes every comparison but \<open>Ne\<close> false.\<close>

lemma comparison_unresolved:
  "resolve_operand L lhs p = None \<or> resolve_operand L rhs p = None \<Longrightarrow>
     \<not> eval_tree L (Comparison op lhs rhs) p zs"
  by (auto split: option.splits)

lemma comparison_unordered:
  "json_cmp L l r = None \<Longrightarrow> op \<in> {Lt, Gt, Le, Ge} \<Longrightarrow> \<not> eval_comparison L op l r zs"
  by auto

section \<open>Failing closed\<close>

fun negation_free :: "predicate \<Rightarrow> bool" where
  "negation_free (Comparison op lhs rhs) = True"
| "negation_free (PAnd v) = (\<forall>p \<in> set v. negation_free p)"
| "negation_free (POr v) = (\<forall>p \<in> set v. negation_free p)"
| "negation_free (PNot b) = False"

definition fields_lost :: "'n serde \<Rightarrow> 'n json \<Rightarrow> 'n json \<Rightarrow> bool" where
  "fields_lost L full part \<longleftrightarrow> (\<forall>f v. sj_get L part f = Some v \<longrightarrow> sj_get L full f = Some v)"

lemma resolve_operand_mono:
  "fields_lost L full part \<Longrightarrow> resolve_operand L x part = Some v \<Longrightarrow> resolve_operand L x full = Some v"
  by (cases x) (auto simp: fields_lost_def bind_eq_Some_conv split: primitive_ref.splits if_splits)

lemma eval_tree_mono:
  "fields_lost L full part \<Longrightarrow> negation_free p \<Longrightarrow> eval_tree L p part zs \<Longrightarrow> eval_tree L p full zs"
proof (induction p)
  case (Comparison op lhs rhs)
  then obtain l r where "resolve_operand L lhs part = Some l" "resolve_operand L rhs part = Some r"
    and "eval_comparison L op l r zs"
    by (auto split: option.splits)
  with Comparison.prems(1) resolve_operand_mono show ?case by fastforce
qed auto

text \<open>A predicate whose every comparison reads the payload on one side at least.\<close>

fun reads_payload :: "operand \<Rightarrow> bool" where
  "reads_payload (OField f) = True"
| "reads_payload (OPrim p) = True"
| "reads_payload _ = False"

fun grounded :: "predicate \<Rightarrow> bool" where
  "grounded (Comparison op lhs rhs) = (reads_payload lhs \<or> reads_payload rhs)"
| "grounded (PAnd v) = (v \<noteq> [] \<and> (\<forall>p \<in> set v. grounded p))"
| "grounded (POr v) = (\<forall>p \<in> set v. grounded p)"
| "grounded (PNot b) = grounded b"

lemma resolve_absent:
  "(\<And>f. sj_get L payload f = None) \<Longrightarrow> reads_payload x \<Longrightarrow> resolve_operand L x payload = None"
  by (cases x) (simp_all split: primitive_ref.split)

lemma eval_tree_absent:
  "(\<And>f. sj_get L payload f = None) \<Longrightarrow> negation_free p \<Longrightarrow> grounded p \<Longrightarrow> \<not> eval_tree L p payload zs"
proof (induction p)
  case (Comparison op lhs rhs)
  then have "resolve_operand L lhs payload = None \<or> resolve_operand L rhs payload = None"
    using resolve_absent [of L payload] by auto
  then show ?case by (rule comparison_unresolved)
next
  case (PAnd v)
  then show ?case by (cases v) auto
qed auto

section \<open>Properties\<close>

text \<open>
  C36: evaluation fails closed on negation-free predicates. Dropping fields from a payload can
  only turn the verdict from true to false, never from false to true.
\<close>

theorem missing_fields_fail_closed:
  assumes "fields_lost L full part" and "negation_free p" and "\<not> eval_tree L p full zs"
  shows "\<not> eval_tree L p part zs"
  using assms eval_tree_mono by blast

theorem missing_fields_fail_closed_witness:
  "\<not> eval_tree f64_serde (Comparison Lt (OPrim HumanPresence) (OFloat (Fin 1))) (JObject []) Map.empty"
proof (rule missing_fields_fail_closed)
  show "fields_lost f64_serde (JObject [(''separation_distance'', JNumber (Fin 2))]) (JObject [])"
    by (simp add: fields_lost_def f64_serde_def)
  show "\<not> eval_tree f64_serde (Comparison Lt (OPrim HumanPresence) (OFloat (Fin 1)))
      (JObject [(''separation_distance'', JNumber (Fin 2))]) Map.empty"
    by (simp add: f64_serde_def)
qed simp

text \<open>
  negation does not fail closed. On a payload that has none of the fields a predicate
  reads, such as one that is not an object, every negation-free predicate is false and its
  negation is therefore true: the predicate that \<open>not_in_zone\<close> compiles to holds on a sample
  that says nothing about zones.
\<close>

theorem negation_fails_open:
  assumes "serde_documented L" and "\<forall>kvs. payload \<noteq> JObject kvs"
    and "negation_free p" and "grounded p"
  shows "\<not> eval_tree L p payload zs \<and> eval_tree L (PNot p) payload zs"
  using eval_tree_absent [of L payload p] assms by (simp add: serde_get_nonobject)

theorem negation_fails_open_witness:
  "eval_tree f64_serde (PNot (Comparison Eq (OPrim Zone) (OStr ''safety''))) JNull Map.empty"
  using negation_fails_open [of f64_serde JNull "Comparison Eq (OPrim Zone) (OStr ''safety'')"]
  by simp

text \<open>
  the comparison operators on resolved values behave as an order: \<open>Lt\<close>/\<open>Gt\<close> and \<open>Le\<close>/\<open>Ge\<close> mirror
  each other, at most one of \<open>Lt\<close>, \<open>Gt\<close> holds, and where the pair has no order (different types,
  not a number) all four are false.
\<close>

theorem ordering_operators:
  "(eval_comparison L Lt a b zs \<longleftrightarrow> eval_comparison L Gt b a zs)
   \<and> (eval_comparison L Le a b zs \<longleftrightarrow> eval_comparison L Ge b a zs)
   \<and> \<not> (eval_comparison L Lt a b zs \<and> eval_comparison L Gt a b zs)
   \<and> (json_cmp L a b = None \<longleftrightarrow> \<not> eval_comparison L Le a b zs \<and> \<not> eval_comparison L Ge a b zs)"
proof -
  have "json_cmp L a b = None \<longleftrightarrow> \<not> eval_comparison L Le a b zs \<and> \<not> eval_comparison L Ge a b zs"
    by (cases "json_cmp L a b") (auto intro: ordering.exhaust)
  moreover have "\<not> (eval_comparison L Lt a b zs \<and> eval_comparison L Gt a b zs)" by simp
  moreover have "eval_comparison L Lt a b zs \<longleftrightarrow> eval_comparison L Gt b a zs"
    "eval_comparison L Le a b zs \<longleftrightarrow> eval_comparison L Ge b a zs"
    by (simp_all add: json_cmp_swap json_cmp_swap_eq)
  ultimately show ?thesis by blast
qed

end
