(* ===== verification/Config.thy ===== *)
theory Config
  imports Registry Engine_State
begin

text \<open>
  \<open>src/config.rs\<close>: the swappable active ruleset with its \<open>watch\<close> channel, the hot-reload subscriber,
  and the client and server configuration. The \<open>watch\<close> channel of tokio follows its documentation:
  \<open>send\<close> fails and leaves the value alone when there is no receiver. TOML readers are arguments, and
  a new \<open>Arc\<close> gets the address the event names.
\<close>

section \<open>The active ruleset\<close>

record 'n active_rules =
  ar_inner :: "'n rules arc"
  watch_value :: "'n rules arc"
  watch_receivers :: nat

definition ar_new :: "'n rules arc \<Rightarrow> 'n active_rules" where
  "ar_new rls = \<lparr>ar_inner = rls, watch_value = rls, watch_receivers = 0\<rparr>"

text \<open>\<open>tokio::sync::watch::Sender::send\<close>.\<close>

definition watch_send :: "'n active_rules \<Rightarrow> 'n rules arc \<Rightarrow> 'n active_rules" where
  "watch_send s rls = (if watch_receivers s = 0 then s else s\<lparr>watch_value := rls\<rparr>)"

definition current :: "'n active_rules \<Rightarrow> 'n rules arc" where
  "current s = ar_inner s"

definition swap :: "'n active_rules \<Rightarrow> 'n rules arc \<Rightarrow> 'n active_rules" where
  "swap s rls = watch_send (s\<lparr>ar_inner := rls\<rparr>) rls"

definition subscribe_rules :: "'n active_rules \<Rightarrow> 'n active_rules" where
  "subscribe_rules s = s\<lparr>watch_receivers := watch_receivers s + 1\<rparr>"

record 'n toml_readers =
  rules_from_toml :: "string \<Rightarrow> (string, 'n rules) outcome"
  ruleset_from_toml :: "string \<Rightarrow> (string, 'n ruleset) outcome"
  utf8_lossy :: "string \<Rightarrow> string" \<comment> \<open>\<open>String::from_utf8_lossy\<close>\<close>

definition bootstrap :: "'n toml_readers \<Rightarrow> nat \<Rightarrow> string \<Rightarrow> (string, 'n active_rules) outcome" where
  "bootstrap T fresh toml_text = bind_out (rules_from_toml T toml_text) (\<lambda>rls. Ok (ar_new (Arc fresh rls)))"

section \<open>Hot reload\<close>

record 'n hot_reload =
  hr_store :: "'n active_rules"
  hr_policy :: "registry option"

text \<open>One sample of the reload topic: the bytes, the faults of the database, the clock and the new address.\<close>

record reload_sample =
  rl_bytes :: string
  rl_faults :: faults
  rl_ts :: string
  rl_fresh :: nat

definition to_toml :: "'n digests \<Rightarrow> 'n ruleset \<Rightarrow> ('e, string) outcome" where
  "to_toml D rs = expect (toml_of_ruleset D rs)"

definition reload_step ::
  "'n toml_readers \<Rightarrow> 'n digests \<Rightarrow> 'n hot_reload \<Rightarrow> reload_sample \<Rightarrow> ('e, 'n hot_reload) outcome" where
  "reload_step T D h sample =
     (let payload = utf8_lossy T (rl_bytes sample)
      in case hr_policy h of
           Some g \<Rightarrow>
             (case ruleset_from_toml T payload of
                Ok rs \<Rightarrow>
                  (let (res, g') = publish_ruleset D (rl_faults sample) (rl_ts sample) g rs;
                       h' = h\<lparr>hr_policy := Some g'\<rparr>
                   in case res of
                        Ok Inserted \<Rightarrow>
                          bind_out (to_toml D rs) (\<lambda>toml_text.
                            case rules_from_toml T toml_text of
                              Ok rls \<Rightarrow> Ok (h'\<lparr>hr_store := swap (hr_store h) (Arc (rl_fresh sample) rls)\<rparr>)
                            | Err e \<Rightarrow> Ok h'
                            | Panic \<Rightarrow> Panic)
                      | Ok (Updated v sha) \<Rightarrow>
                          bind_out (to_toml D rs) (\<lambda>toml_text.
                            case rules_from_toml T toml_text of
                              Ok rls \<Rightarrow> Ok (h'\<lparr>hr_store := swap (hr_store h) (Arc (rl_fresh sample) rls)\<rparr>)
                            | Err e \<Rightarrow> Ok h'
                            | Panic \<Rightarrow> Panic)
                      | Ok RejectedConflict \<Rightarrow> Ok h'
                      | Err e \<Rightarrow> Ok h'
                      | Panic \<Rightarrow> Panic)
              | Err e \<Rightarrow> Ok h
              | Panic \<Rightarrow> Panic)
         | None \<Rightarrow>
             (case rules_from_toml T payload of
                Ok rls \<Rightarrow> Ok (h\<lparr>hr_store := swap (hr_store h) (Arc (rl_fresh sample) rls)\<rparr>)
              | Err e \<Rightarrow> Ok h
              | Panic \<Rightarrow> Panic))"

section \<open>Client and server configuration\<close>

record location_subscriptions =
  loc_x :: string
  loc_y :: string
  loc_z :: string

record zone_topics =
  zt_site_id :: string
  zone_enter :: string
  zone_exit :: string

record default_subscriptions =
  ds_location :: "location_subscriptions option"
  ds_zone :: "zone_topics option"

record publisher_config =
  pub_topic :: string
  period_ms :: "64 word"

record default_publishers =
  dp_location :: "publisher_config option"
  dp_zone :: "publisher_config option"

record client_section =
  heartbeat_interval_ms :: "64 word"

record server_section =
  endpoints :: "string list"

record client_config =
  cc_client :: client_section
  cc_server :: "server_section option"
  cc_subscriptions :: "default_subscriptions option"
  cc_publishers :: "default_publishers option"

record server_config =
  expected_clients :: "string list"

definition require :: "bool \<Rightarrow> 'e \<Rightarrow> ('e, unit) outcome" where
  "require ok e = (if ok then Ok () else Err e)"

definition validate_client :: "client_config \<Rightarrow> (string, unit) outcome" where
  "validate_client cfg =
     bind_out (ok_or (cc_subscriptions cfg) ''missing [default_subscriptions] table'') (\<lambda>subs.
     bind_out (ok_or (ds_location subs) ''missing [default_subscriptions.location] table'') (\<lambda>loc.
     bind_out (require (loc_x loc \<noteq> []) ''default_subscriptions.location.x is empty'') (\<lambda>_.
     bind_out (require (loc_y loc \<noteq> []) ''default_subscriptions.location.y is empty'') (\<lambda>_.
     bind_out (require (loc_z loc \<noteq> []) ''default_subscriptions.location.z is empty'') (\<lambda>_.
     bind_out (ok_or (ds_zone subs) ''missing [default_subscriptions.zone] table'') (\<lambda>zone.
     bind_out (require (zt_site_id zone \<noteq> []) ''default_subscriptions.zone.site_id is empty'') (\<lambda>_.
     bind_out (require (zone_enter zone \<noteq> []) ''default_subscriptions.zone.zone_enter is empty'') (\<lambda>_.
     bind_out (require (zone_exit zone \<noteq> []) ''default_subscriptions.zone.zone_exit is empty'') (\<lambda>_.
     bind_out (ok_or (cc_publishers cfg) ''missing [default_publishers] table'') (\<lambda>pubs.
     bind_out (ok_or (dp_location pubs) ''missing [default_publishers.location] table'') (\<lambda>pub_loc.
     bind_out (require (pub_topic pub_loc \<noteq> []) ''default_publishers.location.topic is empty'') (\<lambda>_.
     bind_out (ok_or (dp_zone pubs) ''missing [default_publishers.zone] table'') (\<lambda>pub_zone.
     bind_out (require (pub_topic pub_zone \<noteq> []) ''default_publishers.zone.topic is empty'') (\<lambda>_.
     Ok ()))))))))))))))"

record config_readers =
  client_from_str :: "string \<Rightarrow> (string, client_config) outcome"
  server_from_str :: "string \<Rightarrow> (string, server_config) outcome"

definition client_from_toml :: "config_readers \<Rightarrow> string \<Rightarrow> (string, client_config) outcome" where
  "client_from_toml R toml_text =
     bind_out (map_err (\<lambda>e. ''invalid client config TOML: '' @ e) (client_from_str R toml_text)) (\<lambda>cfg.
     bind_out (validate_client cfg) (\<lambda>_. Ok cfg))"

definition server_from_toml :: "config_readers \<Rightarrow> string \<Rightarrow> (string, server_config) outcome" where
  "server_from_toml R toml_text =
     (if trim toml_text = [] then Ok \<lparr>expected_clients = []\<rparr>
      else map_err (\<lambda>e. ''invalid server config TOML: '' @ e) (server_from_str R toml_text))"

section \<open>The watch channel\<close>

text \<open>
  What the engine, the reload task and their supervisor rely on: a value with readers that take it as it is
  and watchers that are told of a change, if one of them is there when it happens.
\<close>

locale watched_store =
  fixes reading watching :: "'s \<Rightarrow> 'r"
    and watchers :: "'s \<Rightarrow> nat"
    and set_to :: "'s \<Rightarrow> 'r \<Rightarrow> 's"
    and watch :: "'s \<Rightarrow> 's"
  assumes read_set: "reading (set_to s r) = r"
    and watch_set: "watching (set_to s r) = (if watchers s = 0 then watching s else r)"
    and watchers_set: "watchers (set_to s r) = watchers s"
    and read_watch: "reading (watch s) = reading s"
    and watch_watch: "watching (watch s) = watching s"
    and watchers_watch: "watchers (watch s) = Suc (watchers s)"
begin

lemmas store_laws = read_set watch_set watchers_set read_watch watch_watch watchers_watch

lemma told: "watchers s \<noteq> 0 \<Longrightarrow> watching (set_to s r) = reading (set_to s r)"
  by (simp add: store_laws)

text \<open>What is set before anybody watches is read, but no later watcher is told of it.\<close>

lemma untold: "watchers s = 0 \<Longrightarrow> reading (watch (set_to s r)) = r \<and> watching (watch (set_to s r)) = watching s"
  by (simp add: store_laws)

end

interpretation rules_store: watched_store current watch_value watch_receivers swap subscribe_rules
  by unfold_locales (simp_all add: swap_def watch_send_def current_def subscribe_rules_def)

lemmas swap_views [simp] = rules_store.store_laws

datatype 'n store_event = Swap "'n rules arc" | Subscribe

fun store_step :: "'n active_rules \<Rightarrow> 'n store_event \<Rightarrow> 'n active_rules" where
  "store_step s (Swap rls) = swap s rls"
| "store_step s Subscribe = subscribe_rules s"

definition in_sync :: "'n active_rules \<Rightarrow> bool" where
  "in_sync s \<longleftrightarrow> watch_receivers s \<noteq> 0 \<and> watch_value s = current s"

interpretation synced: event_machine store_step in_sync
proof
  show "in_sync (store_step s e)" if "in_sync s" for s :: "'n active_rules" and e
    using that by (cases e) (simp_all add: in_sync_def)
qed

text \<open>
  subscribers see the active ruleset, if they subscribed in time. As long as a receiver existed
  when the channel and the store agreed, every later sequence of swaps and subscriptions keeps
  them equal. A swap before the first subscription, however, never reaches the channel: \<open>current\<close>
  is the new ruleset while a receiver created afterwards reads the old one until the next swap.
\<close>

theorem watch_follows_store:
  assumes "in_sync s"
  shows "watch_value (foldl store_step s es) = current (foldl store_step s es)
    \<and> (\<forall>old new. let s' = subscribe_rules (swap (ar_new old) new) in
         current s' = new \<and> watch_value s' = old)"
proof -
  have "in_sync (foldl store_step s es)" using assms by (rule synced.inv_run)
  then show ?thesis
    using rules_store.untold [of "ar_new old" for old] by (simp add: in_sync_def ar_new_def)
qed

theorem watch_follows_store_witness:
  "watch_value (foldl store_step (subscribe_rules (ar_new (Arc 1 rules_default))) [Swap (Arc 2 (rules_default :: f64 rules))]) =
     Arc 2 rules_default"
  using watch_follows_store [of "subscribe_rules (ar_new (Arc 1 rules_default)) :: f64 active_rules" "[Swap (Arc 2 rules_default)]"]
  by (simp add: in_sync_def subscribe_rules_def ar_new_def swap_def watch_send_def current_def)

section \<open>Reloading\<close>

lemma reload_registry:
  fixes h h' :: "'n hot_reload"
  assumes "reload_step T D h sample = (Ok h' :: ('e, 'n hot_reload) outcome)" and "hr_policy h = Some g"
  shows "(hr_store h' = hr_store h \<and> (\<exists>g'. hr_policy h' = Some g')) \<or>
    (\<exists>rs rls g' row toml_text out. publish_ruleset D (rl_faults sample) (rl_ts sample) g rs = (Ok out, g') \<and>
       out \<noteq> RejectedConflict \<and> ruleset_from_toml T (utf8_lossy T (rl_bytes sample)) = Ok rs \<and>
       toml_of_ruleset D rs = Ok toml_text \<and> rules_from_toml T toml_text = Ok rls \<and>
       hr_store h' = swap (hr_store h) (Arc (rl_fresh sample) rls) \<and> hr_policy h' = Some g' \<and>
       valid_name (ruleset_name rs) \<and> reg_table g' (ruleset_name rs) = Some row \<and>
       row_owner row = robot_owner rs \<and> ruleset_digest D rs = Ok (row_sha row))"
proof (cases "ruleset_from_toml T (utf8_lossy T (rl_bytes sample))")
  case (Ok rs)
  obtain res g' where pub: "publish_ruleset D (rl_faults sample) (rl_ts sample) g rs = (res, g')" by fastforce
  show ?thesis
  proof (cases "\<exists>out. res = Ok out \<and> out \<noteq> RejectedConflict")
    case True
    then obtain out where out: "res = Ok out" "out \<noteq> RejectedConflict" by blast
    from publish_accepted [OF _ out(2), of D "rl_faults sample" "rl_ts sample" g rs g'] pub out(1)
    have acc: "valid_name (ruleset_name rs) \<and>
      (\<exists>row. reg_table g' (ruleset_name rs) = Some row \<and> row_owner row = robot_owner rs \<and>
         ruleset_digest D rs = Ok (row_sha row))" by simp
    have step: "bind_out (to_toml D rs) (\<lambda>toml_text.
        case rules_from_toml T toml_text of
          Ok rls \<Rightarrow> Ok (h\<lparr>hr_policy := Some g'\<rparr>\<lparr>hr_store := swap (hr_store h) (Arc (rl_fresh sample) rls)\<rparr>)
        | Err e \<Rightarrow> Ok (h\<lparr>hr_policy := Some g'\<rparr>)
        | Panic \<Rightarrow> Panic) = (Ok h' :: ('e, 'n hot_reload) outcome)"
      using assms Ok pub out by (cases out) (auto simp: reload_step_def Let_def)
    then obtain toml_text where t: "toml_of_ruleset D rs = Ok toml_text"
      by (auto simp: to_toml_def)
    show ?thesis
    proof (cases "rules_from_toml T toml_text")
      case (Ok rls)
      with step t have "h' = h\<lparr>hr_policy := Some g'\<rparr>\<lparr>hr_store := swap (hr_store h) (Arc (rl_fresh sample) rls)\<rparr>"
        by (simp add: to_toml_def)
      with acc t Ok pub out \<open>ruleset_from_toml T (utf8_lossy T (rl_bytes sample)) = outcome.Ok rs\<close> show ?thesis
        by auto
    qed (use step t in \<open>auto simp: to_toml_def\<close>)
  next
    case False
    with assms Ok pub show ?thesis
      by (auto simp: reload_step_def Let_def split: outcome.splits register_outcome.splits)
  qed
qed (use assms in \<open>auto simp: reload_step_def Let_def\<close>)

text \<open>
  C16: a fleet reload activates only what the registry holds. When the server's reload loop has
  processed a sample, the active ruleset is either untouched, or the sample is a ruleset that the
  registry accepted in this step and now records under the publisher's owner with that ruleset's digest,
  and the active ruleset is the one that this very ruleset's TOML text reads as, behind the new \<open>Arc\<close>, for the
  readers of the store and for those who watch it. A conflicting owner, a bad name, a database error or
  malformed TOML keep the last good ruleset.
\<close>

theorem reload_only_registered:
  assumes "reload_step T D h sample = Ok h'" and "hr_policy h = Some g" and "hr_store h' \<noteq> hr_store h"
  shows "\<exists>rs out row g' toml_text rls. ruleset_from_toml T (utf8_lossy T (rl_bytes sample)) = Ok rs \<and>
    publish_ruleset D (rl_faults sample) (rl_ts sample) g rs = (Ok out, g') \<and> out \<noteq> RejectedConflict \<and>
    hr_policy h' = Some g' \<and> valid_name (ruleset_name rs) \<and> reg_table g' (ruleset_name rs) = Some row \<and>
    row_owner row = robot_owner rs \<and> ruleset_digest D rs = Ok (row_sha row) \<and>
    toml_of_ruleset D rs = Ok toml_text \<and> rules_from_toml T toml_text = Ok rls \<and>
    current (hr_store h') = Arc (rl_fresh sample) rls \<and>
    (watch_receivers (hr_store h) \<noteq> 0 \<longrightarrow> watch_value (hr_store h') = Arc (rl_fresh sample) rls)"
proof -
  obtain rs out g' toml_text rls where
    step: "ruleset_from_toml T (utf8_lossy T (rl_bytes sample)) = Ok rs" "toml_of_ruleset D rs = Ok toml_text"
      "rules_from_toml T toml_text = Ok rls" "hr_store h' = swap (hr_store h) (Arc (rl_fresh sample) rls)" "hr_policy h' = Some g'"
    and pub: "publish_ruleset D (rl_faults sample) (rl_ts sample) g rs = (Ok out, g')" "out \<noteq> RejectedConflict"
    using reload_registry [OF assms(1,2)] assms(3) by blast
  with publish_accepted [OF pub] show ?thesis by (auto simp: swap_def watch_send_def current_def)
qed

definition demo_readers :: "f64 toml_readers" where
  "demo_readers = \<lparr>rules_from_toml = (\<lambda>s. if s = [] then Err ''empty'' else Ok rules_default),
     ruleset_from_toml = (\<lambda>s. if s = [] then Err ''empty'' else Ok (demo_ruleset ''robot/7'' [s])), utf8_lossy = id\<rparr>"

theorem reload_only_registered_witness:
  "\<exists>row g'. hr_policy (case reload_step demo_readers demo_digests
        \<lparr>hr_store = ar_new (Arc 1 rules_default), hr_policy = Some registry_new\<rparr>
        \<lparr>rl_bytes = ''a'', rl_faults = (\<lambda>_. None), rl_ts = ''0'', rl_fresh = 2\<rparr> of
      (Ok h :: (unit, f64 hot_reload) outcome) \<Rightarrow> h) = Some g' \<and> reg_table g' ''acme'' = Some row \<and> row_owner row = ''robot/7''"
proof -
  let ?h = "\<lparr>hr_store = ar_new (Arc 1 rules_default), hr_policy = Some registry_new\<rparr> :: f64 hot_reload"
  let ?e = "\<lparr>rl_bytes = ''a'', rl_faults = (\<lambda>_. None), rl_ts = ''0'', rl_fresh = 2\<rparr> :: reload_sample"
  have valid: "valid_name ''acme''" by code_simp
  have out: "reload_step demo_readers demo_digests ?h ?e =
      (Ok (?h\<lparr>hr_policy := Some (snd (publish_ruleset demo_digests (\<lambda>_. None) ''0'' registry_new
             (demo_ruleset ''robot/7'' [''a'']))),
           hr_store := swap (hr_store ?h) (Arc 2 rules_default)\<rparr>) :: (unit, f64 hot_reload) outcome)"
    by (simp add: reload_step_def demo_readers_def publish_ruleset_def demo_ruleset_def valid ruleset_digest_def
        canonical_ruleset_def demo_digests_def registry_new_def write_audit_def to_toml_def Let_def)
  have changed: "hr_store (?h\<lparr>hr_policy := Some (snd (publish_ruleset demo_digests (\<lambda>_. None) ''0'' registry_new
             (demo_ruleset ''robot/7'' [''a'']))),
           hr_store := swap (hr_store ?h) (Arc 2 rules_default)\<rparr>) \<noteq> hr_store ?h"
    by (simp add: swap_def watch_send_def ar_new_def)
  from reload_only_registered [OF out _ changed, of registry_new] show ?thesis
    unfolding out by (auto simp: demo_readers_def demo_ruleset_def)
qed

text \<open>
  a per-robot reload keeps the last good ruleset. A sample that is not a ruleset leaves the store
  as it was; any other sample makes exactly the ruleset it encodes the current one.
\<close>

theorem reload_keeps_last_good:
  assumes "hr_policy h = None"
  shows "reload_step T D h sample =
    (case rules_from_toml T (utf8_lossy T (rl_bytes sample)) of
       Ok rls \<Rightarrow> Ok (h\<lparr>hr_store := (hr_store h)\<lparr>ar_inner := Arc (rl_fresh sample) rls,
                watch_value := (if watch_receivers (hr_store h) = 0 then watch_value (hr_store h)
                                else Arc (rl_fresh sample) rls)\<rparr>\<rparr>)
     | Err e \<Rightarrow> Ok h
     | Panic \<Rightarrow> Panic)"
  using assms by (simp add: reload_step_def Let_def swap_def watch_send_def split: outcome.split)

theorem reload_keeps_last_good_witness:
  "(reload_step demo_readers demo_digests
      \<lparr>hr_store = ar_new (Arc 1 rules_default), hr_policy = None\<rparr>
      \<lparr>rl_bytes = [], rl_faults = (\<lambda>_. None), rl_ts = ''0'', rl_fresh = 2\<rparr> :: (unit, f64 hot_reload) outcome) =
    Ok \<lparr>hr_store = ar_new (Arc 1 rules_default), hr_policy = None\<rparr>"
  by (subst reload_keeps_last_good) (simp_all add: demo_readers_def)

text \<open>
  a client configuration is accepted exactly when it is complete: both default tables with their
  location and zone parts are present and every topic in them is non-empty.
\<close>

theorem client_config_complete:
  "validate_client cfg = Ok () \<longleftrightarrow>
     (\<exists>subs loc zone pubs pl pz.
        cc_subscriptions cfg = Some subs \<and> ds_location subs = Some loc \<and> ds_zone subs = Some zone \<and>
        cc_publishers cfg = Some pubs \<and> dp_location pubs = Some pl \<and> dp_zone pubs = Some pz \<and>
        [] \<notin> {loc_x loc, loc_y loc, loc_z loc, zt_site_id zone, zone_enter zone, zone_exit zone,
               pub_topic pl, pub_topic pz})"
proof -
  have require: "require b e = (Ok () :: (string, unit) outcome) \<longleftrightarrow> b" for b e
    by (simp add: require_def)
  show ?thesis (is "?l \<longleftrightarrow> ?r")
  proof
    show "?r" if ?l using that by (auto simp: validate_client_def require)
  next
    assume ?r
    then obtain subs loc zone pubs pl pz where
      "cc_subscriptions cfg = Some subs" "ds_location subs = Some loc" "ds_zone subs = Some zone"
      "cc_publishers cfg = Some pubs" "dp_location pubs = Some pl" "dp_zone pubs = Some pz"
      "loc_x loc \<noteq> []" "loc_y loc \<noteq> []" "loc_z loc \<noteq> []" "zt_site_id zone \<noteq> []"
      "zone_enter zone \<noteq> []" "zone_exit zone \<noteq> []" "pub_topic pl \<noteq> []" "pub_topic pz \<noteq> []"
      by auto
    then show ?l by (simp add: validate_client_def require)
  qed
qed

end
