(* ===== verification/Lease.thy ===== *)
theory Lease
  imports Config
begin

text \<open>
  \<open>src/registration/lease.rs\<close>: the client registry of the server. Every operation takes the write lock
  for its whole body, so an operation is one step. The specification is a machine per robot
  (\<open>robot_next\<close>); the lease simulates the product of these machines.
\<close>

section \<open>State and operations\<close>

datatype client_state = Unknown | Expected | Registered | Poisoned

record client_entry =
  ce_state :: client_state
  ce_config :: "client_config option"

record lease =
  clients :: "string \<rightharpoonup> client_entry"
  lease_config :: server_config

datatype registration_error =
    AlreadyRegistered | PoisonedError | NotRegistered | Timeout | ServerError string

definition lease_new :: "server_config \<Rightarrow> lease" where
  "lease_new config =
     \<lparr>clients = fold (\<lambda>robot_id m. m(robot_id \<mapsto> \<lparr>ce_state = Expected, ce_config = None\<rparr>))
                 (expected_clients config) Map.empty,
      lease_config = config\<rparr>"

definition register :: "lease \<Rightarrow> string \<Rightarrow> client_config \<Rightarrow> (registration_error, unit) outcome \<times> lease" where
  "register l robot_id config =
     (case map_option ce_state (clients l robot_id) of
        Some Poisoned \<Rightarrow> (Err PoisonedError, l)
      | Some Registered \<Rightarrow> (Err AlreadyRegistered, l)
      | _ \<Rightarrow> (Ok (), l\<lparr>clients := (clients l)(robot_id \<mapsto> \<lparr>ce_state = Registered, ce_config = Some config\<rparr>)\<rparr>))"

definition deregister :: "lease \<Rightarrow> string \<Rightarrow> (registration_error, unit) outcome \<times> lease" where
  "deregister l robot_id =
     (case map_option ce_state (clients l robot_id) of
        Some Registered \<Rightarrow> (Ok (), l\<lparr>clients := (clients l)(robot_id := None)\<rparr>)
      | Some Poisoned \<Rightarrow> (Err PoisonedError, l)
      | _ \<Rightarrow> (Err NotRegistered, l))"

definition poison :: "lease \<Rightarrow> string \<Rightarrow> lease" where
  "poison l robot_id = l\<lparr>clients := (clients l)(robot_id \<mapsto> \<lparr>ce_state = Poisoned, ce_config = None\<rparr>)\<rparr>"

definition on_liveliness_delete :: "lease \<Rightarrow> string \<Rightarrow> bool \<times> lease" where
  "on_liveliness_delete l robot_id =
     (case map_option ce_state (clients l robot_id) of
        Some Registered \<Rightarrow>
          (True, l\<lparr>clients := (clients l)(robot_id \<mapsto> \<lparr>ce_state = Poisoned, ce_config = None\<rparr>)\<rparr>)
      | _ \<Rightarrow> (False, l))"

definition client_state_of :: "lease \<Rightarrow> string \<Rightarrow> client_state" where
  "client_state_of l robot_id = (case clients l robot_id of Some e \<Rightarrow> ce_state e | None \<Rightarrow> Unknown)"

section \<open>Runs and the per-robot machine\<close>

datatype lease_event =
    Register string client_config
  | Deregister string
  | Poison string
  | LivelinessDelete string

fun lease_step :: "lease \<Rightarrow> lease_event \<Rightarrow> lease" where
  "lease_step l (Register r c) = snd (register l r c)"
| "lease_step l (Deregister r) = snd (deregister l r)"
| "lease_step l (Poison r) = poison l r"
| "lease_step l (LivelinessDelete r) = snd (on_liveliness_delete l r)"

fun event_robot :: "lease_event \<Rightarrow> string" where
  "event_robot (Register r c) = r"
| "event_robot (Deregister r) = r"
| "event_robot (Poison r) = r"
| "event_robot (LivelinessDelete r) = r"

fun robot_next :: "client_state \<Rightarrow> lease_event \<Rightarrow> client_state" where
  "robot_next Poisoned e = Poisoned"
| "robot_next s (Register r c) = Registered"
| "robot_next Registered (Deregister r) = Unknown"
| "robot_next s (Deregister r) = s"
| "robot_next s (Poison r) = Poisoned"
| "robot_next Registered (LivelinessDelete r) = Poisoned"
| "robot_next s (LivelinessDelete r) = s"

definition robots_next :: "(string \<Rightarrow> client_state) \<Rightarrow> lease_event \<Rightarrow> (string \<Rightarrow> client_state)" where
  "robots_next f e = f(event_robot e := robot_next (f (event_robot e)) e)"

definition entry_ok :: "client_entry \<Rightarrow> bool" where
  "entry_ok e \<longleftrightarrow> ce_state e \<noteq> Unknown \<and> (ce_config e \<noteq> None \<longleftrightarrow> ce_state e = Registered)"

definition lease_ok :: "lease \<Rightarrow> bool" where
  "lease_ok l \<longleftrightarrow> (\<forall>r e. clients l r = Some e \<longrightarrow> entry_ok e)"

lemmas lease_ops = register_def deregister_def poison_def on_liveliness_delete_def

lemma lease_ok_step: "lease_ok l \<Longrightarrow> lease_ok (lease_step l e)"
  by (cases e) (auto simp: lease_ok_def lease_ops entry_ok_def split: option.splits client_state.splits if_splits)

lemma robot_next_poison [simp]: "robot_next s (Poison r) = Poisoned"
  by (cases s) auto

lemma lease_sim_step: "client_state_of (lease_step l e) = robots_next (client_state_of l) e"
  by (cases e; rule ext)
    (auto simp: robots_next_def client_state_of_def lease_ops split: option.split client_state.split)

lemma poisoned_step: "client_state_of l r = Poisoned \<Longrightarrow> client_state_of (lease_step l e) r = Poisoned"
  by (subst lease_sim_step) (auto simp: robots_next_def)

interpretation lease: simulation lease_step lease_ok robots_next client_state_of
  by unfold_locales (auto simp: lease_ok_step lease_sim_step)

section \<open>The contract of a client registry\<close>

text \<open>What the handlers of the registration protocol rely on: how each operation changes the entries, and when it succeeds.\<close>

definition entry_state :: "(string \<rightharpoonup> client_entry) \<Rightarrow> string \<Rightarrow> client_state" where
  "entry_state m r = (case m r of Some e \<Rightarrow> ce_state e | None \<Rightarrow> Unknown)"

locale client_registry =
  fixes entries :: "'s \<Rightarrow> string \<rightharpoonup> client_entry"
    and admit :: "'s \<Rightarrow> string \<Rightarrow> client_config \<Rightarrow> (registration_error, unit) outcome \<times> 's"
    and release :: "'s \<Rightarrow> string \<Rightarrow> (registration_error, unit) outcome \<times> 's"
    and lose :: "'s \<Rightarrow> string \<Rightarrow> bool \<times> 's"
  assumes admitted: "fst (admit s r c) = Ok () \<longleftrightarrow> entry_state (entries s) r \<notin> {Registered, Poisoned}"
    and admit_entries: "entries (snd (admit s r c)) =
      (if fst (admit s r c) = Ok () then (entries s)(r \<mapsto> \<lparr>ce_state = Registered, ce_config = Some c\<rparr>) else entries s)"
    and released: "fst (release s r) = Ok () \<longleftrightarrow> entry_state (entries s) r = Registered"
    and release_entries: "entries (snd (release s r)) = (if fst (release s r) = Ok () then (entries s)(r := None) else entries s)"
    and lost: "fst (lose s r) \<longleftrightarrow> entry_state (entries s) r = Registered"
    and lose_entries: "entries (snd (lose s r)) =
      (if fst (lose s r) then (entries s)(r \<mapsto> \<lparr>ce_state = Poisoned, ce_config = None\<rparr>) else entries s)"
begin

lemmas registry_laws = admitted admit_entries released release_entries lost lose_entries

lemma poisoned_stays:
  assumes "entry_state (entries s) q = Poisoned"
  shows "entry_state (entries (snd (admit s r c))) q = Poisoned"
    and "entry_state (entries (snd (release s r))) q = Poisoned"
    and "entry_state (entries (snd (lose s r))) q = Poisoned"
  using assms by (auto simp: registry_laws entry_state_def)

end

interpretation leases: client_registry clients register deregister on_liveliness_delete
  by unfold_locales (auto simp: register_def deregister_def on_liveliness_delete_def entry_state_def
      split: option.split client_state.split)

lemma client_state_of_entries: "client_state_of l = entry_state (clients l)"
  by (simp add: fun_eq_iff client_state_of_def entry_state_def)

lemma lease_new_entry:
  "clients (lease_new config) r =
     (if r \<in> set (expected_clients config) then Some \<lparr>ce_state = Expected, ce_config = None\<rparr> else None)"
proof -
  have "fold (\<lambda>robot_id m. m(robot_id \<mapsto> \<lparr>ce_state = Expected, ce_config = None\<rparr>)) ids m r =
      (if r \<in> set ids then Some \<lparr>ce_state = Expected, ce_config = None\<rparr> else m r)" for ids m
    by (induction ids arbitrary: m) auto
  then show ?thesis by (simp add: lease_new_def)
qed

lemma lease_new_ok: "lease_ok (lease_new config)"
  by (simp add: lease_ok_def lease_new_entry entry_ok_def)

lemma robots_run:
  "foldl robots_next f es r = foldl robot_next (f r) (filter (\<lambda>e. event_robot e = r) es)"
  by (induction es arbitrary: f) (auto simp: robots_next_def)

section \<open>Properties\<close>

text \<open>
  C6: the lease refines one small machine per robot. After any sequence of registrations,
  deregistrations and liveliness losses of all robots, a robot's state is the one its own machine
  reaches on its own events, starting from expected or unknown as configured; no robot can change
  the state of another, and a configuration is stored exactly for the registered ones.
\<close>

theorem lease_refines_robot_machines:
  "let l = foldl lease_step (lease_new config) es in
     client_state_of l r =
       foldl robot_next (if r \<in> set (expected_clients config) then Expected else Unknown)
         (filter (\<lambda>e. event_robot e = r) es)
     \<and> ((\<exists>entry. clients l r = Some entry \<and> ce_config entry \<noteq> None) \<longleftrightarrow> client_state_of l r = Registered)"
proof -
  let ?l = "foldl lease_step (lease_new config) es"
  have start: "client_state_of (lease_new config) r =
      (if r \<in> set (expected_clients config) then Expected else Unknown)"
    by (simp add: client_state_of_def lease_new_entry)
  have "client_state_of ?l = foldl robots_next (client_state_of (lease_new config)) es"
    by (rule lease.sim_run) (rule lease_new_ok)
  then have "client_state_of ?l r = foldl robot_next (client_state_of (lease_new config) r)
      (filter (\<lambda>e. event_robot e = r) es)" by (simp add: robots_run)
  moreover have "lease_ok ?l" by (rule lease.inv_run) (rule lease_new_ok)
  then have "(\<exists>entry. clients ?l r = Some entry \<and> ce_config entry \<noteq> None) \<longleftrightarrow> client_state_of ?l r = Registered"
    by (auto simp: lease_ok_def entry_ok_def client_state_of_def split: option.splits)
  ultimately show ?thesis by (simp add: Let_def start)
qed

text \<open>
  poison is final. A robot that lost its liveliness token while registered stays poisoned under
  every later sequence of events, and every attempt to register or deregister it is refused as
  poisoned.
\<close>

theorem poison_is_final:
  assumes "client_state_of l r = Poisoned"
  shows "let l' = foldl lease_step l es in
    client_state_of l' r = Poisoned \<and> fst (register l' r c) = Err PoisonedError
    \<and> fst (deregister l' r) = Err PoisonedError"
proof -
  have final: "client_state_of (foldl lease_step l es) r = Poisoned"
    using assms by (induction es arbitrary: l) (auto simp: poisoned_step)
  then obtain e where "clients (foldl lease_step l es) r = Some e" "ce_state e = Poisoned"
    by (auto simp: client_state_of_def split: option.splits)
  with final show ?thesis by (simp add: Let_def register_def deregister_def)
qed

definition demo_config :: client_config where
  "demo_config = \<lparr>cc_client = \<lparr>heartbeat_interval_ms = 1000\<rparr>, cc_server = None, cc_subscriptions = None,
     cc_publishers = None\<rparr>"

theorem poison_is_final_witness:
  "fst (register (foldl lease_step (poison (lease_new \<lparr>expected_clients = []\<rparr>) ''7'') [Deregister ''7'']) ''7'' demo_config) =
     Err PoisonedError"
proof -
  have "client_state_of (poison (lease_new \<lparr>expected_clients = []\<rparr>) ''7'') ''7'' = Poisoned"
    by (simp add: client_state_of_def poison_def)
  from poison_is_final [OF this, of "[Deregister ''7'']" demo_config] show ?thesis by (simp add: Let_def)
qed

fun alerts :: "lease \<Rightarrow> lease_event list \<Rightarrow> string list" where
  "alerts l [] = []"
| "alerts l (e # es) =
     (case e of LivelinessDelete r \<Rightarrow> (if fst (on_liveliness_delete l r) then [r] else []) | _ \<Rightarrow> [])
     @ alerts (lease_step l e) es"

lemma alert_iff_registered: "fst (on_liveliness_delete l r) \<longleftrightarrow> client_state_of l r = Registered"
  by (auto simp: on_liveliness_delete_def client_state_of_def split: option.split client_state.split)

lemma no_alert_when_poisoned:
  "client_state_of l r = Poisoned \<Longrightarrow> r \<notin> set (alerts l es)"
proof (induction es arbitrary: l)
  case (Cons e es)
  have "client_state_of (lease_step l e) r = Poisoned"
    using Cons.prems by (rule poisoned_step)
  with Cons show ?case by (auto simp: alert_iff_registered split: lease_event.splits)
qed simp

text \<open>
  one alert per robot. In any run of the lease, the liveliness monitor's poisoning succeeds for a
  given robot at most once, and exactly when the robot was registered at that moment.
\<close>

theorem one_alert_per_robot:
  "count_list (alerts l es) r \<le> 1 \<and> (fst (on_liveliness_delete l r) \<longleftrightarrow> client_state_of l r = Registered)"
proof -
  have "count_list (alerts l es) r \<le> 1"
  proof (induction es arbitrary: l)
    case (Cons e es)
    show ?case
    proof (cases "e = LivelinessDelete r \<and> client_state_of l r = Registered")
      case True
      then have "client_state_of (lease_step l e) r = Poisoned"
        by (subst lease_sim_step) (simp add: robots_next_def)
      then have "count_list (alerts (lease_step l e) es) r = 0"
        using no_alert_when_poisoned by (simp add: count_list_0_iff)
      with True show ?thesis by (simp add: alert_iff_registered)
    next
      case False
      then have "count_list (alerts l (e # es)) r = count_list (alerts (lease_step l e) es) r"
        by (auto simp: alert_iff_registered split: lease_event.split)
      with Cons.IH show ?thesis by simp
    qed
  qed simp
  then show ?thesis by (simp add: alert_iff_registered)
qed

end
