(* ===== verification/Transport.thy ===== *)
theory Transport
  imports Rules Topic
begin

text \<open>
  \<open>src/transport.rs\<close>: the one adapter to the mesh. Zenoh is a parameter, the record \<open>zenoh\<close>, that
  says which requests the session accepts; what the program asks of it is data: a \<open>put\<close> with its
  quality-of-service knobs, a subscription on the data or the liveliness side, and the list of
  configuration writes. \<open>serde_json\<close> serialisation is part of the parameter.
\<close>

section \<open>Requests to zenoh\<close>

datatype reliability = RelReliable | RelBestEffort
datatype congestion_control = Block | Drop
datatype priority = InteractiveHigh | DataLow

record put =
  put_key :: string
  put_bytes :: string
  put_qos :: "(reliability \<times> congestion_control \<times> priority) option" \<comment> \<open>\<open>None\<close>: session defaults\<close>

datatype subscription = LivelinessSub string | DataSub string

record 'n zenoh =
  z_to_vec :: "'n json \<Rightarrow> string option" \<comment> \<open>\<open>serde_json::to_vec\<close>\<close>
  z_put :: "put \<Rightarrow> bool"
  z_declare :: "subscription \<Rightarrow> bool"
  z_token :: "string \<Rightarrow> bool" \<comment> \<open>declaring a liveliness token\<close>
  z_endpoints_json :: "string list \<Rightarrow> string option" \<comment> \<open>\<open>serde_json::to_string\<close>\<close>
  z_accepts :: "string \<Rightarrow> string \<Rightarrow> bool" \<comment> \<open>\<open>Config::insert_json5\<close> is \<open>Ok\<close> for this key and value\<close>

datatype 'n envelope = ActionEnv qos "'n json" | Signal "'n json" | RawBytes string

datatype transport_error = SerializeFailed | PutFailed | DeclareFailed | TokenFailed | SessionFailed

section \<open>The verbs\<close>

fun qos_knobs :: "qos \<Rightarrow> reliability \<times> congestion_control \<times> priority" where
  "qos_knobs Reliable = (RelReliable, Block, InteractiveHigh)"
| "qos_knobs BestEffort = (RelBestEffort, Drop, DataLow)"

definition send_put :: "'n zenoh \<Rightarrow> put \<Rightarrow> (transport_error, unit) outcome \<times> put list" where
  "send_put Z p = (if z_put Z p then Ok () else Err PutFailed, [p])"

text \<open>The result of \<open>publish\<close> and the puts it issued.\<close>

definition publish ::
  "'n zenoh \<Rightarrow> topic \<Rightarrow> 'n envelope \<Rightarrow> (transport_error, unit) outcome \<times> put list" where
  "publish Z topic envelope =
     (case envelope of
        ActionEnv qos payload \<Rightarrow>
          (case z_to_vec Z payload of
             None \<Rightarrow> (Err SerializeFailed, [])
           | Some bytes \<Rightarrow>
               send_put Z \<lparr>put_key = topic_str topic, put_bytes = bytes, put_qos = Some (qos_knobs qos)\<rparr>)
      | Signal payload \<Rightarrow>
          (case z_to_vec Z payload of
             None \<Rightarrow> (Err SerializeFailed, [])
           | Some bytes \<Rightarrow>
               send_put Z \<lparr>put_key = topic_str topic, put_bytes = bytes, put_qos = None\<rparr>)
      | RawBytes bytes \<Rightarrow>
          send_put Z \<lparr>put_key = topic_str topic, put_bytes = bytes, put_qos = None\<rparr>)"

definition subscription_for :: "string \<Rightarrow> subscription" where
  "subscription_for key =
     (if sublist ''liveliness'' key then LivelinessSub key else DataSub key)"

definition subscribe :: "'n zenoh \<Rightarrow> pattern \<Rightarrow> (transport_error, subscription) outcome" where
  "subscribe Z pattern =
     (let sub = subscription_for (pattern_str pattern)
      in if z_declare Z sub then Ok sub else Err DeclareFailed)"

text \<open>The tokens a transport holds; \<open>liveliness_key\<close> may panic.\<close>

definition declare_liveliness ::
  "'n zenoh \<Rightarrow> string list \<Rightarrow> string \<Rightarrow> (transport_error, unit) outcome \<times> string list" where
  "declare_liveliness Z tokens robot_id =
     (case liveliness_key robot_id of
        Ok key \<Rightarrow>
          if z_token Z (topic_str key) then (Ok (), tokens @ [topic_str key]) else (Err TokenFailed, tokens)
      | Err e \<Rightarrow> (Err e, tokens)
      | Panic \<Rightarrow> (Panic, tokens))"

section \<open>Session configuration\<close>

text \<open>
  A \<open>zenoh::Config\<close> as the \<open>insert_json5\<close> writes that zenoh took, in order, over its defaults. Every caller
  discards the result of \<open>insert_json5\<close>, so a write that zenoh refuses is skipped without a trace.
  \<open>config_value\<close> is the last write of a key, \<open>None\<close> if the default is in force.
\<close>

type_synonym config = "(string \<times> string) list"

definition json_quote :: "string \<Rightarrow> string" where
  "json_quote s = CHR 0x22 # s @ [CHR 0x22]"

definition insert_json5 :: "'n zenoh \<Rightarrow> config \<Rightarrow> string \<Rightarrow> string \<Rightarrow> config" where
  "insert_json5 Z c key v = (if z_accepts Z key v then c @ [(key, v)] else c)"

definition config_value :: "config \<Rightarrow> string \<Rightarrow> string option" where
  "config_value c key = map_of (rev c) key"

definition router_config :: "'n zenoh \<Rightarrow> config" where
  "router_config Z =
     insert_json5 Z (insert_json5 Z (insert_json5 Z []
       ''mode'' (json_quote ''router''))
       ''scouting/multicast/enabled'' ''true'')
       ''listen/endpoints'' (''['' @ json_quote ''tcp/127.0.0.1:0'' @ '']'')"

definition endpoints_json :: "'n zenoh \<Rightarrow> string list \<Rightarrow> string" where
  "endpoints_json Z endpoints = (case z_endpoints_json Z endpoints of Some j \<Rightarrow> j | None \<Rightarrow> ''[]'')"

definition client_config :: "'n zenoh \<Rightarrow> string list \<Rightarrow> config" where
  "client_config Z endpoints =
     (let c = insert_json5 Z (insert_json5 Z [] ''mode'' (json_quote ''client''))
                ''scouting/multicast/enabled'' ''false''
      in if endpoints \<noteq> [] then insert_json5 Z c ''connect/endpoints'' (endpoints_json Z endpoints) else c)"

definition with_endpoints :: "'n zenoh \<Rightarrow> config \<Rightarrow> string list \<Rightarrow> config" where
  "with_endpoints Z config endpoints =
     (let c = insert_json5 Z config ''mode'' (json_quote ''client'');
          c' = (if endpoints \<noteq> [] then insert_json5 Z c ''connect/endpoints'' (endpoints_json Z endpoints) else c)
      in insert_json5 Z c' ''scouting/multicast/enabled'' ''false'')"

text \<open>The configurations for tests.\<close>

definition local_endpoint :: "16 word \<Rightarrow> string" where
  "local_endpoint port = ''['' @ json_quote (''tcp/127.0.0.1:'' @ show_nat (unat port)) @ '']''"

definition test_router_config :: "'n zenoh \<Rightarrow> 16 word \<Rightarrow> config" where
  "test_router_config Z port =
     insert_json5 Z (insert_json5 Z (insert_json5 Z (insert_json5 Z []
       ''mode'' (json_quote ''router''))
       ''scouting/multicast/enabled'' ''false'')
       ''scouting/gossip/enabled'' ''false'')
       ''listen/endpoints'' (local_endpoint port)"

definition test_client_config :: "'n zenoh \<Rightarrow> 16 word \<Rightarrow> config" where
  "test_client_config Z port =
     insert_json5 Z (insert_json5 Z (insert_json5 Z []
       ''mode'' (json_quote ''client''))
       ''scouting/multicast/enabled'' ''false'')
       ''connect/endpoints'' (local_endpoint port)"

section \<open>Handles\<close>

text \<open>
  A \<open>Transport\<close>: the number of its shared session and the liveliness tokens it holds. \<open>open_session\<close>
  is \<open>zenoh::open\<close>, which gives a new session or fails.
\<close>

record transport =
  tp_session :: nat
  tp_tokens :: "string list"

definition from_session :: "nat \<Rightarrow> transport" where
  "from_session session = \<lparr>tp_session = session, tp_tokens = []\<rparr>"

definition from_arc_session :: "nat \<Rightarrow> transport" where
  "from_arc_session session = \<lparr>tp_session = session, tp_tokens = []\<rparr>"

definition session_arc :: "transport \<Rightarrow> nat" where
  "session_arc t = tp_session t"

definition open_with :: "(config \<Rightarrow> nat option) \<Rightarrow> config \<Rightarrow> (transport_error, transport) outcome" where
  "open_with open_session config = bind_out (ok_or (open_session config) SessionFailed) (\<lambda>session. Ok (from_session session))"

definition open_router :: "(config \<Rightarrow> nat option) \<Rightarrow> 'n zenoh \<Rightarrow> (transport_error, transport) outcome" where
  "open_router open_session Z = open_with open_session (router_config Z)"

definition connect_to :: "(config \<Rightarrow> nat option) \<Rightarrow> 'n zenoh \<Rightarrow> string list \<Rightarrow> (transport_error, transport) outcome" where
  "connect_to open_session Z endpoints = open_with open_session (client_config Z endpoints)"

text \<open>The legacy names of the configurations, and the sessions of the tests.\<close>

definition loopback_config :: "'n zenoh \<Rightarrow> config" where
  "loopback_config Z = router_config Z"

definition connect_config :: "'n zenoh \<Rightarrow> string list \<Rightarrow> config" where
  "connect_config Z endpoints = client_config Z endpoints"

definition open_test_router :: "(config \<Rightarrow> nat option) \<Rightarrow> 'n zenoh \<Rightarrow> 16 word \<Rightarrow> (transport_error, transport) outcome" where
  "open_test_router open_session Z port = open_with open_session (test_router_config Z port)"

definition open_test_client :: "(config \<Rightarrow> nat option) \<Rightarrow> 'n zenoh \<Rightarrow> 16 word \<Rightarrow> (transport_error, transport) outcome" where
  "open_test_client open_session Z port = open_with open_session (test_client_config Z port)"

definition declare_token :: "'n zenoh \<Rightarrow> transport \<Rightarrow> string \<Rightarrow> (transport_error, unit) outcome \<times> transport" where
  "declare_token Z t robot_id =
     (let (res, tokens) = declare_liveliness Z (tp_tokens t) robot_id in (res, t\<lparr>tp_tokens := tokens\<rparr>))"

section \<open>Lemmas\<close>

lemma publish_puts:
  "p \<in> set (snd (publish Z t env)) \<Longrightarrow> put_key p = topic_str t"
  by (auto simp: publish_def send_put_def split: envelope.splits option.splits)

lemma publish_action_qos:
  "p \<in> set (snd (publish Z t (ActionEnv q payload))) \<Longrightarrow> put_qos p = Some (qos_knobs q)"
  by (auto simp: publish_def send_put_def split: option.splits)

lemma publish_action_bytes:
  "p \<in> set (snd (publish Z t (ActionEnv q payload))) \<Longrightarrow> z_to_vec Z payload = Some (put_bytes p)"
  by (auto simp: publish_def send_put_def split: option.splits if_splits)

lemma publish_no_panic [simp]: "fst (publish Z t env) \<noteq> Panic"
  by (auto simp: publish_def send_put_def split: envelope.split option.split)

lemma config_value_insert:
  "config_value (insert_json5 Z c k v) k' = (if k' = k \<and> z_accepts Z k v then Some v else config_value c k')"
  by (simp add: config_value_def insert_json5_def)

lemma subscribe_Ok: "subscribe Z p = Ok sub \<longleftrightarrow>
    sub = subscription_for (pattern_str p) \<and> z_declare Z sub"
  by (auto simp: subscribe_def Let_def)

section \<open>Properties\<close>

text \<open>
  a client never scouts. Whatever configuration it starts from, the session that connects to
  given endpoints is in client mode with multicast scouting off, and connects to exactly the given
  endpoints when there are any, if zenoh takes these settings.
\<close>

theorem client_sessions_isolated:
  assumes "\<And>key v. key \<in> {''mode'', ''scouting/multicast/enabled'', ''connect/endpoints''} \<Longrightarrow> z_accepts Z key v"
  shows "let c = with_endpoints Z base endpoints in
     config_value c ''mode'' = Some (json_quote ''client'') \<and>
     config_value c ''scouting/multicast/enabled'' = Some ''false'' \<and>
     config_value c ''connect/endpoints'' =
       (if endpoints = [] then config_value base ''connect/endpoints'' else Some (endpoints_json Z endpoints))"
  using assms by (simp add: with_endpoints_def Let_def config_value_insert)

end
