(* ===== verification/Registration.thy ===== *)
theory Registration
  imports Lease Transport
begin

text \<open>
  \<open>src/registration/transport.rs\<close>: the registration protocol over the mesh. A handler is a step per
  sample; the task that runs it dies when a topic builder panics. The client's two requests are
  functions of what the response subscription delivers. \<open>serde_json\<close> encoding and decoding of the
  envelopes is the parameter \<open>wire\<close>.
\<close>

section \<open>Envelopes\<close>

datatype registration_request = RegisterReq string client_config | DeregisterReq string

datatype registration_status =
    Ack | RejectAlreadyRegistered | RejectPoisoned | RejectServerError string | Ignore | MissingRobotId
  | PoisonedStatus

record 'n wire =
  request_value :: "registration_request \<Rightarrow> 'n json option"
  response_value :: "registration_status \<Rightarrow> 'n json option"
  request_of :: "string \<Rightarrow> registration_request option"
  response_of :: "string \<Rightarrow> registration_status option"

definition publish_response ::
  "'n zenoh \<Rightarrow> 'n wire \<Rightarrow> topic \<Rightarrow> registration_status \<Rightarrow> (registration_error, unit) outcome \<times> put list" where
  "publish_response Z W t status =
     (case response_value W status of
        None \<Rightarrow> (Err (ServerError ''failed to serialize response''), [])
      | Some payload \<Rightarrow>
          (let (res, puts) = publish Z t (Signal payload)
           in (map_err (\<lambda>e. ServerError ''publish failed'') res, puts)))"

section \<open>The server tasks\<close>

record server_state =
  sv_lease :: lease
  reg_alive :: bool
  dereg_alive :: bool
  monitor_alive :: bool

text \<open>The arms after \<open>RejectPoisoned\<close> stand for \<open>format!("{e:?}")\<close>; \<open>register\<close> never takes them.\<close>

definition registration_result :: "(registration_error, unit) outcome \<Rightarrow> registration_status" where
  "registration_result res =
     (case res of
        Ok _ \<Rightarrow> Ack
      | Err AlreadyRegistered \<Rightarrow> RejectAlreadyRegistered
      | Err PoisonedError \<Rightarrow> RejectPoisoned
      | Err NotRegistered \<Rightarrow> RejectServerError ''NotRegistered''
      | Err Timeout \<Rightarrow> RejectServerError ''Timeout''
      | Err (ServerError m) \<Rightarrow> RejectServerError (''ServerError('' @ m @ '')'')
      | Panic \<Rightarrow> Ignore)"

definition handle_registration ::
  "'n zenoh \<Rightarrow> 'n wire \<Rightarrow> server_state \<Rightarrow> string \<Rightarrow> server_state \<times> put list" where
  "handle_registration Z W s bytes =
     (if \<not> reg_alive s then (s, [])
      else case request_of W bytes of
        None \<Rightarrow> (s, [])
      | Some (DeregisterReq _) \<Rightarrow> (s, [])
      | Some (RegisterReq robot_id config) \<Rightarrow>
          (let (status, l) =
             (if robot_id = [] then (MissingRobotId, sv_lease s)
              else let (res, l) = register (sv_lease s) robot_id config in (registration_result res, l))
           in case (registration_response robot_id :: (unit, topic) outcome) of
                Ok t \<Rightarrow> (s\<lparr>sv_lease := l\<rparr>, snd (publish_response Z W t status))
              | Err e \<Rightarrow> (s\<lparr>sv_lease := l\<rparr>, [])
              | Panic \<Rightarrow> (s\<lparr>sv_lease := l, reg_alive := False\<rparr>, [])))"

definition handle_deregistration ::
  "'n zenoh \<Rightarrow> 'n wire \<Rightarrow> server_state \<Rightarrow> string \<Rightarrow> server_state \<times> put list" where
  "handle_deregistration Z W s bytes =
     (if \<not> dereg_alive s then (s, [])
      else case request_of W bytes of
        None \<Rightarrow> (s, [])
      | Some (RegisterReq _ _) \<Rightarrow> (s, [])
      | Some (DeregisterReq robot_id) \<Rightarrow>
          (case (deregistration_response robot_id :: (unit, topic) outcome) of
             Ok t \<Rightarrow>
               (let (status, l) =
                  (if robot_id = [] then (MissingRobotId, sv_lease s)
                   else let (res, l) = deregister (sv_lease s) robot_id
                        in (case res of Ok _ \<Rightarrow> Ack | _ \<Rightarrow> Ignore, l))
                in (s\<lparr>sv_lease := l\<rparr>, snd (publish_response Z W t status)))
           | Err e \<Rightarrow> (s, [])
           | Panic \<Rightarrow> (s\<lparr>dereg_alive := False\<rparr>, [])))"

datatype sample_kind = PutKind | DeleteKind

definition handle_liveliness ::
  "'n zenoh \<Rightarrow> 'n wire \<Rightarrow> server_state \<Rightarrow> string \<Rightarrow> sample_kind \<Rightarrow> server_state \<times> put list" where
  "handle_liveliness Z W s key kind =
     (if \<not> monitor_alive s then (s, [])
      else let parts = split_on CHR ''/'' key
        in if length parts < 2 then (s, [])
           else let robot_id = parts ! 1
             in case kind of
                  PutKind \<Rightarrow> (s, [])
                | DeleteKind \<Rightarrow>
                    (let (poisoned, l) = on_liveliness_delete (sv_lease s) robot_id
                     in if poisoned then
                          (case (heartbeat_alert robot_id :: (unit, topic) outcome) of
                             Ok t \<Rightarrow> (s\<lparr>sv_lease := l\<rparr>, snd (publish_response Z W t PoisonedStatus))
                           | Err e \<Rightarrow> (s\<lparr>sv_lease := l\<rparr>, [])
                           | Panic \<Rightarrow> (s\<lparr>sv_lease := l, monitor_alive := False\<rparr>, []))
                        else (s\<lparr>sv_lease := l\<rparr>, [])))"

section \<open>The client requests\<close>

text \<open>What \<open>timeout(REGISTRATION_TIMEOUT, recv_async())\<close> gives.\<close>

datatype awaited = Arrived string | Closed | Elapsed

definition REGISTRATION_TIMEOUT_MS :: nat where
  "REGISTRATION_TIMEOUT_MS = 5000"

definition await_status :: "'n wire \<Rightarrow> awaited \<Rightarrow> (registration_error, registration_status) outcome" where
  "await_status W r =
     (case r of
        Arrived bytes \<Rightarrow> ok_or (response_of W bytes) (ServerError ''bad registration response'')
      | Closed \<Rightarrow> Err Timeout
      | Elapsed \<Rightarrow> Err Timeout)"

definition request_response ::
  "'n zenoh \<Rightarrow> 'n wire \<Rightarrow> registration_request \<Rightarrow> (registration_error, topic) outcome \<Rightarrow> string \<Rightarrow> awaited
   \<Rightarrow> (registration_error, registration_status) outcome \<times> put list" where
  "request_response Z W request response_topic key reply =
     (case request_value W request of
        None \<Rightarrow> (Err (ServerError ''failed to serialize request''), [])
      | Some payload \<Rightarrow>
     (case bind_out response_topic (\<lambda>t.
             bind_out (expect (pattern_try_new (topic_str t))) (\<lambda>p.
             bind_out (map_err (\<lambda>e. ServerError ''subscribe failed'') (subscribe Z p)) (\<lambda>_.
             map_err (\<lambda>e. ServerError ''topic'') (topic_try_new key)))) of
        Err e \<Rightarrow> (Err e, [])
      | Panic \<Rightarrow> (Panic, [])
      | Ok req_topic \<Rightarrow>
          (let (res, puts) = publish Z req_topic (Signal payload)
           in (bind_out (map_err (\<lambda>e. ServerError ''publish failed'') res) (\<lambda>_. await_status W reply), puts))))"

fun client_verdict :: "registration_status \<Rightarrow> (registration_error, unit) outcome" where
  "client_verdict Ack = Ok ()"
| "client_verdict RejectAlreadyRegistered = Err AlreadyRegistered"
| "client_verdict RejectPoisoned = Err PoisonedError"
| "client_verdict (RejectServerError msg) = Err (ServerError msg)"
| "client_verdict MissingRobotId = Err (ServerError ''MissingRobotId'')"
| "client_verdict Ignore = Err (ServerError ''unexpected registration status: Ignore'')"
| "client_verdict PoisonedStatus = Err (ServerError ''unexpected registration status: Poisoned'')"

lemma client_verdict_Ok [simp]: "client_verdict status = Ok u \<longleftrightarrow> status = Ack"
  by (cases status) auto

definition register_with_client ::
  "'n zenoh \<Rightarrow> 'n wire \<Rightarrow> string \<Rightarrow> client_config \<Rightarrow> awaited \<Rightarrow> (registration_error, unit) outcome \<times> put list" where
  "register_with_client Z W robot_id config reply =
     (if robot_id = [] then (Err (ServerError ''MissingRobotId''), [])
      else let (res, puts) = request_response Z W (RegisterReq robot_id config)
                 (registration_response robot_id) REGISTRATION_KEY reply
        in (bind_out res client_verdict, puts))"

definition deregister_with_server ::
  "'n zenoh \<Rightarrow> 'n wire \<Rightarrow> string \<Rightarrow> awaited \<Rightarrow> (registration_error, unit) outcome \<times> put list" where
  "deregister_with_server Z W robot_id reply =
     (let (res, puts) = request_response Z W (DeregisterReq robot_id)
            (deregistration_response robot_id) DEREGISTRATION_KEY reply
      in (bind_out res (\<lambda>status.
            if status = Ack \<or> status = Ignore then Ok ()
            else Err (ServerError ''unexpected deregistration status'')), puts))"

section \<open>Properties\<close>

text \<open>
  The documented behaviour of \<open>serde_json\<close> on the envelopes: both kinds can be encoded, and an
  encoded response decodes to itself.
\<close>

definition wire_documented :: "'n zenoh \<Rightarrow> 'n wire \<Rightarrow> bool" where
  "wire_documented Z W \<longleftrightarrow>
     (\<forall>st. \<exists>v b. response_value W st = Some v \<and> z_to_vec Z v = Some b \<and> response_of W b = Some st)
     \<and> (\<forall>req. \<exists>v b. request_value W req = Some v \<and> z_to_vec Z v = Some b)"

lemma publish_response_put:
  assumes "wire_documented Z W"
  shows "\<exists>b. response_of W b = Some status \<and>
    snd (publish_response Z W t status) = [\<lparr>put_key = topic_str t, put_bytes = b, put_qos = None\<rparr>]"
proof -
  obtain v b where "response_value W status = Some v" "z_to_vec Z v = Some b" "response_of W b = Some status"
    using assms unfolding wire_documented_def by blast
  then show ?thesis by (simp add: publish_response_def publish_def send_put_def case_prod_beta)
qed

text \<open>An instance of the wire: a JSON string per message.\<close>

definition demo_wire :: "f64 wire" where
  "demo_wire = \<lparr>request_value = (\<lambda>req. Some (case req of RegisterReq r _ \<Rightarrow> JString (CHR ''r'' # r) | DeregisterReq r \<Rightarrow> JString (CHR ''d'' # r))),
     response_value = (\<lambda>st. Some (JString (case st of Ack \<Rightarrow> ''a'' | RejectAlreadyRegistered \<Rightarrow> ''b''
        | RejectPoisoned \<Rightarrow> ''c'' | RejectServerError m \<Rightarrow> CHR ''d'' # m | Ignore \<Rightarrow> ''e''
        | MissingRobotId \<Rightarrow> ''f'' | PoisonedStatus \<Rightarrow> ''g''))),
     request_of = (\<lambda>b. case b of c # r \<Rightarrow> if c = CHR ''r'' then Some (RegisterReq r demo_config)
                                 else if c = CHR ''d'' then Some (DeregisterReq r) else None | [] \<Rightarrow> None),
     response_of = (\<lambda>b. case b of [] \<Rightarrow> None | c # m \<Rightarrow>
        if c = CHR ''a'' then Some Ack else if c = CHR ''b'' then Some RejectAlreadyRegistered
        else if c = CHR ''c'' then Some RejectPoisoned else if c = CHR ''d'' then Some (RejectServerError m)
        else if c = CHR ''e'' then Some Ignore else if c = CHR ''f'' then Some MissingRobotId
        else if c = CHR ''g'' then Some PoisonedStatus else None)\<rparr>"

definition demo_mesh :: "f64 zenoh" where
  "demo_mesh = \<lparr>z_to_vec = (\<lambda>v. case v of JString s \<Rightarrow> Some s | _ \<Rightarrow> None), z_put = (\<lambda>_. True),
     z_declare = (\<lambda>_. True), z_token = (\<lambda>_. True), z_endpoints_json = (\<lambda>_. None), z_accepts = (\<lambda>_ _. True)\<rparr>"

definition demo_server :: server_state where
  "demo_server = \<lparr>sv_lease = lease_new \<lparr>expected_clients = [''7'']\<rparr>, reg_alive = True, dereg_alive = True,
     monitor_alive = True\<rparr>"

lemma demo_wire_documented: "wire_documented demo_mesh demo_wire"
  by (simp add: wire_documented_def demo_mesh_def demo_wire_def split: registration_status.split
      registration_request.split)

lemma registration_step:
  assumes "wire_documented Z W" and "reg_alive s" and "request_of W bytes = Some (RegisterReq r config)"
    and "r \<noteq> []" and "CHR ''/'' \<notin> set r"
  shows "\<exists>b. response_of W b = Some (registration_result (fst (register (sv_lease s) r config))) \<and>
    handle_registration Z W s bytes =
      (s\<lparr>sv_lease := snd (register (sv_lease s) r config)\<rparr>,
       [\<lparr>put_key = ''fleet/registration/response/'' @ r, put_bytes = b, put_qos = None\<rparr>])"
proof -
  obtain b where b: "response_of W b = Some (registration_result (fst (register (sv_lease s) r config)))"
    "snd (publish_response Z W (Topic (''fleet/registration/response/'' @ r))
       (registration_result (fst (register (sv_lease s) r config)))) =
     [\<lparr>put_key = ''fleet/registration/response/'' @ r, put_bytes = b, put_qos = None\<rparr>]"
    using publish_response_put [OF assms(1)] by (metis topic.sel)
  then show ?thesis
    using assms(2-5) by (intro exI [of _ b]) (simp add: handle_registration_def case_prod_beta Let_def)
qed

text \<open>
  C12: every registration request is answered once, and truly. Take a request whose robot id has no
  slash. A robot that is unknown or only expected is put on record as registered with the configuration it
  sent and is told \<open>Ack\<close>; one on record as registered or poisoned is told so and the record stays; an empty
  id is told that it is missing. No entry of another robot changes, the task stays alive, and exactly one
  response goes out, on the topic of that id.
\<close>

theorem registration_answered:
  assumes "wire_documented Z W" and "reg_alive s" and "request_of W bytes = Some (RegisterReq r config)"
    and "CHR ''/'' \<notin> set r"
  shows "let status =
      (if r = [] then MissingRobotId
       else case client_state_of (sv_lease s) r of
         Poisoned \<Rightarrow> RejectPoisoned | Registered \<Rightarrow> RejectAlreadyRegistered | Unknown \<Rightarrow> Ack | Expected \<Rightarrow> Ack) in
    \<exists>b s'. handle_registration Z W s bytes =
        (s', [\<lparr>put_key = ''fleet/registration/response/'' @ r, put_bytes = b, put_qos = None\<rparr>]) \<and>
      response_of W b = Some status \<and> reg_alive s' \<and> dereg_alive s' = dereg_alive s \<and> monitor_alive s' = monitor_alive s \<and>
      clients (sv_lease s') =
        (if status = Ack then (clients (sv_lease s))(r \<mapsto> \<lparr>ce_state = Registered, ce_config = Some config\<rparr>)
         else clients (sv_lease s))"
proof (cases "r = []")
  case True
  obtain b where "response_of W b = Some MissingRobotId"
    "snd (publish_response Z W (Topic ''fleet/registration/response/'') MissingRobotId) =
       [\<lparr>put_key = ''fleet/registration/response/'', put_bytes = b, put_qos = None\<rparr>]"
    using publish_response_put [OF assms(1)] by (metis topic.sel)
  moreover have "(registration_response [] :: (unit, topic) outcome) = Ok (Topic ''fleet/registration/response/'')"
    using response_Ok(1) [of "[]"] by simp
  ultimately show ?thesis using assms(2,3) True by (simp add: handle_registration_def)
next
  case False
  let ?l = "sv_lease s"
  obtain b where b: "response_of W b = Some (registration_result (fst (register ?l r config)))"
    "handle_registration Z W s bytes =
      (s\<lparr>sv_lease := snd (register ?l r config)\<rparr>,
       [\<lparr>put_key = ''fleet/registration/response/'' @ r, put_bytes = b, put_qos = None\<rparr>])"
    using registration_step [OF assms(1-3) False assms(4)] by blast
  have "registration_result (fst (register ?l r config)) =
      (case client_state_of ?l r of Poisoned \<Rightarrow> RejectPoisoned | Registered \<Rightarrow> RejectAlreadyRegistered
       | Unknown \<Rightarrow> Ack | Expected \<Rightarrow> Ack)"
    and "clients (snd (register ?l r config)) =
      (if client_state_of ?l r \<in> {Registered, Poisoned} then clients ?l
       else (clients ?l)(r \<mapsto> \<lparr>ce_state = Registered, ce_config = Some config\<rparr>))"
    by (auto simp: register_def client_state_of_def registration_result_def split: option.split client_state.split)
  then show ?thesis
    using False assms(2) b by (cases "client_state_of ?l r") (simp_all add: Let_def)
qed

theorem registration_answered_witness:
  "\<exists>b s'. handle_registration demo_mesh demo_wire demo_server ''r7'' =
       (s', [\<lparr>put_key = ''fleet/registration/response/7'', put_bytes = b, put_qos = None\<rparr>]) \<and>
     response_of demo_wire b = Some Ack \<and>
     clients (sv_lease s') ''7'' = Some \<lparr>ce_state = Registered, ce_config = Some demo_config\<rparr>"
proof -
  have "request_of demo_wire ''r7'' = Some (RegisterReq ''7'' demo_config)" by (simp add: demo_wire_def)
  moreover have "client_state_of (sv_lease demo_server) ''7'' = Expected"
    by (simp add: demo_server_def client_state_of_def lease_new_entry)
  ultimately show ?thesis
    using registration_answered [OF demo_wire_documented, of demo_server "''r7''" "''7''" demo_config]
    by (auto simp: demo_server_def Let_def)
qed

text \<open>
  a slash in a wire-supplied id kills registration for the whole fleet. A registration request
  whose robot id contains a slash is registered first and then panics in the response topic builder;
  the task is gone, and no later request of any robot is answered or recorded.
\<close>

theorem slash_id_kills_registration:
  assumes "reg_alive s" and "request_of W bytes = Some (RegisterReq r config)" and "CHR ''/'' \<in> set r"
  shows "let (s', puts) = handle_registration Z W s bytes in
    puts = [] \<and> \<not> reg_alive s' \<and> sv_lease s' = snd (register (sv_lease s) r config)
    \<and> (\<forall>later. handle_registration Z W s' later = (s', []))"
proof -
  have "r \<noteq> []" using assms(3) by auto
  with assms show ?thesis
    by (simp add: handle_registration_def case_prod_beta Let_def)
qed

theorem slash_id_kills_registration_witness:
  "\<not> reg_alive (fst (handle_registration demo_mesh demo_wire demo_server ''rcell/7''))"
  using slash_id_kills_registration [of demo_server demo_wire "''rcell/7''" "''cell/7''" demo_config demo_mesh]
  by (simp add: demo_server_def demo_wire_def case_prod_beta Let_def)

lemma response_pattern:
  assumes "CHR ''/'' \<notin> set r" "r \<notin> {[], ''*'', ''**''}"
  shows "pattern_try_new (''fleet/registration/response/'' @ r) = Ok (Pattern (''fleet/registration/response/'' @ r))"
proof (rule plain_topic_pattern)
  show "topic_try_new (''fleet/registration/response/'' @ r) = Ok (Topic (''fleet/registration/response/'' @ r))"
    using response_Ok(1) [OF assms(1)] by (simp add: registration_response_def)
  have parts: "split_on CHR ''/'' (''fleet/registration/response/'' @ r) = [''fleet'', ''registration'', ''response'', r]"
    using assms(1) by (simp add: string_simps)
  show "p \<notin> {[], ''*'', ''**''}" if "p \<in> set (split_on CHR ''/'' (''fleet/registration/response/'' @ r))" for p
    using that assms(2) unfolding parts by auto
qed

lemma register_with_client_run:
  assumes "wire_documented Z W" and "\<And>sub. z_declare Z sub" and "\<And>p. z_put Z p"
    and "CHR ''/'' \<notin> set r" and "r \<notin> {[], ''*'', ''**''}"
  shows "\<exists>v b. request_value W (RegisterReq r config) = Some v \<and> z_to_vec Z v = Some b \<and>
    register_with_client Z W r config reply =
    (bind_out (await_status W reply) client_verdict,
     [\<lparr>put_key = REGISTRATION_KEY, put_bytes = b, put_qos = None\<rparr>])"
proof -
  obtain v b where v: "request_value W (RegisterReq r config) = Some v" "z_to_vec Z v = Some b"
    using assms(1) unfolding wire_documented_def by blast
  have key: "topic_try_new REGISTRATION_KEY = Ok (Topic REGISTRATION_KEY)" by code_simp
  have topic: "(registration_response r :: (registration_error, topic) outcome) =
      Ok (Topic (''fleet/registration/response/'' @ r))" using assms(4) by simp
  have pre: "bind_out (registration_response r) (\<lambda>t.
      bind_out (expect (pattern_try_new (topic_str t))) (\<lambda>p.
      bind_out (map_err (\<lambda>e. ServerError ''subscribe failed'') (subscribe Z p)) (\<lambda>_.
      map_err (\<lambda>e. ServerError ''topic'') (topic_try_new REGISTRATION_KEY)))) =
    (Ok (Topic REGISTRATION_KEY) :: (registration_error, topic) outcome)"
    unfolding topic key by (simp only: bind_out.simps topic.sel response_pattern [OF assms(4,5)] expect.simps
        subscribe_def assms(2) Let_def if_True map_err.simps)
  have "register_with_client Z W r config reply =
    (bind_out (await_status W reply) client_verdict,
     [\<lparr>put_key = REGISTRATION_KEY, put_bytes = b, put_qos = None\<rparr>])"
    unfolding register_with_client_def request_response_def v(1) option.case pre outcome.case
    using assms(3,5) v(2) by (simp add: publish_def send_put_def case_prod_beta)
  with v show ?thesis by blast
qed

lemma register_with_client_reply:
  assumes "wire_documented Z W" and "\<And>sub. z_declare Z sub" and "\<And>p. z_put Z p"
    and "CHR ''/'' \<notin> set r" and "r \<notin> {[], ''*'', ''**''}"
  shows "fst (register_with_client Z W r config reply) =
    bind_out (await_status W reply) client_verdict"
  using register_with_client_run [OF assms, of config reply] by (elim exE conjE) simp

lemma client_learns:
  assumes "wire_documented Z W" and "\<And>sub. z_declare Z sub" and "\<And>p. z_put Z p"
    and "CHR ''/'' \<notin> set r" and "r \<notin> {[], ''*'', ''**''}" and "reg_alive s"
    and "request_of W bytes = Some (RegisterReq r config)"
    and "snd (handle_registration Z W s bytes) = [response]"
  shows "fst (register_with_client Z W r config (Arrived (put_bytes response))) =
    fst (register (sv_lease s) r config)"
proof -
  have ne: "r \<noteq> []" using assms(5) by simp
  obtain b where b: "response_of W b = Some (registration_result (fst (register (sv_lease s) r config)))"
    and "put_bytes response = b"
    using registration_step [OF assms(1,6,7) ne assms(4)] assms(8) by auto
  moreover have "fst (register (sv_lease s) r config) \<in> {Ok (), Err AlreadyRegistered, Err PoisonedError}"
    by (auto simp: register_def split: option.split client_state.split)
  ultimately show ?thesis
    by (auto simp: register_with_client_reply [OF assms(1-5)] await_status_def registration_result_def)
qed

text \<open>
  the client learns the server's verdict. If the response the client awaits is the one the server
  published for its request, \<open>register_with_client\<close> returns exactly the result of the lease's
  \<open>register\<close>: success means registered, and each refusal keeps its reason.
\<close>

theorem client_learns_verdict:
  assumes "wire_documented Z W" and "\<And>sub. z_declare Z sub" and "\<And>p. z_put Z p"
    and "CHR ''/'' \<notin> set r" and "r \<notin> {[], ''*'', ''**''}" and "reg_alive s"
    and "request_of W bytes = Some (RegisterReq r config)"
    and "snd (handle_registration Z W s bytes) = [response]"
  shows "fst (register_with_client Z W r config (Arrived (put_bytes response))) =
    fst (register (sv_lease s) r config)"
  using assms by (rule client_learns)

theorem client_learns_verdict_witness:
  "\<exists>response. snd (handle_registration demo_mesh demo_wire demo_server ''r7'') = [response] \<and>
     fst (register_with_client demo_mesh demo_wire ''7'' demo_config (Arrived (put_bytes response))) = Ok ()"
proof -
  have req: "request_of demo_wire ''r7'' = Some (RegisterReq ''7'' demo_config)" by (simp add: demo_wire_def)
  have alive: "reg_alive demo_server" by (simp add: demo_server_def)
  have puts: "snd (handle_registration demo_mesh demo_wire demo_server ''r7'') =
      [\<lparr>put_key = ''fleet/registration/response/7'', put_bytes = ''a'', put_qos = None\<rparr>]"
    by (simp add: handle_registration_def demo_server_def demo_wire_def demo_mesh_def register_def lease_new_entry
        registration_result_def publish_response_def publish_def send_put_def)
  have "fst (register (sv_lease demo_server) ''7'' demo_config) = Ok ()"
    by (simp add: demo_server_def register_def lease_new_entry)
  with client_learns_verdict [OF demo_wire_documented _ _ _ _ alive req puts] puts show ?thesis
    by (simp add: demo_mesh_def)
qed

text \<open>
  C40: a lost acknowledgement locks the robot out. If the response to a first successful request is
  lost, the first call times out, and the second call is refused as already registered although the
  server has recorded the robot since the first request.
\<close>

theorem lost_ack_refuses_retry:
  assumes "wire_documented Z W" and "\<And>sub. z_declare Z sub" and "\<And>p. z_put Z p"
    and "CHR ''/'' \<notin> set r" and "r \<notin> {[], ''*'', ''**''}" and "reg_alive s"
    and "request_of W bytes = Some (RegisterReq r config)"
    and "fst (register (sv_lease s) r config) = Ok ()"
  shows "let s1 = fst (handle_registration Z W s bytes); (s2, puts) = handle_registration Z W s1 bytes in
    fst (register_with_client Z W r config Elapsed) = Err Timeout
    \<and> client_state_of (sv_lease s1) r = Registered
    \<and> map (\<lambda>p. fst (register_with_client Z W r config (Arrived (put_bytes p)))) puts = [Err AlreadyRegistered]"
proof -
  have ne: "r \<noteq> []" using assms(5) by simp
  let ?s1 = "s\<lparr>sv_lease := snd (register (sv_lease s) r config)\<rparr>"
  have s1: "fst (handle_registration Z W s bytes) = ?s1"
    using registration_step [OF assms(1,6,7) ne assms(4)] by auto
  have reg: "client_state_of (sv_lease ?s1) r = Registered"
    using assms(8) by (auto simp: register_def client_state_of_def split: option.splits client_state.splits)
  have again: "fst (register (sv_lease ?s1) r config) = Err AlreadyRegistered"
    using reg by (auto simp: register_def client_state_of_def split: option.splits)
  have alive: "reg_alive ?s1" using assms(6) by simp
  obtain p where p: "snd (handle_registration Z W ?s1 bytes) = [p]"
    using registration_step [OF assms(1) alive assms(7) ne assms(4)] by auto
  have "fst (register_with_client Z W r config (Arrived (put_bytes p))) = Err AlreadyRegistered"
    unfolding client_learns [OF assms(1-5) alive assms(7) p] by (rule again)
  moreover have "fst (register_with_client Z W r config Elapsed) = Err Timeout"
    by (simp add: register_with_client_reply [OF assms(1-5)] await_status_def)
  ultimately show ?thesis
    using s1 reg p by (simp add: Let_def case_prod_beta)
qed

theorem lost_ack_refuses_retry_witness:
  "fst (register_with_client demo_mesh demo_wire ''7'' demo_config Elapsed) = Err Timeout"
proof -
  have req: "request_of demo_wire ''r7'' = Some (RegisterReq ''7'' demo_config)" by (simp add: demo_wire_def)
  show ?thesis
    using lost_ack_refuses_retry [OF demo_wire_documented _ _ _ _ _ req, of demo_server]
    by (simp add: demo_server_def demo_mesh_def register_def lease_new_entry case_prod_beta Let_def)
qed

end
