(* ===== verification/Key_Expr.thy ===== *)
theory Key_Expr
  imports Prelude
begin

text \<open>
  Which keys a zenoh key expression includes is not code of the program: it is a parameter
  \<open>includes\<close> of the statements that need it. \<open>ke_documented\<close> is the part of its documentation
  they rely on: without \<open>**\<close> and \<open>$*\<close> an expression is compared chunk by chunk, \<open>*\<close> standing for any
  one chunk, and a first chunk without wildcard is compared literally. Keys have no empty chunk and
  no chunk that starts with \<open>@\<close> (those are matched verbatim). The locale \<open>key_expressions\<close> holds what
  follows from it; \<open>ke_include\<close> is an instance.
\<close>

definition plain_key :: "string \<Rightarrow> bool" where
  "plain_key k \<longleftrightarrow> (\<forall>c \<in> set (split_on CHR ''/'' k). c \<noteq> [] \<and> hd c \<noteq> CHR ''@'')"

definition chunk_match :: "string \<Rightarrow> string \<Rightarrow> bool" where
  "chunk_match p c \<longleftrightarrow> p = ''*'' \<or> p = c"

definition simple_expr :: "string \<Rightarrow> bool" where
  "simple_expr ke \<longleftrightarrow> (\<forall>p \<in> set (split_on CHR ''/'' ke). p = ''*'' \<or> CHR ''*'' \<notin> set p)"

definition ke_documented :: "(string \<Rightarrow> string \<Rightarrow> bool) \<Rightarrow> bool" where
  "ke_documented includes \<longleftrightarrow>
     (\<forall>ke k. simple_expr ke \<longrightarrow> plain_key k \<longrightarrow>
        (includes ke k \<longleftrightarrow> list_all2 chunk_match (split_on CHR ''/'' ke) (split_on CHR ''/'' k))) \<and>
     (\<forall>ke k. includes ke k \<longrightarrow> CHR ''*'' \<notin> set (hd (split_on CHR ''/'' ke)) \<longrightarrow>
        hd (split_on CHR ''/'' k) = hd (split_on CHR ''/'' ke))"

lemma chunk_match_literal: "CHR ''*'' \<notin> set p \<Longrightarrow> chunk_match p c \<longleftrightarrow> p = c"
  by (auto simp: chunk_match_def)

text \<open>Chunks without wildcards match only themselves, so such an expression includes exactly itself.\<close>

lemma list_all2_chunk_literal:
  "(\<And>p. p \<in> set ps \<Longrightarrow> CHR ''*'' \<notin> set p) \<Longrightarrow> list_all2 chunk_match ps cs \<longleftrightarrow> ps = cs"
  by (induction ps arbitrary: cs) (auto simp: list_all2_Cons1 chunk_match_literal)

lemma split_on_chars: "p \<in> set (split_on c s) \<Longrightarrow> set p \<subseteq> set s"
proof (induction s arbitrary: p)
  case (Cons x s)
  obtain q qs where q: "split_on c s = q # qs" by (cases "split_on c s") auto
  have IH: "set q \<subseteq> set s" "r \<in> set qs \<Longrightarrow> set r \<subseteq> set s" for r
    using Cons.IH [of q] Cons.IH [of r] q by auto
  from Cons.prems show ?case
    by (auto simp: q split: if_splits dest: IH(2) subsetD [OF IH(1)])
qed simp

locale key_expressions =
  fixes incl :: "string \<Rightarrow> string \<Rightarrow> bool"
  assumes ke_doc: "ke_documented incl"
begin

lemma ke_simple:
  "simple_expr ke \<Longrightarrow> plain_key k \<Longrightarrow>
     incl ke k \<longleftrightarrow> list_all2 chunk_match (split_on CHR ''/'' ke) (split_on CHR ''/'' k)"
  using ke_doc by (simp add: ke_documented_def)

lemma ke_first_chunk:
  "incl ke k \<Longrightarrow> CHR ''*'' \<notin> set (hd (split_on CHR ''/'' ke)) \<Longrightarrow>
     hd (split_on CHR ''/'' k) = hd (split_on CHR ''/'' ke)"
  using ke_doc by (simp add: ke_documented_def)

lemma ke_literal:
  assumes "CHR ''*'' \<notin> set ke" and "plain_key k"
  shows "incl ke k \<longleftrightarrow> k = ke"
proof -
  have free: "CHR ''*'' \<notin> set p" if "p \<in> set (split_on CHR ''/'' ke)" for p
    using split_on_chars [OF that] assms(1) by auto
  then have "simple_expr ke" by (auto simp: simple_expr_def)
  with assms(2) have "incl ke k \<longleftrightarrow> split_on CHR ''/'' ke = split_on CHR ''/'' k"
    using list_all2_chunk_literal [of "split_on CHR ''/'' ke"] free by (simp add: ke_simple)
  also have "\<dots> \<longleftrightarrow> k = ke" by (metis join_split)
  finally show ?thesis .
qed

end

section \<open>An instance\<close>

fun chunks_include :: "string list \<Rightarrow> string list \<Rightarrow> bool" where
  "chunks_include [] cs \<longleftrightarrow> cs = []"
| "chunks_include (p # ps) [] \<longleftrightarrow> p = ''**'' \<and> chunks_include ps []"
| "chunks_include (p # ps) (c # cs) \<longleftrightarrow>
     (if p = ''**'' then chunks_include ps (c # cs) \<or> chunks_include (p # ps) cs
      else chunk_match p c \<and> chunks_include ps cs)"

definition ke_include :: "string \<Rightarrow> string \<Rightarrow> bool" where
  "ke_include ke k \<longleftrightarrow> chunks_include (split_on CHR ''/'' ke) (split_on CHR ''/'' k)"

lemma chunks_include_simple:
  "(\<And>p. p \<in> set ps \<Longrightarrow> p = ''*'' \<or> CHR ''*'' \<notin> set p) \<Longrightarrow>
     chunks_include ps cs \<longleftrightarrow> list_all2 chunk_match ps cs"
proof (induction ps cs rule: chunks_include.induct)
  case (2 p ps)
  from "2.prems" [of p] show ?case by auto
next
  case (3 p ps c cs)
  from "3.prems" [of p] have "p \<noteq> ''**''" by auto
  with 3 show ?case by simp
qed auto

lemma ke_include_documented [simp]: "ke_documented ke_include"
proof -
  have first: "hd (split_on CHR ''/'' k) = hd (split_on CHR ''/'' ke)"
    if "ke_include ke k" "CHR ''*'' \<notin> set (hd (split_on CHR ''/'' ke))" for ke k
    using that
    by (cases "split_on CHR ''/'' ke"; cases "split_on CHR ''/'' k")
      (auto simp: ke_include_def chunk_match_literal split: if_splits)
  then show ?thesis
    unfolding ke_documented_def
    by (auto simp: ke_include_def simple_expr_def chunks_include_simple)
qed

interpretation chunkwise: key_expressions ke_include
  by unfold_locales (rule ke_include_documented)

end
