(* ===== verification/Engine_Tick.thy ===== *)
theory Engine_Tick
  imports Engine_State
begin

text \<open>
  The properties of \<open>EvalState\<close> over sequences of samples and ticks: exactly which actions a tick
  returns, what an edge trigger compares against, what a hot swap resets, stale samples, and the
  zone map as a relation between robots and zones.
\<close>

section \<open>Runs of the evaluation state\<close>

datatype 'n engine_event =
    Sample nat string "'n json"
  | Tick nat "'n rules arc"

fun engine_step :: "'n serde \<Rightarrow> 'n eval_state \<Rightarrow> 'n engine_event \<Rightarrow> 'n eval_state" where
  "engine_step L s (Sample now topic payload) = ingest L s now topic payload"
| "engine_step L s (Tick now a) = snd (tick_with_arc L s now a)"

lemma zone_ops_frame [simp]:
  "latest (enter_zone s r z) = latest s" "latest (clear_zone s r z) = latest s"
  "prev (enter_zone s r z) = prev s" "prev (clear_zone s r z) = prev s"
  "last_rules (enter_zone s r z) = last_rules s" "last_rules (clear_zone s r z) = last_rules s"
  "timestamps (enter_zone s r z) = timestamps s" "timestamps (clear_zone s r z) = timestamps s"
  "staleness_timeout (enter_zone s r z) = staleness_timeout s"
  "staleness_timeout (clear_zone s r z) = staleness_timeout s"
  by (simp_all add: enter_zone_def clear_zone_def Let_def split: option.split)

lemma ingest_frame [simp]:
  "prev (ingest L s now topic payload) = prev s"
  "last_rules (ingest L s now topic payload) = last_rules s"
  "staleness_timeout (ingest L s now topic payload) = staleness_timeout s"
  by (simp_all add: ingest_def Let_def split: option.split)

lemma ingest_zone_topic:
  "is_zone_topic topic \<Longrightarrow> latest (ingest L s now topic payload) = latest s \<and>
     timestamps (ingest L s now topic payload) = timestamps s"
  by (simp add: ingest_def Let_def split: option.split)

lemma ingest_sensor_topic:
  "\<not> is_zone_topic topic \<Longrightarrow> ingest L s now topic payload = ingest_sample s now topic payload"
  by (simp add: ingest_def ingest_sample_def)

lemma tick_with_arc_frame [simp]:
  "latest (snd (tick_with_arc L s now a)) = latest s"
  "zones (snd (tick_with_arc L s now a)) = zones s"
  "timestamps (snd (tick_with_arc L s now a)) = timestamps s"
  "staleness_timeout (snd (tick_with_arc L s now a)) = staleness_timeout s"
  by (simp_all add: tick_with_arc_def)

lemma tick_with_arc_last:
  "case last_rules (snd (tick_with_arc L s now a)) of None \<Rightarrow> False | Some b \<Rightarrow> ptr_eq b a"
  by (auto simp: tick_with_arc_def note_rules_def ptr_eq_def split: option.split)

lemma note_rules_known:
  "(case last_rules s of None \<Rightarrow> False | Some b \<Rightarrow> ptr_eq b a) \<Longrightarrow> note_rules s a = s"
  by (auto simp: note_rules_def split: option.splits)

lemma note_rules_swapped:
  "(case last_rules s of None \<Rightarrow> True | Some b \<Rightarrow> \<not> ptr_eq b a) \<Longrightarrow>
     prev (note_rules s a) = Map.empty"
  by (auto simp: note_rules_def split: option.splits)

lemma samples_frame:
  "prev (foldl (engine_step L) s (map (\<lambda>(n, t, p). Sample n t p) es)) = prev s"
  "last_rules (foldl (engine_step L) s (map (\<lambda>(n, t, p). Sample n t p) es)) = last_rules s"
  by (induction es arbitrary: s) auto

section \<open>What a tick returns\<close>

text \<open>Rule \<open>i\<close> of the ruleset fires in state \<open>s\<close> at time \<open>now\<close>.\<close>

definition rule_fires :: "'n serde \<Rightarrow> 'n eval_state \<Rightarrow> nat \<Rightarrow> nat \<Rightarrow> 'n rule \<Rightarrow> bool" where
  "rule_fires L s now i r \<longleftrightarrow>
     guard_fires L (staleness_view s now) (zones s) (prev s) i (rule_when r)"

lemma tick_inner_fst:
  "fst (tick_inner L s now rls) =
     concat (map (\<lambda>(i, r). if rule_fires L s now i r then rule_actions r else [])
               (enumerate 0 (rules_list rls)))"
  by (simp add: tick_inner_def Let_def case_prod_beta tick_rules_fst rule_fires_def)

lemma tick_inner_prev:
  assumes "i < length (rules_list rls)" and "w = rule_when (rules_list rls ! i)"
  shows "prev (snd (tick_inner L s now rls)) (tp, i, n) =
     (if visited L (staleness_view s now) (zones s) (prev s) i w n \<and>
         tr_mode (guard_triggers w ! n) = Edge \<and> tp = tr_topic (guard_triggers w ! n)
      then Some (trigger_cur L (guard_triggers w ! n) (staleness_view s now) (zones s))
      else prev s (tp, i, n))"
  using tick_rules_snd [OF assms, of L "staleness_view s now" "zones s" 0 "prev s" tp n]
  by (simp add: tick_inner_def Let_def case_prod_beta)

text \<open>The same with the verdicts that \<open>when_satisfied_with_prev\<close> gives against the baseline before the tick.\<close>

lemma tick_inner_verdicts:
  "fst (tick_inner L s now rls) =
     concat (map (\<lambda>k. if fst (when_satisfied_with_prev L (rule_when (rules_list rls ! k)) (staleness_view s now) (prev s) k (zones s))
                      then rule_actions (rules_list rls ! k) else []) [0..<length (rules_list rls)])"
  unfolding tick_inner_fst
  by (intro arg_cong [where f = concat] nth_equalityI) (simp_all add: nth_enumerate_eq rule_fires_def when_satisfied_fst)

lemma rule_fires_empty: "guard_triggers (rule_when r) = [] \<Longrightarrow> \<not> rule_fires L s now i r"
  by (simp add: rule_fires_def guard_fires_def)

text \<open>
  C5: a tick returns exactly the actions of the rules whose guard holds, in the order of the
  ruleset: every trigger of \<open>all\<close> fires and, when \<open>any\<close> is not empty, one of \<open>any\<close>. Every rule is
  judged against the edge baseline as it was before the tick, so neither the short-circuiting of
  a guard nor the updates made for other rules change the result, and a rule with no triggers
  never contributes an action.
\<close>

theorem tick_returns_firing_rules:
  "fst (tick L s now rls) =
     concat (map (\<lambda>(i, r). if rule_fires L s now i r then rule_actions r else [])
               (enumerate 0 (rules_list rls)))
   \<and> (guard_triggers (rule_when r) = [] \<longrightarrow> \<not> rule_fires L s now i r)"
  by (simp add: tick_def tick_inner_fst rule_fires_empty)

definition demo_trigger :: "string \<Rightarrow> eval_mode \<Rightarrow> trigger" where
  "demo_trigger topic mode = \<lparr>tr_topic = topic, tr_pred = None, tr_mode = mode\<rparr>"

definition demo_rule :: "trigger list \<Rightarrow> trigger list \<Rightarrow> f64 rule" where
  "demo_rule al an =
     \<lparr>rule_name = ''demo'', rule_when = \<lparr>when_all = al, when_any = an\<rparr>,
      rule_actions = [\<lparr>act_topic = ''stop/fleet/cmd'', act_qos = Reliable, act_payload = JNull\<rparr>]\<rparr>"

theorem tick_returns_firing_rules_witness:
  "fst (tick f64_serde (ingest_sample eval_state_empty 0 ''sensor/a'' JNull) 1
      \<lparr>rules_list = [demo_rule [] [], demo_rule [demo_trigger ''sensor/a'' Level] []]\<rparr>) =
     rule_actions (demo_rule [] [])
   \<and> \<not> rule_fires f64_serde eval_state_empty 0 0 (demo_rule [] [])"
proof -
  let ?s = "ingest_sample eval_state_empty 0 ''sensor/a'' JNull :: f64 eval_state"
  have "rule_fires f64_serde ?s 1 1 (demo_rule [demo_trigger ''sensor/a'' Level] [])"
    by (simp add: rule_fires_def guard_fires_def trigger_fires_def trigger_cur_def trigger_matches_def
        eval_predicate_def demo_rule_def demo_trigger_def staleness_view_def ingest_sample_def
        eval_state_empty_def)
  moreover have "\<not> rule_fires f64_serde s now i (demo_rule [] [])" for s now i
    using tick_returns_firing_rules [of f64_serde s now "\<lparr>rules_list = []\<rparr>" "demo_rule [] []" i]
    by (simp add: demo_rule_def)
  ultimately show ?thesis
    using tick_returns_firing_rules [of f64_serde ?s 1
        "\<lparr>rules_list = [demo_rule [] [], demo_rule [demo_trigger ''sensor/a'' Level] []]\<rparr>"]
    by (simp add: demo_rule_def)
qed

definition level_only :: "'n serde \<Rightarrow> 'n samples \<Rightarrow> zones \<Rightarrow> trigger \<Rightarrow> bool" where
  "level_only L samples zs t \<longleftrightarrow> tr_mode t = Level \<and> trigger_cur L t samples zs"

definition level_guard :: "'n serde \<Rightarrow> 'n samples \<Rightarrow> zones \<Rightarrow> when_guard \<Rightarrow> bool" where
  "level_guard L samples zs w \<longleftrightarrow>
     guard_triggers w \<noteq> [] \<and> (\<forall>t \<in> set (when_all w). level_only L samples zs t) \<and>
     (when_any w = [] \<or> (\<exists>t \<in> set (when_any w). level_only L samples zs t))"

lemma guard_fires_no_baseline:
  "guard_fires L samples zs Map.empty i w = level_guard L samples zs w"
proof -
  have "trigger_fires L samples zs Map.empty r j t = level_only L samples zs t" for r j t
    by (auto simp: trigger_fires_def level_only_def split: eval_mode.split)
  then show ?thesis
    by (auto simp: guard_fires_def level_guard_def all_set_conv_all_nth in_set_conv_nth)
qed

text \<open>
  the first tick after a hot swap (a ruleset behind another \<open>Arc\<close>) sees no edge: a rule
  contributes its actions only if its guard holds with every edge trigger taken as not firing,
  whatever transitions the previous ruleset had recorded.
\<close>

theorem swap_resets_edges:
  assumes "case last_rules s of None \<Rightarrow> True | Some b \<Rightarrow> \<not> ptr_eq b a"
  shows "fst (tick_with_arc L s now a) =
     concat (map (\<lambda>r. if level_guard L (staleness_view s now) (zones s) (rule_when r)
                       then rule_actions r else []) (rules_list (arc_val a)))"
proof -
  have "map (\<lambda>(i, r). if rule_fires L (note_rules s a) now i r then rule_actions r else [])
      (enumerate 0 rs) =
    map (\<lambda>r. if level_guard L (staleness_view s now) (zones s) (rule_when r)
             then rule_actions r else []) rs" for rs :: "'a rule list"
    by (simp add: rule_fires_def note_rules_swapped [OF assms] guard_fires_no_baseline
        list_eq_iff_nth_eq nth_enumerate_eq)
  then show ?thesis by (simp add: tick_with_arc_def tick_inner_fst)
qed

theorem swap_resets_edges_witness:
  "fst (tick_with_arc f64_serde
      (eval_state_empty\<lparr>prev := [(''sensor/a'', 0, 0) \<mapsto> True],
                        last_rules := Some (Arc 1 rules_default)\<rparr>) 5
      (Arc 2 \<lparr>rules_list = [demo_rule [demo_trigger ''sensor/a'' Edge] []]\<rparr>)) = []"
  by (subst swap_resets_edges)
    (simp_all add: eval_state_empty_def ptr_eq_def level_guard_def level_only_def demo_rule_def
      demo_trigger_def)

section \<open>Edges\<close>

lemma guard_fires_single:
  "when_all w = [t] \<Longrightarrow> when_any w = [] \<Longrightarrow> tr_mode t = Edge \<Longrightarrow>
     guard_fires L samples zs pv i w \<longleftrightarrow>
       pv (tr_topic t, i, 0) = Some (\<not> trigger_cur L t samples zs)"
  by (simp add: guard_fires_def trigger_fires_def)

text \<open>
  C34: a rule guarded by one edge trigger fires exactly on a change. Between two ticks of the same
  \<open>Arc\<close>, whatever samples and zone events arrive, \<open>when_satisfied_with_prev\<close> holds for the rule at the second
  tick if and only if the trigger's verdict differs from its verdict at the first, in either direction; and
  what the second tick returns are the actions of the rules for which it holds, in their order.
\<close>

theorem edge_rule_fires_on_change:
  assumes rules: "rules_list (arc_val a) ! i = r" "i < length (rules_list (arc_val a))"
    and guard: "rule_when r = \<lparr>when_all = [t], when_any = []\<rparr>" "tr_mode t = Edge"
    and first: "sb = snd (tick_with_arc L sa now a)"
    and samples: "sc = foldl (engine_step L) sb (map (\<lambda>(n, t, p). Sample n t p) es)"
  shows "let fires = (\<lambda>k. fst (when_satisfied_with_prev L (rule_when (rules_list (arc_val a) ! k))
             (staleness_view sc now') (prev sc) k (zones sc))) in
    (fires i \<longleftrightarrow> trigger_cur L t (staleness_view sa now) (zones sa) \<noteq> trigger_cur L t (staleness_view sc now') (zones sc)) \<and>
    fst (tick_with_arc L sc now' a) =
      concat (map (\<lambda>k. if fires k then rule_actions (rules_list (arc_val a) ! k) else []) [0..<length (rules_list (arc_val a))])"
proof -
  have "prev sb (tr_topic t, i, 0) = Some (trigger_cur L t (staleness_view sa now) (zones sa))"
    using rules guard tick_inner_prev [of i "arc_val a" "rule_when r" L "note_rules sa a" now "tr_topic t" 0]
    by (simp add: first tick_with_arc_def visited_def)
  moreover have same: "note_rules sc a = sc"
    using tick_with_arc_last [where L = L and s = sa and now = now and a = a]
    by (intro note_rules_known) (simp add: samples samples_frame first)
  moreover have "prev sc = prev sb" by (simp add: samples samples_frame)
  ultimately have "fst (when_satisfied_with_prev L (rule_when r) (staleness_view sc now') (prev sc) i (zones sc)) \<longleftrightarrow>
      trigger_cur L t (staleness_view sa now) (zones sa) \<noteq> trigger_cur L t (staleness_view sc now') (zones sc)"
    using guard by (auto simp: when_satisfied_fst guard_fires_single)
  with rules(1) same show ?thesis unfolding Let_def tick_with_arc_def tick_inner_verdicts by simp
qed

theorem edge_rule_fires_on_change_witness:
  "let r = demo_rule [demo_trigger ''sensor/a'' Edge] []; a = Arc 1 \<lparr>rules_list = [r]\<rparr>;
       s2 = foldl (engine_step f64_serde) (snd (tick_with_arc f64_serde eval_state_empty 0 a))
              [Sample 1 ''sensor/a'' JNull]
   in fst (tick_with_arc f64_serde s2 2 a) = rule_actions r"
proof -
  let ?r = "demo_rule [demo_trigger ''sensor/a'' Edge] []"
  let ?a = "Arc 1 \<lparr>rules_list = [?r]\<rparr>"
  let ?s1 = "snd (tick_with_arc f64_serde eval_state_empty 0 ?a)"
  let ?s2 = "foldl (engine_step f64_serde) ?s1 (map (\<lambda>(n, t, p). Sample n t p) [(1, ''sensor/a'', JNull)])"
  let ?fires = "\<lambda>k. fst (when_satisfied_with_prev f64_serde (rule_when (rules_list (arc_val ?a) ! k)) (staleness_view ?s2 2) (prev ?s2) k (zones ?s2))"
  have on_change: "(?fires 0 \<longleftrightarrow>
      trigger_cur f64_serde (demo_trigger ''sensor/a'' Edge) (staleness_view eval_state_empty 0)
        (zones (eval_state_empty :: f64 eval_state)) \<noteq>
      trigger_cur f64_serde (demo_trigger ''sensor/a'' Edge) (staleness_view ?s2 2) (zones ?s2)) \<and>
    fst (tick_with_arc f64_serde ?s2 2 ?a) =
      concat (map (\<lambda>k. if ?fires k then rule_actions (rules_list (arc_val ?a) ! k) else []) [0..<length (rules_list (arc_val ?a))])"
    by (rule edge_rule_fires_on_change [where sb = ?s1 and es = "[(1, ''sensor/a'', JNull)]" and r = ?r, unfolded Let_def])
      (simp_all add: demo_rule_def demo_trigger_def)
  moreover have "\<not> trigger_cur f64_serde (demo_trigger ''sensor/a'' Edge)
      (staleness_view eval_state_empty 0) (zones (eval_state_empty :: f64 eval_state))"
    by (simp add: trigger_cur_def staleness_view_def eval_state_empty_def)
  moreover have "staleness_timeout ?s2 = None" "latest ?s2 ''sensor/a'' = Some JNull"
    by (simp_all add: ingest_sensor_topic is_zone_topic_def ingest_sample_def eval_state_empty_def)
  then have "trigger_cur f64_serde (demo_trigger ''sensor/a'' Edge) (staleness_view ?s2 2) (zones ?s2)"
    by (simp add: trigger_cur_def demo_trigger_def staleness_view_def trigger_matches_def
        eval_predicate_def)
  ultimately have "?fires 0" by blast
  with on_change [THEN conjunct2] show ?thesis by (simp add: Let_def)
qed

text \<open>
  an edge trigger behind a condition that does not hold is not observed. While the first
  trigger of \<open>all\<close> does not fire, a tick leaves the baseline of every later trigger of \<open>all\<close> as it was, so
  the tick on which the first condition holds again compares against a value from before the
  pause, however many transitions happened in between.
\<close>

theorem short_circuit_keeps_baseline:
  assumes "i < length (rules_list rls)" and "w = rule_when (rules_list rls ! i)"
    and "0 < n" and "n < length (when_all w)"
    and "\<not> trigger_fires L (staleness_view s now) (zones s) (prev s) i 0 (when_all w ! 0)"
  shows "prev (snd (tick L s now rls)) (tp, i, n) = prev s (tp, i, n)"
  using assms by (subst tick_def, subst tick_inner_prev) (auto simp: visited_def)

theorem short_circuit_keeps_baseline_witness:
  "prev (snd (tick f64_serde
      (eval_state_empty\<lparr>prev := [(''sensor/b'', 0, 1) \<mapsto> True]\<rparr>) 0
      \<lparr>rules_list = [demo_rule [demo_trigger ''sensor/a'' Level, demo_trigger ''sensor/b'' Edge] []]\<rparr>))
     (''sensor/b'', 0, 1) = Some True"
  by (subst short_circuit_keeps_baseline [where w = "rule_when (demo_rule
        [demo_trigger ''sensor/a'' Level, demo_trigger ''sensor/b'' Edge] [])"])
    (simp_all add: demo_rule_def demo_trigger_def trigger_fires_def trigger_cur_def
      staleness_view_def eval_state_empty_def)

section \<open>Staleness\<close>

lemma staleness_view_expired:
  "staleness_timeout s = Some T \<Longrightarrow> timestamps s topic = Some ts \<Longrightarrow> T < now - ts \<Longrightarrow>
     staleness_view s now topic = None"
  by (simp add: staleness_view_def split: option.split)

lemma staleness_view_fresh:
  "(case staleness_timeout s of None \<Rightarrow> True | Some T \<Rightarrow> \<forall>ts. timestamps s topic = Some ts \<longrightarrow> now - ts \<le> T) \<Longrightarrow>
     staleness_view s now topic = latest s topic"
  by (auto simp: staleness_view_def split: option.splits)

lemma trigger_cur_absent: "samples (tr_topic t) = None \<Longrightarrow> \<not> trigger_cur L t samples zs"
  by (simp add: trigger_cur_def)

lemma level_trigger_blocks:
  "t \<in> set (when_all w) \<Longrightarrow> tr_mode t = Level \<Longrightarrow> \<not> trigger_cur L t samples zs \<Longrightarrow>
     \<not> guard_fires L samples zs pv i w"
  by (auto simp: guard_fires_def trigger_fires_def in_set_conv_nth)

text \<open>
  with a staleness timeout, a sample counts for exactly that long. From the moment it was
  ingested until the timeout has passed the tick sees it; afterwards it is as if the topic had
  never been heard of, and a rule that requires a level trigger on it does not fire.
\<close>

theorem stale_samples_fail_closed:
  assumes "staleness_timeout s = Some T" and "\<not> is_zone_topic topic"
    and "t \<in> set (when_all (rule_when r))" and "tr_mode t = Level" and "tr_topic t = topic"
  shows "staleness_view (ingest L s ts topic payload) now topic =
           (if now - ts \<le> T then Some payload else None)
       \<and> (rule_fires L (ingest L s ts topic payload) now i r \<longrightarrow> now - ts \<le> T)"
proof -
  have view: "staleness_view (ingest L s ts topic payload) now topic =
       (if now - ts \<le> T then Some payload else None)"
    using assms by (simp add: ingest_sensor_topic ingest_sample_def staleness_view_def)
  moreover have "\<not> rule_fires L (ingest L s ts topic payload) now i r" if "\<not> now - ts \<le> T"
    using that view assms unfolding rule_fires_def
    by (intro level_trigger_blocks [of t]) (auto simp: trigger_cur_absent)
  ultimately show ?thesis by blast
qed

theorem stale_samples_fail_closed_witness:
  "\<not> rule_fires f64_serde
      (ingest f64_serde (with_staleness eval_state_empty 100) 7 ''sensor/a'' JNull) 108 0
      (demo_rule [demo_trigger ''sensor/a'' Level] [])"
  using stale_samples_fail_closed [of "with_staleness eval_state_empty 100" 100 "''sensor/a''"
      "demo_trigger ''sensor/a'' Level" "demo_rule [demo_trigger ''sensor/a'' Level] []"
      f64_serde 7 JNull 108 0]
  by (simp add: with_staleness_def is_zone_topic_def demo_rule_def demo_trigger_def)

section \<open>Zones as a relation\<close>

text \<open>
  The contract of the zone map: a relation between robots and zones, extended and reduced by the
  two zone topics. A zone event is read off a sample by its topic and its \<open>robot_id\<close> field.
\<close>

datatype zone_event = Entered string string | Cleared string string

definition zone_event_of :: "'n serde \<Rightarrow> string \<Rightarrow> 'n json \<Rightarrow> zone_event option" where
  "zone_event_of L topic payload =
     (if is_zone_topic topic \<and> 3 \<le> length (split_on CHR ''/'' topic)
      then map_option (\<lambda>robot. (if suffix ''/entered'' topic then Entered else Cleared) robot
                                 (split_on CHR ''/'' topic ! 1))
             (Option.bind (sj_get L payload ''robot_id'') (sj_as_str L))
      else None)"

fun rel_step :: "(string \<times> string) set \<Rightarrow> zone_event \<Rightarrow> (string \<times> string) set" where
  "rel_step R (Entered r z) = insert (r, z) R"
| "rel_step R (Cleared r z) = R - {(r, z)}"

fun engine_rel_step ::
  "'n serde \<Rightarrow> (string \<times> string) set \<Rightarrow> 'n engine_event \<Rightarrow> (string \<times> string) set" where
  "engine_rel_step L R (Sample now topic payload) =
     (case zone_event_of L topic payload of None \<Rightarrow> R | Some e \<Rightarrow> rel_step R e)"
| "engine_rel_step L R (Tick now a) = R"

definition zone_rel :: "zones \<Rightarrow> (string \<times> string) set" where
  "zone_rel zs = {(r, z). \<exists>Z. zs r = Some Z \<and> z \<in> Z}"

definition zones_ok :: "zones \<Rightarrow> bool" where
  "zones_ok zs \<longleftrightarrow> (\<forall>r. zs r \<noteq> Some {})"

lemma zone_rel_enter: "zone_rel (zones (enter_zone s r z)) = insert (r, z) (zone_rel (zones s))"
  by (auto simp: zone_rel_def enter_zone_def split: option.splits if_splits)

lemma zone_rel_clear: "zone_rel (zones (clear_zone s r z)) = zone_rel (zones s) - {(r, z)}"
  by (auto simp: zone_rel_def clear_zone_def Let_def split: option.splits if_splits)

lemma zones_ok_enter: "zones_ok (zones s) \<Longrightarrow> zones_ok (zones (enter_zone s r z))"
  by (simp add: zones_ok_def enter_zone_def)

lemma zones_ok_clear: "zones_ok (zones s) \<Longrightarrow> zones_ok (zones (clear_zone s r z))"
  by (auto simp: zones_ok_def clear_zone_def Let_def split: option.split)

lemma ingest_zone_event:
  "zones (ingest L s now topic payload) =
     zones (case zone_event_of L topic payload of
              None \<Rightarrow> s
            | Some (Entered r z) \<Rightarrow> enter_zone s r z
            | Some (Cleared r z) \<Rightarrow> clear_zone s r z)"
  by (auto simp: ingest_def zone_event_of_def Let_def split: option.split)

lemma ingest_zones_ok: "zones_ok (zones s) \<Longrightarrow> zones_ok (zones (ingest L s now topic payload))"
  by (auto simp: ingest_zone_event zones_ok_enter zones_ok_clear split: option.split zone_event.split)

lemma ingest_zone_rel:
  "zone_rel (zones (ingest L s now topic payload)) =
     (case zone_event_of L topic payload of
        None \<Rightarrow> zone_rel (zones s) | Some e \<Rightarrow> rel_step (zone_rel (zones s)) e)"
  by (auto simp: ingest_zone_event zone_rel_enter zone_rel_clear split: option.split zone_event.split)

interpretation zone_machine: simulation "engine_step L" "\<lambda>s. zones_ok (zones s)" "engine_rel_step L"
  "\<lambda>s. zone_rel (zones s)" for L :: "'n serde"
proof
  show "zones_ok (zones (engine_step L s e))" if "zones_ok (zones s)" for s and e :: "'n engine_event"
    using that by (cases e) (simp_all add: ingest_zones_ok)
  show "zone_rel (zones (engine_step L s e)) = engine_rel_step L (zone_rel (zones s)) e"
    for s and e :: "'n engine_event"
    by (cases e) (simp_all add: ingest_zone_rel split: option.split)
qed

lemma share_zone_rel:
  "share_zone zs a b \<longleftrightarrow> (\<exists>z. (a, z) \<in> zone_rel zs \<and> (b, z) \<in> zone_rel zs)"
  by (auto simp: share_zone_iff zone_rel_def)

text \<open>The last event about a robot and a zone, reading a run backwards.\<close>

fun inside :: "'n serde \<Rightarrow> 'n engine_event list \<Rightarrow> string \<Rightarrow> string \<Rightarrow> bool" where
  "inside L [] r z = False"
| "inside L (Tick now a # es) r z = inside L es r z"
| "inside L (Sample now topic payload # es) r z =
     (if zone_event_of L topic payload = Some (Entered r z) then True
      else if zone_event_of L topic payload = Some (Cleared r z) then False
      else inside L es r z)"

lemma rel_step_iff:
  "(r, z) \<in> rel_step R e \<longleftrightarrow> e = Entered r z \<or> ((r, z) \<in> R \<and> e \<noteq> Cleared r z)"
  by (cases e) auto

lemma rel_run:
  "(r, z) \<in> foldl (engine_rel_step L) {} es \<longleftrightarrow> inside L (rev es) r z"
proof (induction es rule: rev_induct)
  case Nil
  then show ?case by simp
next
  case (snoc e es)
  then show ?case
    by (cases e) (auto simp: rel_step_iff split: option.split)
qed

text \<open>
  C35: two robots share a zone exactly when the samples say so. After any run of samples and
  ticks from the empty state, \<open>same_zone_as\<close> holds for two robots if and only if there is a zone for
  which the last event about each of them was an entry; no robot is kept with an empty set.
\<close>

theorem share_zone_last_event:
  "let zs = zones (foldl (engine_step L) eval_state_empty es)
   in (share_zone zs a b \<longleftrightarrow> (\<exists>z. inside L (rev es) a z \<and> inside L (rev es) b z)) \<and> zs r \<noteq> Some {}"
proof -
  have empty: "zones_ok (zones (eval_state_empty :: 'a eval_state))"
    "zone_rel (zones (eval_state_empty :: 'a eval_state)) = {}"
    by (simp_all add: eval_state_empty_def zones_ok_def zone_rel_def)
  then show ?thesis
    using zone_machine.sim_run [of "eval_state_empty :: 'a eval_state" L es]
      zone_machine.inv_run [of "eval_state_empty :: 'a eval_state" L es]
    by (simp add: Let_def share_zone_rel rel_run zones_ok_def)
qed

section \<open>Triggers on zone topics\<close>

definition zone_blind :: "'n eval_state \<Rightarrow> bool" where
  "zone_blind s \<longleftrightarrow>
     (\<forall>topic. is_zone_topic topic \<longrightarrow>
        latest s topic = None \<and> (\<forall>i n. prev s (topic, i, n) \<noteq> Some True))"

lemma zone_blind_cur:
  "zone_blind s \<Longrightarrow> is_zone_topic (tr_topic t) \<Longrightarrow>
     \<not> trigger_cur L t (staleness_view s now) (zones s)"
  by (rule trigger_cur_absent) (auto simp: zone_blind_def staleness_view_def split: option.split)

lemma zone_blind_fires:
  "zone_blind s \<Longrightarrow> is_zone_topic (tr_topic t) \<Longrightarrow>
     \<not> trigger_fires L (staleness_view s now) (zones s) (prev s) i n t"
  using zone_blind_cur [of s t L now]
  by (auto simp: trigger_fires_def zone_blind_def split: eval_mode.split)

text \<open>A tick keeps a property of the baseline that every verdict of the tick has.\<close>

lemma tick_rules_baseline_inv:
  assumes "\<And>k. Q k \<Longrightarrow> pv k \<noteq> Some b"
    and "\<And>t i n. Q (tr_topic t, i, n) \<Longrightarrow> trigger_cur L t snap zs \<noteq> b"
  shows "Q (tp, j, n) \<Longrightarrow> snd (tick_rules L snap zs i rs pv) (tp, j, n) \<noteq> Some b"
proof (cases "i \<le> j \<and> j < i + length rs")
  case True
  then obtain k where "j = i + k" "k < length rs" using le_Suc_ex by auto
  then show "Q (tp, j, n) \<Longrightarrow> ?thesis"
    using tick_rules_snd [of k rs "rule_when (rs ! k)" L snap zs i pv tp n] assms
    by (auto split: if_splits)
next
  case False
  then show "Q (tp, j, n) \<Longrightarrow> ?thesis" using assms by (auto simp: tick_rules_frame)
qed

lemma zone_blind_tick_inner:
  assumes "zone_blind s"
  shows "zone_blind (snd (tick_inner L s now rls))"
proof -
  have "snd (tick_rules L (staleness_view s now) (zones s) 0 (rules_list rls) (prev s)) (tp, j, n) \<noteq> Some True"
    if "is_zone_topic tp" for tp j n
    by (rule tick_rules_baseline_inv [where Q = "\<lambda>(tp, _). is_zone_topic tp"])
      (use that assms in \<open>auto simp: zone_blind_cur, auto simp: zone_blind_def\<close>)
  with assms show ?thesis
    by (simp add: zone_blind_def tick_inner_def Let_def case_prod_beta)
qed

lemma zone_blind_note: "zone_blind s \<Longrightarrow> zone_blind (note_rules s a)"
  by (auto simp: zone_blind_def note_rules_def)

lemma zone_blind_ingest: "zone_blind s \<Longrightarrow> zone_blind (ingest L s now topic payload)"
  by (cases "is_zone_topic topic")
    (auto simp: zone_blind_def ingest_zone_topic ingest_sensor_topic ingest_sample_def)

interpretation zone_blindness: event_machine "engine_step L" zone_blind for L :: "'n serde"
proof
  show "zone_blind (engine_step L s e)" if "zone_blind s" for s :: "'n eval_state" and e
    using that
    by (cases e) (simp_all add: zone_blind_ingest tick_with_arc_def zone_blind_tick_inner zone_blind_note)
qed

text \<open>
  the zone topics drive the zone map only. In every state reached from the empty one by
  samples and ticks, a trigger on a \<open>zone/.../entered\<close> or \<open>zone/.../cleared\<close> topic does not fire,
  in either mode, so a rule that has one in \<open>all\<close> never acts.
\<close>

theorem zone_topic_triggers_never_fire:
  assumes "t \<in> set (when_all (rule_when r))" and "is_zone_topic (tr_topic t)"
  shows "\<not> rule_fires L (foldl (engine_step L) eval_state_empty es) now i r"
proof -
  let ?s = "foldl (engine_step L) eval_state_empty es"
  have "zone_blind ?s"
    by (rule zone_blindness.inv_run) (simp add: zone_blind_def eval_state_empty_def)
  with assms zone_blind_fires [of ?s t L now] show ?thesis
    by (auto simp: rule_fires_def guard_fires_def in_set_conv_nth)
qed

theorem zone_topic_triggers_never_fire_witness:
  "\<not> rule_fires f64_serde
      (foldl (engine_step f64_serde) eval_state_empty
         [Sample 0 ''zone/dock/entered'' (JObject [(''robot_id'', JString ''7'')])]) 1 0
      (demo_rule [demo_trigger ''zone/dock/entered'' Level] [])"
  by (rule zone_topic_triggers_never_fire [of "demo_trigger ''zone/dock/entered'' Level"])
    (simp_all add: demo_rule_def demo_trigger_def is_zone_topic_def suffix_def)

end
