(* ===== verification/Engine_Run.thy ===== *)
theory Engine_Run
  imports Engine_Tick Transport "HOL-Library.List_Lexorder" "HOL-Library.Char_ord"
begin

text \<open>
  \<open>EvalState::run\<close> and \<open>run_engine\<close> of \<open>src/engine.rs\<close>: subscription tasks, the bounded sample
  channel, the select loop and the publication of fired actions. A step of the loop is one branch
  of the \<open>select!\<close>; which branch runs, the clock and the value of the watch channel are the event.
  A spawned task lives until its subscription ends: dropping its \<open>JoinHandle\<close> detaches it.
\<close>

section \<open>Tasks and the sample channel\<close>

datatype task = ZoneTask subscription | SensorTask subscription string

record 'n engine =
  eval :: "'n eval_state"
  tasks :: "task list" \<comment> \<open>every subscription task spawned so far\<close>
  current_topics :: "string list"
  queue :: "(string \<times> 'n json) list" \<comment> \<open>the channel between the tasks and the loop\<close>
  eval_counter :: "64 word"
  running :: bool

definition CHANNEL_CAPACITY :: nat where
  "CHANNEL_CAPACITY = 256"

text \<open>\<open>try_send\<close>: a full channel drops the sample.\<close>

definition try_send :: "'a list \<Rightarrow> 'a \<Rightarrow> 'a list" where
  "try_send q x = (if length q < CHANNEL_CAPACITY then q @ [x] else q)"

section \<open>Subscriptions\<close>

definition collect_topics :: "when_guard \<Rightarrow> string list \<Rightarrow> string list" where
  "collect_topics w out = out @ map tr_topic (when_all w) @ map tr_topic (when_any w)"

definition sorted_topics :: "'n rules \<Rightarrow> string list" where
  "sorted_topics rls = remdups_adj (sort (fold (\<lambda>r out. collect_topics (rule_when r) out) (rules_list rls) []))"

datatype run_error = InvalidInput topic_error | ZenohError transport_error

fun spawn_sensors :: "'n zenoh \<Rightarrow> string list \<Rightarrow> task list \<Rightarrow> (run_error, unit) outcome \<times> task list" where
  "spawn_sensors Z [] ts = (Ok (), ts)"
| "spawn_sensors Z (topic # topics) ts =
     (case pattern_try_new topic of
        Err e \<Rightarrow> (Err (InvalidInput e), ts)
      | Panic \<Rightarrow> (Panic, ts)
      | Ok pattern \<Rightarrow>
          (case subscribe Z pattern of
             Err e \<Rightarrow> (Err (ZenohError e), ts)
           | Panic \<Rightarrow> (Panic, ts)
           | Ok sub \<Rightarrow> spawn_sensors Z topics (ts @ [SensorTask sub topic])))"

definition subscribe_to_topics ::
  "'n zenoh \<Rightarrow> 'n rules \<Rightarrow> task list \<Rightarrow> string list \<Rightarrow>
   (run_error, unit) outcome \<times> task list \<times> string list" where
  "subscribe_to_topics Z rls ts topics =
     (let new_topics = sorted_topics rls;
          (res, ts') = spawn_sensors Z new_topics ts
      in (res, ts', if res = Ok () then new_topics else topics))"

definition zone_subscriptions :: "'n zenoh \<Rightarrow> (run_error, task list) outcome" where
  "zone_subscriptions Z =
     bind_out (expect (pattern_try_new ZONE_ENTERED_PATTERN)) (\<lambda>entered.
     bind_out (map_err ZenohError (subscribe Z entered)) (\<lambda>entered_sub.
     bind_out (expect (pattern_try_new ZONE_CLEARED_PATTERN)) (\<lambda>cleared.
     bind_out (map_err ZenohError (subscribe Z cleared)) (\<lambda>cleared_sub.
     Ok [ZoneTask entered_sub, ZoneTask cleared_sub]))))"

section \<open>Firing\<close>

definition fire_action :: "'n zenoh \<Rightarrow> 'n action \<Rightarrow> put list" where
  "fire_action Z action =
     (case topic_try_new (act_topic action) of
        Ok t \<Rightarrow> snd (publish Z t (ActionEnv (act_qos action) (act_payload action)))
      | _ \<Rightarrow> [])"

section \<open>The loop\<close>

datatype 'n loop_event =
    TickDue nat "'n rules arc" \<comment> \<open>clock and watch value\<close>
  | Receive nat \<comment> \<open>the loop takes a sample\<close>
  | StoreChanged bool "'n rules arc" \<comment> \<open>\<open>changed()\<close> is Ok; the watch value after the debounce\<close>
  | Deliver task string string \<comment> \<open>zenoh hands a task a sample: key and bytes\<close>

definition rebuild :: "'n zenoh \<Rightarrow> 'n engine \<Rightarrow> 'n rules \<Rightarrow> 'n engine" where
  "rebuild Z s rls =
     (if sorted_topics rls \<noteq> current_topics s
      then let (res, ts, topics) = subscribe_to_topics Z rls (tasks s) (current_topics s)
           in s\<lparr>tasks := ts, current_topics := topics\<rparr>
      else s)"

fun loop_step ::
  "'n serde \<Rightarrow> (string \<Rightarrow> 'n json option) \<Rightarrow> 'n zenoh \<Rightarrow> 'n engine \<Rightarrow> 'n loop_event \<Rightarrow> 'n engine \<times> put list" where
  "loop_step L from_slice Z s (TickDue now a) =
     (if running s then
        let (actions, e) = tick_inner L (note_rules (eval s) a) now (arc_val a)
        in (s\<lparr>eval := e, eval_counter := eval_counter s + 1\<rparr>, concat (map (fire_action Z) actions))
      else (s, []))"
| "loop_step L from_slice Z s (Receive now) =
     (case queue s of
        [] \<Rightarrow> (s, [])
      | (topic, payload) # q \<Rightarrow>
          if running s then (s\<lparr>eval := ingest L (eval s) now topic payload, queue := q\<rparr>, []) else (s, []))"
| "loop_step L from_slice Z s (StoreChanged ok a) =
     (if \<not> running s then (s, [])
      else if \<not> ok then (s\<lparr>running := False\<rparr>, [])
      else (rebuild Z s (arc_val a), []))"
| "loop_step L from_slice Z s (Deliver t key bytes) =
     (if t \<in> set (tasks s) then
        let payload = (case from_slice bytes of Some v \<Rightarrow> v | None \<Rightarrow> JNull);
            k = (case t of ZoneTask _ \<Rightarrow> key | SensorTask _ topic \<Rightarrow> topic)
        in (s\<lparr>queue := try_send (queue s) (k, payload)\<rparr>, [])
      else (s, []))"

text \<open>\<open>run\<close> up to the loop: the engine it starts, or the error it returns.\<close>

definition run_start :: "'n zenoh \<Rightarrow> 'n rules arc \<Rightarrow> (run_error, 'n engine) outcome" where
  "run_start Z initial =
     bind_out (zone_subscriptions Z) (\<lambda>zone_tasks.
       case subscribe_to_topics Z (arc_val initial) [] [] of
         (Ok _, ts, topics) \<Rightarrow>
           Ok \<lparr>eval = eval_state_empty\<lparr>last_rules := Some initial\<rparr>, tasks = zone_tasks @ ts,
               current_topics = topics, queue = [], eval_counter = 0, running = True\<rparr>
       | (Err e, _, _) \<Rightarrow> Err e
       | (Panic, _, _) \<Rightarrow> Panic)"

text \<open>
  \<open>run_engine\<close> with the readiness flag it leaves behind: the spawned task awaits the oneshot
  receiver, ignores whether it got a message or the sender was dropped, and sets the gate.
\<close>

definition run_engine :: "'n zenoh \<Rightarrow> 'n rules arc \<Rightarrow> (run_error, 'n engine) outcome \<times> bool" where
  "run_engine Z initial =
     (let started = run_start Z initial;
          received = (case started of Ok _ \<Rightarrow> Some () | _ \<Rightarrow> None);
          ready = (case received of Some _ \<Rightarrow> True | None \<Rightarrow> True)
      in (started, ready))"

section \<open>What is published\<close>

lemma fire_action_put:
  assumes "p \<in> set (fire_action Z action)"
  shows "topic_try_new (put_key p) = Ok (Topic (put_key p)) \<and> topic_try_new (act_topic action) = Ok (Topic (put_key p)) \<and>
    z_to_vec Z (act_payload action) = Some (put_bytes p) \<and> put_qos p = Some (qos_knobs (act_qos action))"
proof -
  from assms obtain t where t: "topic_try_new (act_topic action) = Ok t"
    and p: "p \<in> set (snd (publish Z t (ActionEnv (act_qos action) (act_payload action))))"
    by (cases "topic_try_new (act_topic action)") (auto simp: fire_action_def)
  have "topic_try_new (topic_str t) = Ok t" using t by (rule topic_v.accepted_again)
  with publish_puts [OF p] publish_action_qos [OF p] publish_action_bytes [OF p] t show ?thesis by (cases t) simp
qed

lemma loop_step_puts:
  "snd (loop_step L from_slice Z s (TickDue now a)) =
     (if running s
      then concat (map (fire_action Z) (fst (tick_with_arc L (eval s) now a)))
      else [])"
  by (simp add: Let_def case_prod_beta tick_with_arc_def)

text \<open>
  C10: the engine publishes only valid topics. Every put of any step of the loop goes to a canonical
  topic of the convention, even when the ruleset (loaded from TOML without compilation) names an
  invalid one: to the canonical form of the topic of an action that fired at that tick, with the
  serialised payload of this action and the knobs of its quality of service.
\<close>

theorem loop_publishes_valid_topics:
  assumes "p \<in> set (snd (loop_step L from_slice Z s e))"
  shows "topic_try_new (put_key p) = Ok (Topic (put_key p)) \<and>
    (\<exists>now a action. e = TickDue now a \<and> action \<in> set (fst (tick_with_arc L (eval s) now a)) \<and>
       topic_try_new (act_topic action) = Ok (Topic (put_key p)) \<and>
       z_to_vec Z (act_payload action) = Some (put_bytes p) \<and> put_qos p = Some (qos_knobs (act_qos action)))"
proof (cases e)
  case (TickDue now a)
  with assms have "p \<in> set (concat (map (fire_action Z) (fst (tick_with_arc L (eval s) now a))))"
    by (auto simp: loop_step_puts simp del: loop_step.simps split: if_splits)
  then obtain action where "action \<in> set (fst (tick_with_arc L (eval s) now a))" "p \<in> set (fire_action Z action)"
    by auto
  with fire_action_put TickDue show ?thesis by blast
qed (use assms in \<open>auto split: list.splits if_splits simp: Let_def\<close>)

definition demo_zenoh :: "f64 zenoh" where
  "demo_zenoh = \<lparr>z_to_vec = (\<lambda>_. Some ''null''), z_put = (\<lambda>_. True), z_declare = (\<lambda>_. True),
     z_token = (\<lambda>_. True), z_endpoints_json = (\<lambda>_. Some ''[]''), z_accepts = (\<lambda>_ _. True)\<rparr>"

definition demo_engine :: "f64 engine" where
  "demo_engine = \<lparr>eval = ingest_sample eval_state_empty 0 ''sensor/a'' JNull, tasks = [],
     current_topics = [], queue = [], eval_counter = 0, running = True\<rparr>"

theorem loop_publishes_valid_topics_witness:
  "topic_try_new ''stop/fleet/cmd'' = Ok (Topic ''stop/fleet/cmd'')"
proof -
  let ?a = "Arc 1 \<lparr>rules_list = [demo_rule [demo_trigger ''sensor/a'' Level] []]\<rparr>"
  let ?p = "\<lparr>put_key = ''stop/fleet/cmd'', put_bytes = ''null'', put_qos = Some (RelReliable, Block, InteractiveHigh)\<rparr>"
  have t: "topic_try_new ''stop/fleet/cmd'' = Ok (Topic ''stop/fleet/cmd'')" by code_simp
  have "?p \<in> set (snd (loop_step f64_serde (\<lambda>_. None) demo_zenoh demo_engine (TickDue 1 ?a)))"
    by (simp add: demo_engine_def ingest_sample_def eval_state_empty_def note_rules_def tick_inner_def
        staleness_view_def demo_rule_def demo_trigger_def when_satisfied_with_prev_def trigger_edge_matches_def
        trigger_cur_def trigger_matches_def eval_predicate_def fire_action_def t publish_def demo_zenoh_def
        send_put_def Let_def)
  from loop_publishes_valid_topics [OF this] show ?thesis by simp
qed

section \<open>The channel and the subscriptions\<close>

lemma spawn_sensors_Ok:
  "spawn_sensors Z topics ts = (Ok (), ts') \<Longrightarrow>
     set ts \<subseteq> set ts' \<and> (\<forall>topic \<in> set topics. \<exists>p. pattern_try_new topic = Ok p \<and>
        SensorTask (subscription_for (pattern_str p)) topic \<in> set ts')"
  by (induction topics arbitrary: ts)
    (fastforce simp: subscribe_Ok split: outcome.splits)+

lemma spawn_sensors_grows: "set ts \<subseteq> set (snd (spawn_sensors Z topics ts))"
  by (induction topics arbitrary: ts) (fastforce split: outcome.splits)+

definition listening :: "'n engine \<Rightarrow> string \<Rightarrow> bool" where
  "listening s topic \<longleftrightarrow>
     (\<exists>p. pattern_try_new topic = Ok p \<and> SensorTask (subscription_for (pattern_str p)) topic \<in> set (tasks s))"

definition engine_ok :: "'n engine \<Rightarrow> bool" where
  "engine_ok s \<longleftrightarrow>
     length (queue s) \<le> CHANNEL_CAPACITY \<and> sorted (current_topics s) \<and> distinct (current_topics s)
     \<and> (\<forall>topic \<in> set (current_topics s). listening s topic)"

lemma sorted_distinct_adj: "sorted xs \<Longrightarrow> distinct_adj xs \<Longrightarrow> distinct xs"
  for xs :: "'a::linorder list"
proof (induction xs)
  case (Cons x xs)
  then show ?case by (cases xs) (auto simp: distinct_adj_Cons)
qed simp

lemma sorted_topics_sorted: "sorted (sorted_topics rls) \<and> distinct (sorted_topics rls)"
  by (simp add: sorted_topics_def sorted_distinct_adj)

lemma set_sorted_topics:
  "set (sorted_topics rls) = (\<Union>r \<in> set (rules_list rls). tr_topic ` set (guard_triggers (rule_when r)))"
proof -
  have "set (fold (\<lambda>r out. collect_topics (rule_when r) out) rs out) =
      set out \<union> (\<Union>r \<in> set rs. tr_topic ` set (guard_triggers (rule_when r)))" for rs :: "'a rule list" and out
    by (induction rs arbitrary: out) (auto simp: collect_topics_def)
  then show ?thesis by (simp add: sorted_topics_def)
qed

lemma rebuild_ok: "engine_ok s \<Longrightarrow> engine_ok (rebuild Z s rls)"
proof (cases "sorted_topics rls = current_topics s")
  case False
  assume ok: "engine_ok s"
  obtain res ts where spawn: "spawn_sensors Z (sorted_topics rls) (tasks s) = (res, ts)" by fastforce
  have grows: "set (tasks s) \<subseteq> set ts" using spawn_sensors_grows [of "tasks s" Z "sorted_topics rls"] spawn by simp
  show ?thesis
  proof (cases "res = Ok ()")
    case True
    with spawn_sensors_Ok spawn ok False sorted_topics_sorted show ?thesis
      by (fastforce simp: engine_ok_def rebuild_def subscribe_to_topics_def listening_def)
  next
    case failed: False
    with spawn ok False grows show ?thesis
      by (fastforce simp: engine_ok_def rebuild_def subscribe_to_topics_def listening_def)
  qed
qed (simp add: rebuild_def)

interpretation loop: event_machine "\<lambda>s e. fst (loop_step L from_slice Z s e)" engine_ok
  for L :: "'n serde" and from_slice and Z
proof
  fix s :: "'n engine" and e assume ok: "engine_ok s"
  then show "engine_ok (fst (loop_step L from_slice Z s e))"
  proof (cases e)
    case (StoreChanged changed a)
    with ok rebuild_ok [OF ok] show ?thesis by (simp add: engine_ok_def listening_def)
  qed (auto simp: engine_ok_def listening_def Let_def case_prod_beta try_send_def split: list.split)
qed

lemma run_start_ok:
  assumes "run_start Z initial = Ok s"
  shows "engine_ok s \<and> running s \<and> current_topics s = sorted_topics (arc_val initial) \<and> queue s = []"
proof -
  obtain zs where zs: "zone_subscriptions Z = Ok zs" using assms by (auto simp: run_start_def)
  obtain res ts where spawn: "spawn_sensors Z (sorted_topics (arc_val initial)) [] = (res, ts)" by fastforce
  have res: "res = Ok ()" using assms zs spawn
    by (auto simp: run_start_def subscribe_to_topics_def split: outcome.splits)
  have s: "tasks s = zs @ ts" "current_topics s = sorted_topics (arc_val initial)" "queue s = []" "running s"
    using assms zs spawn res by (auto simp: run_start_def subscribe_to_topics_def)
  with spawn_sensors_Ok [of Z "sorted_topics (arc_val initial)" "[]" ts] spawn res sorted_topics_sorted
  show ?thesis by (fastforce simp: engine_ok_def listening_def CHANNEL_CAPACITY_def)
qed

text \<open>
  C26: the sample channel is bounded and the subscription set is never ahead of the subscriptions.
  In every state the loop reaches from a started engine, at most 256 samples wait, and every topic
  the engine believes to be subscribed has a live task on it.
\<close>

theorem engine_subscriptions_live:
  assumes "run_start Z initial = Ok start"
    and "s = foldl (\<lambda>s e. fst (loop_step L from_slice Z s e)) start es"
  shows "length (queue s) \<le> 256 \<and> (\<forall>topic \<in> set (current_topics s). listening s topic)"
proof -
  have "engine_ok s"
    unfolding assms(2) by (rule loop.inv_run) (simp add: run_start_ok [OF assms(1)])
  then show ?thesis by (simp add: engine_ok_def CHANNEL_CAPACITY_def)
qed

lemma demo_start:
  "run_start demo_zenoh (Arc 1 \<lparr>rules_list = [demo_rule [demo_trigger ''sensor/a'' Edge] []]\<rparr>) =
     Ok \<lparr>eval = eval_state_empty\<lparr>last_rules := Some (Arc 1 \<lparr>rules_list = [demo_rule [demo_trigger ''sensor/a'' Edge] []]\<rparr>)\<rparr>,
         tasks = [ZoneTask (DataSub ''zone/*/entered''), ZoneTask (DataSub ''zone/*/cleared''),
                  SensorTask (DataSub ''sensor/a'') ''sensor/a''],
         current_topics = [''sensor/a''], queue = [], eval_counter = 0, running = True\<rparr>"
proof -
  have "pattern_try_new ZONE_ENTERED_PATTERN = Ok (Pattern ''zone/*/entered'')"
    "pattern_try_new ZONE_CLEARED_PATTERN = Ok (Pattern ''zone/*/cleared'')"
    "pattern_try_new ''sensor/a'' = Ok (Pattern ''sensor/a'')"
    "\<not> sublist ''liveliness'' ''sensor/a''" "\<not> sublist ''liveliness'' ''zone/*/entered''"
    "\<not> sublist ''liveliness'' ''zone/*/cleared''"
    by code_simp+
  then show ?thesis
    by (simp add: run_start_def zone_subscriptions_def subscribe_def subscribe_to_topics_def sorted_topics_def
        collect_topics_def demo_rule_def demo_trigger_def demo_zenoh_def subscription_for_def Let_def)
qed

theorem engine_subscriptions_live_witness:
  "\<exists>start. run_start demo_zenoh (Arc 1 \<lparr>rules_list = [demo_rule [demo_trigger ''sensor/a'' Edge] []]\<rparr>) = Ok start \<and>
     (\<forall>topic \<in> set (current_topics start). listening start topic)"
  using demo_start
    engine_subscriptions_live [OF demo_start, where es = "[]" and L = f64_serde and from_slice = "\<lambda>_. None",
      OF foldl.simps(1) [symmetric]]
  by blast

lemma spawn_sensors_succeeds:
  "(\<And>topic. topic \<in> set topics \<Longrightarrow> \<exists>p. pattern_try_new topic = Ok p) \<Longrightarrow> (\<And>sub. z_declare Z sub) \<Longrightarrow>
     fst (spawn_sensors Z topics ts) = Ok ()"
proof (induction topics arbitrary: ts)
  case (Cons t topics)
  obtain p where "pattern_try_new t = Ok p" using Cons.prems(1) by force
  moreover have "fst (spawn_sensors Z topics us) = Ok ()" for us
    by (rule Cons.IH) (use Cons.prems in auto)
  ultimately show ?case
    by (simp add: subscribe_def Let_def Cons.prems(2))
qed simp

text \<open>
  C30: a rebuild follows the ruleset. When the watch channel announces a ruleset whose trigger topics
  are valid patterns and the session accepts the subscriptions, the engine listens to every trigger
  topic of that ruleset afterwards, and the tasks of the previous ruleset are still there.
\<close>

theorem rebuild_follows_ruleset:
  assumes "engine_ok s" and "running s" and "\<And>sub. z_declare Z sub"
    and "\<And>t. t \<in> (\<Union>r \<in> set (rules_list (arc_val a)). tr_topic ` set (guard_triggers (rule_when r))) \<Longrightarrow>
           \<exists>p. pattern_try_new t = Ok p"
  shows "let s' = fst (loop_step L from_slice Z s (StoreChanged True a))
    in (\<forall>r \<in> set (rules_list (arc_val a)). \<forall>t \<in> set (guard_triggers (rule_when r)). listening s' (tr_topic t))
       \<and> set (tasks s) \<subseteq> set (tasks s')"
proof -
  let ?s' = "rebuild Z s (arc_val a)"
  have spawn: "fst (spawn_sensors Z (sorted_topics (arc_val a)) (tasks s)) = Ok ()"
    by (rule spawn_sensors_succeeds) (use assms(3,4) in \<open>simp_all only: set_sorted_topics\<close>)
  then have topics: "current_topics ?s' = sorted_topics (arc_val a)"
    by (auto simp: rebuild_def subscribe_to_topics_def Let_def case_prod_beta)
  have "set (tasks s) \<subseteq> set (tasks ?s')"
    using spawn_sensors_grows [of "tasks s" Z "sorted_topics (arc_val a)"]
    by (simp add: rebuild_def subscribe_to_topics_def Let_def case_prod_beta)
  moreover have "listening ?s' topic" if "topic \<in> set (sorted_topics (arc_val a))" for topic
    using rebuild_ok [OF assms(1), of Z "arc_val a"] topics that by (simp add: engine_ok_def)
  ultimately show ?thesis
    using assms(2) by (auto simp: set_sorted_topics)
qed

theorem rebuild_follows_ruleset_witness:
  "listening (fst (loop_step f64_serde (\<lambda>_. None) demo_zenoh demo_engine
     (StoreChanged True (Arc 1 \<lparr>rules_list = [demo_rule [demo_trigger ''sensor/a'' Edge] []]\<rparr>)))) ''sensor/a''"
proof -
  have "pattern_try_new ''sensor/a'' = Ok (Pattern ''sensor/a'')" by code_simp
  then show ?thesis
    using rebuild_follows_ruleset [of demo_engine demo_zenoh
        "Arc 1 \<lparr>rules_list = [demo_rule [demo_trigger ''sensor/a'' Edge] []]\<rparr>" f64_serde "\<lambda>_. None"]
    by (simp add: engine_ok_def demo_engine_def demo_zenoh_def demo_rule_def demo_trigger_def
        CHANNEL_CAPACITY_def Let_def del: loop_step.simps)
qed

lemma spawn_sensors_fails:
  "topic \<in> set topics \<Longrightarrow> (\<And>p. pattern_try_new topic \<noteq> Ok p) \<Longrightarrow> fst (spawn_sensors Z topics ts) \<noteq> Ok ()"
  by (induction topics arbitrary: ts) (auto split: outcome.split)

lemma spawn_sensors_no_panic: "fst (spawn_sensors Z topics ts) \<noteq> Panic"
  by (induction topics arbitrary: ts) (auto simp: subscribe_def Let_def split: outcome.split)

lemma zone_subscriptions_no_panic: "zone_subscriptions Z \<noteq> Panic"
proof -
  have "pattern_try_new ZONE_ENTERED_PATTERN = Ok (Pattern ''zone/*/entered'')"
    "pattern_try_new ZONE_CLEARED_PATTERN = Ok (Pattern ''zone/*/cleared'')"
    by code_simp+
  then show ?thesis by (auto simp: zone_subscriptions_def bind_out_Panic subscribe_def Let_def)
qed

text \<open>
  readiness does not mean subscribed. If the initial ruleset names a trigger topic that is not a
  valid pattern, \<open>run_engine\<close> returns an error without listening to it, and the readiness gate is
  set nevertheless, because the dropped oneshot sender wakes the task that sets it.
\<close>

theorem ready_without_subscriptions:
  assumes "r \<in> set (rules_list (arc_val initial))" and "t \<in> set (guard_triggers (rule_when r))"
    and "\<And>p. pattern_try_new (tr_topic t) \<noteq> Ok p"
  shows "\<exists>e. run_engine Z initial = (Err e, True)"
proof -
  have "tr_topic t \<in> set (sorted_topics (arc_val initial))"
    using assms(1,2) by (auto simp: set_sorted_topics)
  from spawn_sensors_fails [OF this assms(3), of Z "[]"]
    spawn_sensors_no_panic [of Z "sorted_topics (arc_val initial)" "[]"]
  obtain e ts where "spawn_sensors Z (sorted_topics (arc_val initial)) [] = (Err e, ts)"
    by (cases "spawn_sensors Z (sorted_topics (arc_val initial)) []"; cases "fst (spawn_sensors Z (sorted_topics (arc_val initial)) [])")
      auto
  then have "\<exists>e. run_start Z initial = Err e"
    using zone_subscriptions_no_panic [of Z]
    by (cases "zone_subscriptions Z") (auto simp: run_start_def subscribe_to_topics_def)
  then show ?thesis by (auto simp: run_engine_def Let_def)
qed

theorem ready_without_subscriptions_witness:
  "\<exists>e. run_engine demo_zenoh (Arc 1 \<lparr>rules_list = [demo_rule [demo_trigger ''robot//local/zone'' Edge] []]\<rparr>) =
     (Err e, True)"
proof -
  have p: "pattern_try_new ''robot//local/zone'' \<noteq> Ok p" for p
    by (simp add: pattern_try_new_def sublist_def) (metis append_Cons append_Nil)
  show ?thesis
    by (rule ready_without_subscriptions [where t = "demo_trigger ''robot//local/zone'' Edge"
          and r = "demo_rule [demo_trigger ''robot//local/zone'' Edge] []"])
      (use p in \<open>simp_all add: demo_rule_def demo_trigger_def\<close>)
qed

end
