(* ===== verification/Health.thy ===== *)
theory Health
  imports Prelude "HOL-Library.Word"
begin

text \<open>
  \<open>src/health.rs\<close>: the readiness gate with its HTTP routes, the one-shot liveness probe and the
  supervisor. The probe's network is the record \<open>tcp\<close>: what connecting gives, whether a write succeeds
  and what the successive reads return; the supervisor sees when each task ends, if ever.
\<close>

section \<open>The readiness gate\<close>

record ready_gate =
  rg_ready :: bool
  eval_total :: "64 word"

definition gate_new :: ready_gate where
  "gate_new = \<lparr>rg_ready = False, eval_total = 0\<rparr>"

definition set_ready :: "ready_gate \<Rightarrow> ready_gate" where
  "set_ready g = g\<lparr>rg_ready := True\<rparr>"

definition is_ready :: "ready_gate \<Rightarrow> bool" where
  "is_ready g = rg_ready g"

definition newline :: string where
  "newline = [CHR 0x0A]"

text \<open>\<open>uptime\<close> is the rendering of the elapsed seconds with three decimals.\<close>

definition metrics_text :: "string \<Rightarrow> ready_gate \<Rightarrow> string" where
  "metrics_text uptime g =
     ''# HELP flo_uptime_seconds seconds since the process started'' @ newline @
     ''# TYPE flo_uptime_seconds gauge'' @ newline @
     ''flo_uptime_seconds '' @ uptime @ newline @
     ''# HELP flo_process_ready 1 once flo has started and declared its subsystems (ready probe == 200)'' @ newline @
     ''# TYPE flo_process_ready gauge'' @ newline @
     ''flo_process_ready '' @ (if rg_ready g then ''1'' else ''0'') @ newline @
     ''# HELP flo_rule_eval_total cumulative 50ms engine re-evaluation ticks'' @ newline @
     ''# TYPE flo_rule_eval_total counter'' @ newline @
     ''flo_rule_eval_total '' @ show_nat (unat (eval_total g)) @ newline"

datatype status = OK | ServiceUnavailable | NotFound

text \<open>The routes of \<open>router\<close>: status and body of a GET request; axum answers any other path with 404.\<close>

definition respond :: "string \<Rightarrow> ready_gate \<Rightarrow> string \<Rightarrow> status \<times> string" where
  "respond uptime g path =
     (if path = ''/healthz'' then (OK, [])
      else if path = ''/readyz'' then (if rg_ready g then OK else ServiceUnavailable, [])
      else if path = ''/metrics'' then (OK, metrics_text uptime g)
      else (NotFound, []))"

text \<open>
  \<open>serve\<close>: an address that cannot be bound is an error; otherwise the call never returns, as
  \<open>axum::serve\<close> does not. \<open>None\<close> is a future that never resolves.
\<close>

definition serve_health :: "(string \<Rightarrow> bool) \<Rightarrow> string \<Rightarrow> (string, unit) outcome option" where
  "serve_health bind addr = (if bind addr then None else Some (Err addr))"

section \<open>The liveness probe\<close>

definition rsplit_once :: "char \<Rightarrow> string \<Rightarrow> (string \<times> string) option" where
  "rsplit_once c s =
     (if c \<in> set s
      then Some (rev (tl (dropWhile (\<lambda>x. x \<noteq> c) (rev s))), rev (takeWhile (\<lambda>x. x \<noteq> c) (rev s)))
      else None)"

definition is_digit :: "char \<Rightarrow> bool" where
  "is_digit c \<longleftrightarrow> (let n = (of_char c :: nat) in 48 \<le> n \<and> n \<le> 57)"

definition decimal :: "string \<Rightarrow> nat" where
  "decimal ds = foldl (\<lambda>n c. 10 * n + ((of_char c :: nat) - 48)) 0 ds"

text \<open>\<open>str::parse::<u16>\<close>.\<close>

definition parse_u16 :: "string \<Rightarrow> 16 word option" where
  "parse_u16 s =
     (let ds = (case s of [] \<Rightarrow> [] | c # r \<Rightarrow> if c = CHR ''+'' then r else s)
      in if ds \<noteq> [] \<and> list_all is_digit ds \<and> decimal ds < 2 ^ 16 then Some (of_nat (decimal ds)) else None)"

record stream =
  can_write :: bool
  reads :: "string option list" \<comment> \<open>\<open>Some []\<close>: end of the stream; \<open>None\<close>: an error or the timeout\<close>

record 'ip tcp =
  ip_of :: "string \<Rightarrow> 'ip option" \<comment> \<open>\<open>IpAddr::from_str\<close>\<close>
  localhost :: 'ip
  connect :: "'ip \<Rightarrow> 16 word \<Rightarrow> string \<Rightarrow> stream option" \<comment> \<open>the stream, given the request written to it\<close>

fun read_head :: "string \<Rightarrow> string option list \<Rightarrow> string" where
  "read_head received [] = received"
| "read_head received (None # rs) = received"
| "read_head received (Some bytes # rs) =
     (if bytes = [] then received
      else let received' = received @ bytes
        in if CHR 0x0A \<in> set received' then received'
           else if 512 \<le> length received' then received'
           else read_head received' rs)"

text \<open>\<open>str::lines().next()\<close>.\<close>

definition first_line :: "string \<Rightarrow> string option" where
  "first_line s =
     (if s = [] then None
      else let l = takeWhile (\<lambda>c. c \<noteq> CHR 0x0A) s
        in Some (if CHR 0x0A \<in> set s \<and> l \<noteq> [] \<and> last l = CHR 0x0D then butlast l else l))"

definition crlf :: string where
  "crlf = [CHR 0x0D, CHR 0x0A]"

definition probe :: "'ip tcp \<Rightarrow> (string \<Rightarrow> string) \<Rightarrow> string \<Rightarrow> bool" where
  "probe N utf8_lossy addr =
     (case rsplit_once CHR '':'' addr of
        None \<Rightarrow> False
      | Some (host, port_text) \<Rightarrow>
     (case parse_u16 port_text of
        None \<Rightarrow> False
      | Some port \<Rightarrow>
          (let target = (if host = ''0.0.0.0'' then ''127.0.0.1'' else host);
               ip = (case ip_of N target of Some a \<Rightarrow> a | None \<Rightarrow> localhost N);
               request = ''GET /healthz HTTP/1.1'' @ crlf @ ''Host: '' @ target @ '':'' @ show_nat (unat port) @ crlf
                         @ ''Connection: close'' @ crlf @ crlf
           in case connect N ip port request of
                None \<Rightarrow> False
              | Some s \<Rightarrow>
                  if \<not> can_write s then False
                  else (case first_line (utf8_lossy (read_head [] (reads s))) of
                          Some line \<Rightarrow> prefix ''HTTP/1.1 200'' line
                        | None \<Rightarrow> False))))"

section \<open>The supervisor\<close>

datatype task_exit = Exited | TaskPanicked

text \<open>A supervised task: its name and, if it ever ends, when and how.\<close>

type_synonym task_run = "string \<times> (nat \<times> task_exit) option"

text \<open>\<open>JoinSet::join_next\<close>: the task that ends first.\<close>

fun join_next :: "task_run list \<Rightarrow> (string \<times> nat \<times> task_exit) option" where
  "join_next [] = None"
| "join_next ((name, end) # ts) =
     (case (end, join_next ts) of
        (None, r) \<Rightarrow> r
      | (Some (t, e), None) \<Rightarrow> Some (name, t, e)
      | (Some (t, e), Some (name', t', e')) \<Rightarrow> if t \<le> t' then Some (name, t, e) else Some (name', t', e'))"

definition fatal_exit :: "string \<Rightarrow> task_exit \<Rightarrow> (string \<times> task_exit, unit) outcome" where
  "fatal_exit subsystem res = Err (subsystem, res)"

text \<open>\<open>None\<close>: the supervisor waits for ever.\<close>

definition await_shutdown :: "task_run list \<Rightarrow> (string \<times> task_exit, unit) outcome option" where
  "await_shutdown handles =
     (if handles = [] then Some (Ok ())
      else case join_next handles of
             Some (name, t, res) \<Rightarrow> Some (fatal_exit name res)
           | None \<Rightarrow> None)"

section \<open>Reading the status line\<close>

lemma read_head_prefix: "\<exists>n. read_head received rs = received @ concat (map the (take n rs))"
proof (induction received rs rule: read_head.induct)
  case (1 received)
  show ?case by (intro exI [of _ 0]) simp
next
  case (2 received rs)
  show ?case by (intro exI [of _ 0]) simp
next
  case (3 received bytes rs)
  show ?case
  proof (cases "bytes = [] \<or> CHR 0x0A \<in> set (received @ bytes) \<or> 512 \<le> length (received @ bytes)")
    case True
    then show ?thesis
      by (cases "bytes = []") (auto simp: Let_def intro: exI [of _ 0] exI [of _ 1])
  next
    case False
    with 3 obtain n where "read_head (received @ bytes) rs = (received @ bytes) @ concat (map the (take n rs))"
      by auto
    with False show ?thesis by (intro exI [of _ "Suc n"]) (simp add: Let_def)
  qed
qed

lemma read_head_bound:
  assumes "\<And>bytes. Some bytes \<in> set rs \<Longrightarrow> length bytes \<le> 512" and "length received < 512"
  shows "length (read_head received rs) < 1024"
  using assms
proof (induction received rs rule: read_head.induct)
  case (3 received bytes rs)
  have "length bytes \<le> 512" using "3.prems"(1) by simp
  then have "length (received @ bytes) < 1024" using "3.prems"(2) by simp
  moreover have "length (read_head (received @ bytes) rs) < 1024"
    if "bytes \<noteq> []" "CHR 0x0A \<notin> set (received @ bytes)" "\<not> 512 \<le> length (received @ bytes)"
    by (rule "3.IH" [OF that(1) refl that(2,3)]) (use "3.prems"(1) that in auto)
  ultimately show ?case using "3.prems"(2) by (simp add: Let_def)
qed auto

text \<open>
  However the response is cut into reads, the loop has the whole first line, as long as that line
  ends within the first 512 bytes.
\<close>

lemma read_head_line:
  assumes "\<And>r. r \<in> set rs \<Longrightarrow> \<exists>b. r = Some b \<and> b \<noteq> []"
    and "received @ concat (map the rs) = l @ CHR 0x0A # rest"
    and "CHR 0x0A \<notin> set l" and "length l < 512" and "CHR 0x0A \<notin> set received"
  shows "\<exists>tail. read_head received rs = l @ CHR 0x0A # tail \<and> prefix tail rest"
  using assms
proof (induction received rs rule: read_head.induct)
  case (1 received)
  then show ?case by auto
next
  case (2 received rs)
  then show ?case by force
next
  case (3 received bytes rs)
  from "3.prems"(1) have ne: "bytes \<noteq> []" by auto
  let ?r = "received @ bytes"
  have split: "?r @ concat (map the rs) = l @ CHR 0x0A # rest" using "3.prems"(2) by simp
  show ?case
  proof (cases "CHR 0x0A \<in> set ?r")
    case True
    from iffD1 [OF append_eq_append_conv2 split]
    consider (short) us where "?r @ us = l" "concat (map the rs) = us @ CHR 0x0A # rest"
      | (long) us where "?r = l @ us" "us @ concat (map the rs) = CHR 0x0A # rest"
      by blast
    then show ?thesis
    proof cases
      case short
      with True "3.prems"(3) have False by auto
      then show ?thesis ..
    next
      case long
      with True "3.prems"(3) obtain tail where "us = CHR 0x0A # tail" "tail @ concat (map the rs) = rest"
        by (cases us) auto
      with long ne True show ?thesis by (auto simp: Let_def prefix_def)
    qed
  next
    case False
    from iffD1 [OF append_eq_append_conv2 split]
    consider us where "?r @ us = l" | us where "?r = l @ us" "us @ concat (map the rs) = CHR 0x0A # rest"
      by blast
    then have "prefix ?r l"
    proof cases
      case (2 us)
      with False have "CHR 0x0A \<notin> set us" by auto
      with 2 have "us = []" by (cases us) auto
      with 2 show ?thesis by simp
    qed (auto simp: prefix_def)
    then have "length ?r < 512" using "3.prems"(4) prefix_length_le by fastforce
    with 3 False ne show ?thesis by (auto simp: Let_def)
  qed
qed

lemma first_line_crlf:
  assumes "CHR 0x0A \<notin> set l"
  shows "first_line (l @ CHR 0x0A # tail) = Some (if l \<noteq> [] \<and> last l = CHR 0x0D then butlast l else l)"
proof -
  have "takeWhile (\<lambda>c. c \<noteq> CHR 0x0A) (l @ CHR 0x0A # tail) = l"
    using assms by (subst takeWhile_append2) auto
  then show ?thesis by (simp add: first_line_def)
qed

lemma prefix_strip_cr:
  assumes "last p \<noteq> CHR 0x0D" and "p \<noteq> []"
  shows "prefix p (if l \<noteq> [] \<and> last l = CHR 0x0D then butlast l else l) \<longleftrightarrow> prefix p l"
proof (cases "l \<noteq> [] \<and> last l = CHR 0x0D")
  case True
  then have l: "l = butlast l @ [CHR 0x0D]" by (metis append_butlast_last_id)
  then have "p \<noteq> l" using assms True by auto
  with True l show ?thesis by (metis prefix_snoc)
qed auto

section \<open>Properties\<close>

definition ascii :: "string \<Rightarrow> bool" where
  "ascii s \<longleftrightarrow> (\<forall>c \<in> set s. (of_char c :: nat) < 128)"

text \<open>
  C37: the liveness probe sees the status line however it is fragmented. Against a server that accepts
  the connection and the request and answers in ASCII, in reads of any size, with a first line of
  less than 512 bytes, the probe succeeds exactly when that line starts with \<open>HTTP/1.1 200\<close>; and the
  loop never holds more than 1023 bytes.
\<close>

theorem probe_reads_status_line:
  assumes "rsplit_once CHR '':'' addr = Some (host, port_text)" and "parse_u16 port_text = Some port"
    and "\<And>ip request. connect N ip port request = Some s" and "can_write s"
    and "\<And>r. r \<in> set (reads s) \<Longrightarrow> \<exists>b. r = Some b \<and> b \<noteq> [] \<and> length b \<le> 512"
    and "concat (map the (reads s)) = l @ CHR 0x0A # rest" and "CHR 0x0A \<notin> set l" and "length l < 512"
    and "ascii (concat (map the (reads s)))" and "\<And>x. ascii x \<Longrightarrow> utf8_lossy x = x"
  shows "(probe N utf8_lossy addr \<longleftrightarrow> prefix ''HTTP/1.1 200'' l) \<and> length (read_head [] (reads s)) < 1024"
proof
  obtain tail where head: "read_head [] (reads s) = l @ CHR 0x0A # tail" and "prefix tail rest"
    using read_head_line [of "reads s" "[]" l rest] assms(5-8) by auto
  then have "ascii (read_head [] (reads s))"
    using assms(6,9) by (auto simp: ascii_def prefix_def)
  then have "utf8_lossy (read_head [] (reads s)) = l @ CHR 0x0A # tail"
    using assms(10) head by simp
  then show "probe N utf8_lossy addr \<longleftrightarrow> prefix ''HTTP/1.1 200'' l"
    using prefix_strip_cr [of "''HTTP/1.1 200''" l]
    by (simp add: probe_def assms(1-4) Let_def first_line_crlf [OF assms(7)])
  show "length (read_head [] (reads s)) < 1024"
    using read_head_bound [of "reads s" "[]"] assms(5) by fastforce
qed

definition demo_stream :: stream where
  "demo_stream = \<lparr>can_write = True, reads = [Some ''HTTP/1.'', Some (''1 200 OK'' @ crlf)]\<rparr>"

definition demo_tcp :: "unit tcp" where
  "demo_tcp = \<lparr>ip_of = (\<lambda>_. None), localhost = (), connect = (\<lambda>_ _ _. Some demo_stream)\<rparr>"

theorem probe_reads_status_line_witness: "probe demo_tcp (\<lambda>x. x) ''0.0.0.0:8080''"
proof -
  have addr: "rsplit_once CHR '':'' ''0.0.0.0:8080'' = Some (''0.0.0.0'', ''8080'')" by code_simp
  have port: "parse_u16 ''8080'' = Some 8080"
    by (simp add: parse_u16_def is_digit_def decimal_def)
  have conn: "connect demo_tcp ip 8080 request = Some demo_stream" for ip request
    by (simp add: demo_tcp_def)
  have parts: "\<exists>b. r = Some b \<and> b \<noteq> [] \<and> length b \<le> 512" if "r \<in> set (reads demo_stream)" for r
    using that by (auto simp: demo_stream_def crlf_def)
  have line: "concat (map the (reads demo_stream)) = (''HTTP/1.1 200 OK'' @ [CHR 0x0D]) @ CHR 0x0A # []"
    by (simp add: demo_stream_def crlf_def)
  have "ascii (concat (map the (reads demo_stream)))" by code_simp
  then have "probe demo_tcp (\<lambda>x. x) ''0.0.0.0:8080'' \<longleftrightarrow> prefix ''HTTP/1.1 200'' (''HTTP/1.1 200 OK'' @ [CHR 0x0D])"
    using probe_reads_status_line [OF addr port conn _ parts line, of "\<lambda>x. x"]
    by (simp add: demo_stream_def)
  then show ?thesis by simp
qed

lemma join_next_None: "join_next ts = None \<longleftrightarrow> (\<forall>(name, run) \<in> set ts. run = None)"
  by (induction ts rule: join_next.induct) (auto split: option.split prod.split)

lemma join_next_Some:
  "join_next ts = Some (name, t, res) \<Longrightarrow>
     (name, Some (t, res)) \<in> set ts \<and> (\<forall>name' t' res'. (name', Some (t', res')) \<in> set ts \<longrightarrow> t \<le> t')"
proof (induction ts arbitrary: name t res rule: join_next.induct)
  case (2 n run ts)
  show ?case
  proof (cases run)
    case None
    with 2 show ?thesis by auto
  next
    case (Some r)
    show ?thesis
    proof (cases "join_next ts")
      case None
      then have "(n', Some (t', r')) \<notin> set ts" for n' t' r'
        by (auto simp: join_next_None)
      with "2.prems" Some None show ?thesis by (cases r) auto
    next
      case (Some first)
      with \<open>run = Some r\<close> 2 show ?thesis
        by (cases r; cases first) (fastforce split: if_splits)
    qed
  qed
qed simp

text \<open>
  C38: no subsystem dies unnoticed. The supervisor of a non-empty set of tasks never returns success;
  it waits for ever exactly when no task ever ends, and otherwise returns an error that names a task
  that ended, cleanly or by a panic, no later than any other.
\<close>

theorem supervisor_reports_first_exit:
  assumes "handles \<noteq> []"
  shows "(await_shutdown handles = None \<longleftrightarrow> (\<forall>(name, run) \<in> set handles. run = None)) \<and>
    (\<forall>r. await_shutdown handles = Some r \<longrightarrow>
       (\<exists>name t res. r = Err (name, res) \<and> (name, Some (t, res)) \<in> set handles \<and>
          (\<forall>name' t' res'. (name', Some (t', res')) \<in> set handles \<longrightarrow> t \<le> t')))"
proof (cases "join_next handles")
  case None
  then have "\<forall>(name, run) \<in> set handles. run = None" by (simp only: join_next_None)
  with None assms show ?thesis by (simp add: await_shutdown_def)
next
  case (Some first)
  then obtain name t res where first: "join_next handles = Some (name, t, res)" by (cases first) auto
  from join_next_Some [OF first] first assms show ?thesis
    by (auto simp: await_shutdown_def fatal_exit_def)
qed

theorem supervisor_reports_first_exit_witness:
  "await_shutdown [(''health'', None), (''rule engine'', Some (5, TaskPanicked)), (''hot-reload'', Some (9, Exited))] =
     Some (Err (''rule engine'', TaskPanicked))"
  using supervisor_reports_first_exit
    [of "[(''health'', None), (''rule engine'', Some (5, TaskPanicked)), (''hot-reload'', Some (9, Exited))]"]
  by (auto simp: await_shutdown_def fatal_exit_def)

end
