(* ===== verification/Runtime.thy ===== *)
theory Runtime
  imports Auth Compiler Registration Engine_Run Health
begin

text \<open>
  \<open>src/runtime.rs\<close>: the client's start. \<open>bootstrap_runtime\<close> builds the authentication, loads
  configuration and ruleset with their fail-safe fallbacks, opens the session, declares liveliness and
  registers with the retry policy; its result comes with the trace of the effects it had. The file
  system, the session, the crates for TOML and JSON, the environment variable and the replies of the
  server are arguments.
\<close>

section \<open>Arguments\<close>

record args =
  arg_robot_id :: "string option"
  arg_config :: "string option"
  arg_ruleset :: "string option"
  arg_auth_mode :: string
  arg_allow_insecure :: bool
  arg_cert :: "string option"
  arg_key :: "string option"
  arg_trust :: "string option"
  arg_connect :: "string list"

text \<open>The crates the start-up calls, and the text of the bundled demo ruleset.\<close>

record 'n crates =
  cr_serde :: "'n serde"
  cr_readers :: "'n readers"
  cr_toml :: "'n toml_readers"
  cr_rules_to_toml :: "'n rules \<Rightarrow> (string, string) outcome"
  cr_config :: config_readers
  cr_to_json :: "'n json \<Rightarrow> string option"
  cr_demo :: string

datatype boot_error =
    InvalidAuthMode string auth_error
  | AuthInvalid auth_error
  | OpenFailed
  | TokenError transport_error
  | TimedOut
  | ClientRegistered
  | ClientPoisoned
  | ClientNotRegistered
  | RegistrationRejected string

definition robot_id_of :: "args \<Rightarrow> string option \<Rightarrow> string" where
  "robot_id_of a env =
     (case arg_robot_id a of Some r \<Rightarrow> r | None \<Rightarrow> (case env of Some r \<Rightarrow> r | None \<Rightarrow> ''7''))"

definition build_auth :: "filesystem \<Rightarrow> args \<Rightarrow> (boot_error, auth_config) outcome" where
  "build_auth F a =
     bind_out (map_err (InvalidAuthMode (arg_auth_mode a)) (parse_mode (arg_auth_mode a))) (\<lambda>mode.
     let auth = \<lparr>ac_mode = mode, allow_insecure = arg_allow_insecure a, ac_cert = arg_cert a,
                 ac_key = arg_key a, ac_trust = arg_trust a\<rparr>
     in bind_out (map_err AuthInvalid (validate_production F auth)) (\<lambda>_. Ok auth))"

section \<open>Loading the inputs\<close>

definition fail_safe_store :: "'n crates \<Rightarrow> nat \<Rightarrow> ('e, 'n active_rules) outcome" where
  "fail_safe_store K fresh = expect (bootstrap (cr_toml K) fresh (''rules = []'' @ newline))"

text \<open>\<open>str::replace\<close> for a pattern that is not empty.\<close>

function replace_all :: "string \<Rightarrow> string \<Rightarrow> string \<Rightarrow> string" where
  "replace_all pat rep [] = []"
| "replace_all pat rep (c # cs) =
     (if pat \<noteq> [] \<and> prefix pat (c # cs) then rep @ replace_all pat rep (drop (length pat) (c # cs))
      else c # replace_all pat rep cs)"
  by pat_completeness auto

termination replace_all
  by (relation "measure (\<lambda>(pat, rep, s). length s)") auto

definition bootstrap_demo :: "'n crates \<Rightarrow> nat \<Rightarrow> string \<Rightarrow> ('e, 'n active_rules) outcome" where
  "bootstrap_demo K fresh robot_id =
     bind_out (expect (rules_from_toml (cr_toml K) (replace_all ''{id}'' robot_id (cr_demo K))))
       (\<lambda>rls. Ok (ar_new (Arc fresh rls)))"

definition raw_rules_or_default :: "'n crates \<Rightarrow> nat \<Rightarrow> string \<Rightarrow> ('e, 'n active_rules) outcome" where
  "raw_rules_or_default K fresh toml_text =
     (case bootstrap (cr_toml K) fresh toml_text of
        Ok s \<Rightarrow> Ok s
      | Err e \<Rightarrow> fail_safe_store K fresh
      | Panic \<Rightarrow> Panic)"

definition compile_rules_or_default ::
  "'n crates \<Rightarrow> nat \<Rightarrow> string \<Rightarrow> string \<Rightarrow> ('e, 'n active_rules) outcome" where
  "compile_rules_or_default K fresh toml_text robot_id =
     (case parse_semantic (cr_readers K) toml_text of
        Ok doc \<Rightarrow>
          (case compile (cr_serde K) doc robot_id of
             Ok rls \<Rightarrow>
               bind_out (expect (cr_rules_to_toml K rls)) (\<lambda>compiled_text.
                 case bootstrap (cr_toml K) fresh compiled_text of
                   Ok s \<Rightarrow> Ok s
                 | Err e \<Rightarrow> raw_rules_or_default K fresh toml_text
                 | Panic \<Rightarrow> Panic)
           | Err e \<Rightarrow> raw_rules_or_default K fresh toml_text
           | Panic \<Rightarrow> Panic)
      | Err e \<Rightarrow> raw_rules_or_default K fresh toml_text
      | Panic \<Rightarrow> Panic)"

record 'n inputs =
  in_config :: "client_config option"
  in_store :: "'n active_rules"

definition load_client_config :: "filesystem \<Rightarrow> 'n crates \<Rightarrow> args \<Rightarrow> ('e, client_config option) outcome" where
  "load_client_config F K a =
     (case arg_config a of
        Some path \<Rightarrow>
          (case read_file F path of
             Some toml_text \<Rightarrow>
               (case client_from_toml (cr_config K) toml_text of
                  Ok cfg \<Rightarrow> Ok (Some cfg)
                | Err e \<Rightarrow> Ok None
                | Panic \<Rightarrow> Panic)
           | None \<Rightarrow> Ok None)
      | None \<Rightarrow> Ok None)"

definition load_store ::
  "filesystem \<Rightarrow> 'n crates \<Rightarrow> nat \<Rightarrow> args \<Rightarrow> string \<Rightarrow> client_config option \<Rightarrow> ('e, 'n active_rules) outcome" where
  "load_store F K fresh a robot_id config =
     (case arg_ruleset a of
        Some path \<Rightarrow>
          (case read_file F path of
             Some toml_text \<Rightarrow> compile_rules_or_default K fresh toml_text robot_id
           | None \<Rightarrow> fail_safe_store K fresh)
      | None \<Rightarrow> if config \<noteq> None then bootstrap_demo K fresh robot_id else fail_safe_store K fresh)"

definition load_inputs ::
  "filesystem \<Rightarrow> 'n crates \<Rightarrow> nat \<Rightarrow> args \<Rightarrow> string \<Rightarrow> ('e, 'n inputs) outcome" where
  "load_inputs F K fresh a robot_id =
     bind_out (load_client_config F K a) (\<lambda>config.
     bind_out (load_store F K fresh a robot_id config) (\<lambda>store.
     Ok \<lparr>in_config = config, in_store = store\<rparr>))"

section \<open>Registration with retries\<close>

definition REGISTRATION_RETRIES :: nat where
  "REGISTRATION_RETRIES = 3"

definition RETRY_BACKOFF_MS :: nat where
  "RETRY_BACKOFF_MS = 1000"

datatype boot_effect = OpenSession config | DeclareToken string | SendPut put | Sleep nat

text \<open>The loop over the attempts that remain; \<open>replies\<close> gives what each attempt awaits.\<close>

fun register_attempts ::
  "'n zenoh \<Rightarrow> 'n wire \<Rightarrow> string \<Rightarrow> client_config \<Rightarrow> (nat \<Rightarrow> awaited) \<Rightarrow> nat list
   \<Rightarrow> (boot_error, unit) outcome \<times> boot_effect list" where
  "register_attempts Z W robot_id cfg replies [] = (Ok (), [])"
| "register_attempts Z W robot_id cfg replies (attempt # rest) =
     (let (res, puts) = register_with_client Z W robot_id cfg (replies attempt);
          sent = map SendPut puts
      in case res of
           Ok _ \<Rightarrow> (Ok (), sent)
         | Err Timeout \<Rightarrow>
             if attempt < REGISTRATION_RETRIES then
               (let (res', trace) = register_attempts Z W robot_id cfg replies rest
                in (res', sent @ Sleep (RETRY_BACKOFF_MS * attempt) # trace))
             else (Err TimedOut, sent)
         | Err AlreadyRegistered \<Rightarrow> (Err ClientRegistered, sent)
         | Err PoisonedError \<Rightarrow> (Err ClientPoisoned, sent)
         | Err NotRegistered \<Rightarrow> (Err ClientNotRegistered, sent)
         | Err (ServerError e) \<Rightarrow> (Err (RegistrationRejected e), sent)
         | Panic \<Rightarrow> (Panic, sent))"

section \<open>Bootstrap\<close>

record 'n runtime =
  rt_store :: "'n active_rules"
  rt_health :: ready_gate

definition with_trace ::
  "('e, 'a) outcome \<Rightarrow> ('a \<Rightarrow> ('e, 'b) outcome \<times> boot_effect list) \<Rightarrow> ('e, 'b) outcome \<times> boot_effect list" where
  "with_trace x f = (case x of Ok a \<Rightarrow> f a | Err e \<Rightarrow> (Err e, []) | Panic \<Rightarrow> (Panic, []))"

definition bootstrap_runtime ::
  "filesystem \<Rightarrow> 'n crates \<Rightarrow> 'n zenoh \<Rightarrow> 'n wire \<Rightarrow> (config \<Rightarrow> bool) \<Rightarrow> nat \<Rightarrow> string option \<Rightarrow> (nat \<Rightarrow> awaited) \<Rightarrow> args
   \<Rightarrow> (boot_error, 'n runtime) outcome \<times> boot_effect list" where
  "bootstrap_runtime F K Z W open_session fresh env replies a =
     (let robot_id = robot_id_of a env in
      with_trace (build_auth F a) (\<lambda>auth.
      with_trace (load_inputs F K fresh a robot_id) (\<lambda>inputs.
      with_trace (map_err AuthInvalid (zenoh_config Z F (cr_to_json K) auth robot_id)) (\<lambda>base.
        let config = (if arg_connect a = [] then base else with_endpoints Z base (arg_connect a));
            opened = [OpenSession config]
        in if \<not> open_session config then (Err OpenFailed, opened)
        else case declare_liveliness Z [] robot_id of
          (Err e, _) \<Rightarrow> (Err (TokenError e), opened)
        | (Panic, _) \<Rightarrow> (Panic, opened)
        | (Ok _, tokens) \<Rightarrow>
            (let declared = opened @ map DeclareToken tokens;
                 runtime = \<lparr>rt_store = in_store inputs, rt_health = gate_new\<rparr>
             in case in_config inputs of
                  None \<Rightarrow> (Ok runtime, declared)
                | Some cfg \<Rightarrow>
                    (let (res, trace) =
                       register_attempts Z W robot_id cfg replies [1..<Suc REGISTRATION_RETRIES]
                     in (bind_out res (\<lambda>_. Ok runtime), declared @ trace)))))))"

text \<open>\<open>Runtime::supervise\<close> with the media feature, given when each subsystem ends.\<close>

definition supervise :: "(string \<Rightarrow> (nat \<times> task_exit) option) \<Rightarrow> (string \<times> task_exit, unit) outcome option" where
  "supervise ends =
     await_shutdown (map (\<lambda>name. (name, ends name)) [''health'', ''hot-reload'', ''rule engine'', ''signaling''])"

section \<open>Registration attempts\<close>

definition attempt_result ::
  "'n zenoh \<Rightarrow> 'n wire \<Rightarrow> string \<Rightarrow> client_config \<Rightarrow> (nat \<Rightarrow> awaited) \<Rightarrow> nat \<Rightarrow> (registration_error, unit) outcome" where
  "attempt_result Z W robot_id cfg replies k = fst (register_with_client Z W robot_id cfg (replies k))"

fun boot_verdict :: "(registration_error, unit) outcome \<Rightarrow> (boot_error, unit) outcome" where
  "boot_verdict (Ok u) = Ok ()"
| "boot_verdict (Err Timeout) = Err TimedOut"
| "boot_verdict (Err AlreadyRegistered) = Err ClientRegistered"
| "boot_verdict (Err PoisonedError) = Err ClientPoisoned"
| "boot_verdict (Err NotRegistered) = Err ClientNotRegistered"
| "boot_verdict (Err (ServerError e)) = Err (RegistrationRejected e)"
| "boot_verdict Panic = Panic"

definition sleeps :: "boot_effect list \<Rightarrow> nat list" where
  "sleeps trace = List.map_filter (\<lambda>e. case e of Sleep ms \<Rightarrow> Some ms | _ \<Rightarrow> None) trace"

definition sends :: "boot_effect list \<Rightarrow> put list" where
  "sends trace = List.map_filter (\<lambda>e. case e of SendPut p \<Rightarrow> Some p | _ \<Rightarrow> None) trace"

lemma trace_simps [simp]:
  "sleeps [] = []" "sends [] = []"
  "sleeps (xs @ ys) = sleeps xs @ sleeps ys" "sends (xs @ ys) = sends xs @ sends ys"
  "sleeps (Sleep ms # ys) = ms # sleeps ys" "sends (Sleep ms # ys) = sends ys"
  "sleeps (map SendPut ps) = []" "sends (map SendPut ps) = ps"
  by (simp_all add: sleeps_def sends_def map_filter_def comp_def)

lemma publish_one_put: "length (snd (publish Z t env)) \<le> 1"
  by (auto simp: publish_def send_put_def split: envelope.split option.split)

lemma request_one_put: "length (snd (request_response Z W req t key reply)) \<le> 1"
  using publish_one_put by (auto simp: request_response_def case_prod_beta Let_def split: option.split outcome.split)

lemma register_one_put: "length (snd (register_with_client Z W robot_id cfg reply)) \<le> 1"
  using request_one_put by (auto simp: register_with_client_def case_prod_beta Let_def)

lemma register_attempts_stop:
  assumes "register_with_client Z W robot_id cfg (replies k) = (r, puts)"
    and "r \<noteq> Err Timeout \<or> \<not> k < REGISTRATION_RETRIES"
  shows "register_attempts Z W robot_id cfg replies (k # rest) = (boot_verdict r, map SendPut puts)"
proof (cases r)
  case (Err e)
  with assms show ?thesis by (cases e) (auto simp: Let_def)
qed (use assms in \<open>auto simp: Let_def\<close>)

text \<open>The attempts end at the first answer that is not a timeout, or at the last attempt.\<close>

lemma register_attempts_cases:
  assumes "k + length rest = REGISTRATION_RETRIES" and "0 < k"
  shows "\<exists>n \<ge> k. n \<le> REGISTRATION_RETRIES \<and>
    (\<forall>i. k \<le> i \<and> i < n \<longrightarrow> attempt_result Z W robot_id cfg replies i = Err Timeout) \<and>
    (n < REGISTRATION_RETRIES \<longrightarrow> attempt_result Z W robot_id cfg replies n \<noteq> Err Timeout) \<and>
    (let (res, trace) = register_attempts Z W robot_id cfg replies [k..<Suc REGISTRATION_RETRIES] in
       res = boot_verdict (attempt_result Z W robot_id cfg replies n) \<and>
       sleeps trace = map ((*) RETRY_BACKOFF_MS) [k..<n] \<and> length (sends trace) \<le> Suc n - k)"
  using assms
proof (induction rest arbitrary: k)
  case Nil
  obtain r puts where r: "register_with_client Z W robot_id cfg (replies k) = (r, puts)" by fastforce
  have "length puts \<le> 1" using register_one_put [of Z W robot_id cfg "replies k"] r by simp
  with Nil r register_attempts_stop [of Z W robot_id cfg replies k, OF r] show ?case
    by (intro exI [of _ k]) (auto simp: attempt_result_def simp del: register_attempts.simps)
next
  case (Cons x rest)
  obtain r puts where r: "register_with_client Z W robot_id cfg (replies k) = (r, puts)" by fastforce
  have one: "length puts \<le> 1" using register_one_put [of Z W robot_id cfg "replies k"] r by simp
  have upt: "[k..<Suc REGISTRATION_RETRIES] = k # [Suc k..<Suc REGISTRATION_RETRIES]"
    using Cons.prems by (simp add: upt_conv_Cons)
  have less: "k < REGISTRATION_RETRIES" using Cons.prems by simp
  show ?case
  proof (cases "r = Err Timeout")
    case False
    with r one less upt register_attempts_stop [of Z W robot_id cfg replies k, OF r] show ?thesis
      by (intro exI [of _ k]) (auto simp: attempt_result_def simp del: register_attempts.simps)
  next
    case True
    have "Suc k + length rest = REGISTRATION_RETRIES" "0 < Suc k" using Cons.prems by simp_all
    from Cons.IH [OF this] obtain n where n: "Suc k \<le> n" "n \<le> REGISTRATION_RETRIES"
      "\<forall>i. Suc k \<le> i \<and> i < n \<longrightarrow> attempt_result Z W robot_id cfg replies i = Err Timeout"
      "n < REGISTRATION_RETRIES \<longrightarrow> attempt_result Z W robot_id cfg replies n \<noteq> Err Timeout"
      and run: "let (res, trace) = register_attempts Z W robot_id cfg replies [Suc k..<Suc REGISTRATION_RETRIES] in
       res = boot_verdict (attempt_result Z W robot_id cfg replies n) \<and>
       sleeps trace = map ((*) RETRY_BACKOFF_MS) [Suc k..<n] \<and> length (sends trace) \<le> Suc n - Suc k"
      by blast
    have "attempt_result Z W robot_id cfg replies i = Err Timeout" if "k \<le> i" "i < n" for i
      using n(3) that r True by (cases "i = k") (auto simp: attempt_result_def)
    moreover have "[k..<n] = k # [Suc k..<n]" using n(1) by (simp add: upt_conv_Cons)
    ultimately show ?thesis
      using n run one r True less upt
      by (intro exI [of _ n]) (auto simp: case_prod_beta Let_def)
  qed
qed

section \<open>Properties\<close>

text \<open>
  C23: registration is bounded. Whatever the server and the network do, bootstrap makes at most three
  attempts, each sending at most one request, and sleeps at most three seconds in all: it goes on only
  after a timeout, waits one second after the first and two after the second, and its result is the
  verdict of the last attempt it made.
\<close>

theorem registration_bounded:
  "let (res, trace) = register_attempts Z W robot_id cfg replies [1..<Suc REGISTRATION_RETRIES] in
     (\<exists>n \<in> {1, 2, 3}.
        (\<forall>i. 1 \<le> i \<and> i < n \<longrightarrow> attempt_result Z W robot_id cfg replies i = Err Timeout) \<and>
        (n < 3 \<longrightarrow> attempt_result Z W robot_id cfg replies n \<noteq> Err Timeout) \<and>
        res = boot_verdict (attempt_result Z W robot_id cfg replies n) \<and>
        sleeps trace = map ((*) 1000) [1..<n] \<and> length (sends trace) \<le> n)
     \<and> sum_list (sleeps trace) \<le> 3000"
proof -
  have three: "REGISTRATION_RETRIES = 3" by (simp add: REGISTRATION_RETRIES_def)
  have k: "1 + length [(), ()] = REGISTRATION_RETRIES" "0 < (1 :: nat)" by (simp_all add: three)
  obtain n where n: "1 \<le> n" "n \<le> 3"
    "\<forall>i. 1 \<le> i \<and> i < n \<longrightarrow> attempt_result Z W robot_id cfg replies i = Err Timeout"
    "n < 3 \<longrightarrow> attempt_result Z W robot_id cfg replies n \<noteq> Err Timeout"
    and run: "let (res, trace) = register_attempts Z W robot_id cfg replies [1..<Suc REGISTRATION_RETRIES] in
       res = boot_verdict (attempt_result Z W robot_id cfg replies n) \<and>
       sleeps trace = map ((*) 1000) [1..<n] \<and> length (sends trace) \<le> Suc n - 1"
    using register_attempts_cases [OF k, of Z W robot_id cfg replies]
    unfolding three RETRY_BACKOFF_MS_def by blast
  have n123: "n \<in> {1, 2, 3}" using n(1,2) by auto
  then have "sum_list (map ((*) 1000) [1..<n]) \<le> 3000" by (auto simp: numeral_3_eq_3 numeral_2_eq_2)
  with n n123 run show ?thesis by (auto simp: Let_def case_prod_beta)
qed

theorem registration_bounded_witness:
  "case register_attempts demo_mesh demo_wire ''7'' demo_config (\<lambda>k. if k < 2 then Elapsed else Arrived ''a'')
      [1..<Suc REGISTRATION_RETRIES] of
    (res, trace) \<Rightarrow> res = Ok () \<and> sleeps trace = [1000]"
proof -
  let ?replies = "\<lambda>k :: nat. if k < 2 then Elapsed else Arrived ''a''"
  have "attempt_result demo_mesh demo_wire ''7'' demo_config ?replies k = (if k < 2 then Err Timeout else Ok ())" for k
    using register_with_client_reply [OF demo_wire_documented, of "''7''" demo_config "?replies k"]
    by (simp add: attempt_result_def await_status_def demo_mesh_def) (simp add: demo_wire_def)
  with registration_bounded [of demo_mesh demo_wire "''7''" demo_config ?replies] show ?thesis
    by (auto simp: Let_def numeral_2_eq_2 REGISTRATION_RETRIES_def dest: spec [of _ "2 :: nat"])
qed

text \<open>
  C24: a broken ruleset is a safe ruleset. If the requested ruleset file cannot be read, or is neither
  a document that compiles nor a raw ruleset, or if no ruleset was requested and no valid client
  configuration was given, the inputs load all the same, with an empty ruleset; an engine that runs
  it fires no action in any state.
\<close>

theorem unusable_ruleset_is_safe:
  assumes "rules_from_toml (cr_toml K) (''rules = []'' @ newline) = Ok \<lparr>rules_list = []\<rparr>"
    and "(load_client_config F K a :: ('e, client_config option) outcome) = Ok config"
    and "case arg_ruleset a of
           None \<Rightarrow> config = None
         | Some path \<Rightarrow>
             (case read_file F path of
                None \<Rightarrow> True
              | Some toml_text \<Rightarrow>
                  (case parse_semantic (cr_readers K) toml_text of
                     Ok doc \<Rightarrow> \<exists>e. compile (cr_serde K) doc robot_id = Err e
                   | Err e \<Rightarrow> True
                   | Panic \<Rightarrow> False) \<and>
                  (\<exists>e. rules_from_toml (cr_toml K) toml_text = Err e))"
  shows "\<exists>store. (load_inputs F K fresh a robot_id :: ('e, 'n inputs) outcome) =
      Ok \<lparr>in_config = config, in_store = store\<rparr> \<and>
    rules_list (arc_val (current store)) = [] \<and> (\<forall>L s now. fst (tick_with_arc L s now (current store)) = [])"
proof -
  let ?store = "ar_new (Arc fresh \<lparr>rules_list = []\<rparr>)"
  have safe: "(fail_safe_store K fresh :: ('e, 'n active_rules) outcome) = Ok ?store"
    using assms(1) by (simp add: fail_safe_store_def bootstrap_def)
  have raw: "(raw_rules_or_default K fresh toml_text :: ('e, 'n active_rules) outcome) = Ok ?store"
    if "rules_from_toml (cr_toml K) toml_text = Err e" for toml_text e
    using that safe by (simp add: raw_rules_or_default_def bootstrap_def)
  have "(load_store F K fresh a robot_id config :: ('e, 'n active_rules) outcome) = Ok ?store"
    using assms(3) safe raw
    by (auto simp: load_store_def compile_rules_or_default_def split: option.splits outcome.splits)
  moreover have "fst (tick_with_arc L s now (Arc fresh \<lparr>rules_list = []\<rparr>)) = []" for L :: "'n serde" and s now
    by (simp add: tick_with_arc_def tick_inner_def Let_def case_prod_beta)
  ultimately show ?thesis
    using assms(2) by (simp add: load_inputs_def ar_new_def current_def)
qed

definition null_action :: "f64 semantic_action" where
  "null_action = \<lparr>sa_estop = False, sa_slow_to = None, sa_resume = False, sa_topic = Some ''stop/fleet/cmd'',
     sa_payload = None, sa_qos = Reliable\<rparr>"

definition null_doc :: "f64 rules_manifest" where
  "null_doc = (demo_doc (Fin 1))\<lparr>rm_rules := [\<lparr>sr_name = ''raw'', sr_when = demo_when (Fin 1), sr_actions = [null_action]\<rparr>]\<rparr>"

definition demo_crates :: "f64 crates" where
  "demo_crates = \<lparr>
     cr_serde = f64_serde,
     cr_readers = \<lparr>toml_manifest = (\<lambda>t. if t = ''s'' then Ok (demo_doc (Fin 1))
         else if t = ''n'' then Ok null_doc else Err ''not semantic''),
       json_manifest = (\<lambda>_. Err ''json''), toml_ruleset = (\<lambda>_. Err ''ruleset'')\<rparr>,
     cr_toml = \<lparr>rules_from_toml = (\<lambda>t. if t = ''rules = []'' @ newline then Ok \<lparr>rules_list = []\<rparr>
         else if t = ''c'' then Ok (demo_rules (Fin 1)) else Err ''not rules''),
       ruleset_from_toml = (\<lambda>_. Err ''ruleset''), utf8_lossy = (\<lambda>x. x)\<rparr>,
     cr_rules_to_toml = (\<lambda>rls. if \<exists>q \<in> set (rules_list rls). \<exists>act \<in> set (rule_actions q). act_payload act = JNull
       then Err ''unsupported unit type'' else Ok ''c''),
     cr_config = \<lparr>client_from_str = (\<lambda>_. Err ''config''), server_from_str = (\<lambda>_. Err ''config'')\<rparr>,
     cr_to_json = (\<lambda>_. Some ''x''),
     cr_demo = ''c''\<rparr>"

definition demo_args :: "string \<Rightarrow> args" where
  "demo_args path =
     \<lparr>arg_robot_id = Some ''7'', arg_config = None, arg_ruleset = Some path, arg_auth_mode = ''mtls'',
      arg_allow_insecure = False, arg_cert = Some ''c'', arg_key = Some ''k'', arg_trust = Some ''t'', arg_connect = []\<rparr>"

definition demo_disk :: filesystem where
  "demo_disk = \<lparr>file_exists = (\<lambda>_. True), read_file = (\<lambda>p. if p = ''lost'' then None else Some p)\<rparr>"

theorem unusable_ruleset_is_safe_witness:
  "\<exists>store. (load_inputs demo_disk demo_crates 1 (demo_args ''lost'') ''7'' :: (unit, f64 inputs) outcome) =
     Ok \<lparr>in_config = None, in_store = store\<rparr> \<and> rules_list (arc_val (current store)) = []"
  using unusable_ruleset_is_safe [of demo_crates demo_disk "demo_args ''lost''" None "''7''" 1]
  by (auto simp: demo_crates_def demo_disk_def demo_args_def load_client_config_def)

text \<open>
  the requested ruleset is what runs. If the ruleset file is a document that compiles, and the
  TOML crate reads back what it writes, the loaded store holds exactly the compiled rules; this does
  not depend on the client configuration: when that is missing or invalid the log announces an empty
  ruleset, but the rules are active.
\<close>

theorem requested_ruleset_runs:
  assumes "arg_ruleset a = Some path" and "read_file F path = Some toml_text"
    and "parse_semantic (cr_readers K) toml_text = Ok doc"
    and "compile (cr_serde K) doc robot_id = Ok rls"
    and "cr_rules_to_toml K rls = Ok compiled_text" and "rules_from_toml (cr_toml K) compiled_text = Ok rls"
    and "(load_client_config F K a :: ('e, client_config option) outcome) = Ok config"
  shows "(load_inputs F K fresh a robot_id :: ('e, 'n inputs) outcome) =
    Ok \<lparr>in_config = config, in_store = ar_new (Arc fresh rls)\<rparr>"
  by (simp add: load_inputs_def load_store_def compile_rules_or_default_def bootstrap_def assms)

theorem requested_ruleset_runs_witness:
  "(load_inputs demo_disk demo_crates 1 (demo_args ''s'') ''7'' :: (unit, f64 inputs) outcome) =
     Ok \<lparr>in_config = None, in_store = ar_new (Arc 1 (demo_rules (Fin 1)))\<rparr>"
proof -
  have "\<not> f64_le (Fin 1) (Fin 0)" by code_simp
  note compiled = demo_compiles [OF this]
  show ?thesis
    by (rule requested_ruleset_runs [where path = "''s''" and toml_text = "''s''" and doc = "demo_doc (Fin 1)"
          and compiled_text = "''c''"])
      (simp_all add: demo_args_def demo_disk_def demo_crates_def parse_semantic_def compiled load_client_config_def
        demo_rules_def newline_def)
qed

text \<open>
  C39: a raw action without payload crashes the start. The compiler gives such an action the payload
  null, which TOML cannot represent; the ruleset is accepted by validation and compilation, and then
  serialising it panics, so the client does not start in its fail-safe state but not at all.
\<close>

theorem null_payload_panics_startup:
  assumes "\<And>rls q act. q \<in> set (rules_list rls) \<Longrightarrow> act \<in> set (rule_actions q) \<Longrightarrow> act_payload act = JNull
      \<Longrightarrow> \<exists>e. cr_rules_to_toml K rls = Err e"
    and "compile (cr_serde K) doc robot_id = Ok rls"
    and "r \<in> set (rm_rules doc)" and "act \<in> set (sr_actions r)"
    and "sa_topic act \<noteq> None" and "sa_payload act = None"
    and "arg_ruleset a = Some path" and "read_file F path = Some toml_text"
    and "parse_semantic (cr_readers K) toml_text = Ok doc"
  shows "(load_store F K fresh a robot_id config :: ('e, 'n active_rules) outcome) = Panic"
proof -
  obtain i where i: "i < length (rm_rules doc)" "r = rm_rules doc ! i" using assms(3) by (auto simp: in_set_conv_nth)
  obtain j where j: "j < length (sr_actions r)" "act = sr_actions r ! j" using assms(4) by (auto simp: in_set_conv_nth)
  obtain spec where spec: "try_from_action act (sr_name r) = Ok spec"
    and out: "compile_action_from_spec (cr_serde K) spec act robot_id = Ok (rule_actions (rules_list rls ! i) ! j)"
    and len: "j < length (rule_actions (rules_list rls ! i))" "i < length (rules_list rls)"
    using compile_action_nth [OF assms(2) i j(1)] j(2) by metis
  have "verb_count act = 1" by (rule try_from_action_one_verb [OF spec])
  with spec assms(5,6) obtain t where "spec = Raw t JNull"
    by (auto simp: try_from_action_def verb_count_def split: if_splits option.splits)
  with out have "act_payload (rule_actions (rules_list rls ! i) ! j) = JNull"
    by (auto simp: compile_action_from_spec_def) (metis action.select_convs(3))
  then obtain e where "cr_rules_to_toml K rls = Err e"
    using assms(1) [of "rules_list rls ! i" rls "rule_actions (rules_list rls ! i) ! j"] len by auto
  then show ?thesis
    using assms(2,7-9) by (simp add: load_store_def compile_rules_or_default_def)
qed

lemma null_compiles: "\<exists>rls. compile f64_serde null_doc ''7'' = Ok rls"
proof -
  have "\<not> f64_le (Fin 1) (Fin 0)" by code_simp
  moreover have "topic_try_new ''stop/fleet/cmd'' = Ok (Topic ''stop/fleet/cmd'')" by code_simp
  ultimately show ?thesis
    by (simp add: compile_def validate_def validate_rule_def null_doc_def demo_doc_def demo_when_def null_action_def
        compile_rule_def compile_action_def compile_action_from_spec_def try_from_action_def
        verb_count_def build_when_expr.simps when_is_empty_def when_distances_def when_zones_def
        flatten_options_def map_filter_def leaf_triggers_def flat_conditions_def leaf_trigger_def
        combine_parts_def)
qed

theorem null_payload_panics_startup_witness:
  "(load_store demo_disk demo_crates 1 (demo_args ''n'') ''7'' None :: (unit, f64 active_rules) outcome) = Panic"
proof -
  obtain rls where "compile f64_serde null_doc ''7'' = Ok rls" using null_compiles ..
  then show ?thesis
    by (intro null_payload_panics_startup [where doc = null_doc and rls = rls and path = "''n''" and toml_text = "''n''"
          and r = "hd (rm_rules null_doc)" and act = null_action])
      (auto simp: demo_crates_def demo_args_def demo_disk_def parse_semantic_def null_doc_def null_action_def)
qed

definition authenticated_session ::
  "'n zenoh \<Rightarrow> filesystem \<Rightarrow> ('n json \<Rightarrow> string option) \<Rightarrow> args \<Rightarrow> string \<Rightarrow> config \<Rightarrow> bool" where
  "authenticated_session Z F to_json a robot_id c \<longleftrightarrow>
     (\<exists>auth. build_auth F a = Ok auth \<and>
        (ac_mode auth = AuthNone \<and> arg_allow_insecure a \<or>
         ac_mode auth = Mtls \<and> credentials F auth \<and>
         (\<exists>acl. (acl_config robot_id :: (auth_error, 'n json) outcome) = Ok acl \<and>
            (\<forall>(key, v) \<in> set (mtls_settings to_json auth acl). v \<noteq> None \<and>
               config_value c key = (if z_accepts Z key (the v) then v else None)))))"

lemma with_trace_simps [simp]:
  "with_trace (Ok a) f = f a" "with_trace (Err e) f = (Err e, [])" "with_trace Panic f = (Panic, [])"
  by (simp_all add: with_trace_def)

lemma build_auth_Ok:
  assumes "build_auth F a = Ok auth"
  shows "validate_production F auth = Ok auth" and "allow_insecure auth = arg_allow_insecure a"
  using assms by (auto simp: build_auth_def validate_production_Ok Let_def split: if_splits)

lemma endpoints_keep_settings:
  "(key, v) \<in> set (mtls_settings to_json auth acl) \<Longrightarrow> config_value (with_endpoints Z base es) key = config_value base key"
  by (auto simp: mtls_settings_def with_endpoints_def Let_def config_value_insert)

lemma auth_config_authenticated:
  fixes to_json :: "'n json \<Rightarrow> string option"
  assumes "build_auth F a = Ok auth" and "zenoh_config Z F to_json auth robot_id = Ok base"
  shows "authenticated_session Z F to_json a robot_id (if arg_connect a = [] then base else with_endpoints Z base (arg_connect a))"
proof -
  let ?c = "if arg_connect a = [] then base else with_endpoints Z base (arg_connect a)"
  note auth = build_auth_Ok [OF assms(1)]
  show ?thesis
  proof (cases "ac_mode auth")
    case Mtls
    with assms(2) have creds: "credentials F auth" and "mtls_config Z to_json auth robot_id = Ok base"
      by (simp_all add: zenoh_config_def check_credentials_Ok)
    from mtls_config_Ok [OF this(2)] obtain acl where
      acl: "(acl_config robot_id :: (auth_error, 'n json) outcome) = Ok acl"
      "\<forall>(key, v) \<in> set (mtls_settings to_json auth acl). v \<noteq> None \<and>
         config_value base key = (if z_accepts Z key (the v) then v else None)" by blast
    then have "\<forall>(key, v) \<in> set (mtls_settings to_json auth acl). v \<noteq> None \<and>
        config_value ?c key = (if z_accepts Z key (the v) then v else None)"
      using endpoints_keep_settings [of _ _ to_json auth acl Z base "arg_connect a"] by fastforce
    with acl(1) creds Mtls assms(1) show ?thesis unfolding authenticated_session_def by blast
  next
    case Ed25519
    with assms(2) show ?thesis by (auto simp: zenoh_config_def)
  next
    case AuthNone
    with auth assms(1) show ?thesis by (auto simp: authenticated_session_def validate_production_Ok)
  qed
qed

lemma declare_liveliness_token:
  assumes "fst (declare_liveliness Z [] robot_id) = Ok u"
  shows "snd (declare_liveliness Z [] robot_id) = [''robot/'' @ robot_id @ ''/client/liveliness'']"
proof -
  have key: "topic_str t = ''robot/'' @ robot_id @ ''/client/liveliness''"
    if "(liveliness_key robot_id :: (transport_error, topic) outcome) = Ok t" for t
    using that canonicalize_robot [of "robot_id @ ''/client/liveliness''"]
    unfolding liveliness_key_def expect_Ok topic_try_new_Ok by (metis topic.sel)
  show ?thesis
    using assms by (auto simp: declare_liveliness_def key split: outcome.splits if_splits)
qed

lemma register_attempts_trace:
  "e \<in> set (snd (register_attempts Z W robot_id cfg replies ks)) \<Longrightarrow> (\<exists>p. e = SendPut p) \<or> (\<exists>ms. e = Sleep ms)"
  by (induction ks)
    (auto simp: Let_def case_prod_beta split: outcome.splits registration_error.splits if_splits)

text \<open>
  C15: the client's session is authenticated, and nothing precedes it. In the trace of bootstrap the
  first effect, if there is any, opens the session, and its configuration either belongs to mode
  \<open>none\<close> with the explicit override, or the credentials were checked and each of the mTLS settings is in
  force that zenoh takes, also after the endpoints have been merged in; the second declares the liveliness token; only then are requests sent.
\<close>

theorem session_authenticated_first:
  "let trace = snd (bootstrap_runtime F K Z W open_session fresh env replies a) in
     trace = [] \<or>
     (\<exists>c rest. trace = OpenSession c # rest \<and> authenticated_session Z F (cr_to_json K) a (robot_id_of a env) c \<and>
        (rest = [] \<or>
         (\<exists>later. rest = DeclareToken (''robot/'' @ robot_id_of a env @ ''/client/liveliness'') # later \<and>
            (\<forall>e \<in> set later. (\<exists>p. e = SendPut p) \<or> (\<exists>ms. e = Sleep ms)))))"
proof -
  let ?id = "robot_id_of a env"
  let ?B = "bootstrap_runtime F K Z W open_session fresh env replies a"
  show ?thesis
  proof (cases "build_auth F a")
    case (Ok auth)
    show ?thesis
    proof (cases "load_inputs F K fresh a ?id :: (boot_error, 'a inputs) outcome")
      case inputs: (Ok inputs)
      show ?thesis
      proof (cases "zenoh_config Z F (cr_to_json K) auth ?id")
        case base: (Ok base)
        let ?c = "if arg_connect a = [] then base else with_endpoints Z base (arg_connect a)"
        have auth: "authenticated_session Z F (cr_to_json K) a ?id ?c" by (rule auth_config_authenticated [OF Ok base])
        have token: "snd (declare_liveliness Z [] ?id) = [''robot/'' @ ?id @ ''/client/liveliness'']"
          if "fst (declare_liveliness Z [] ?id) = Ok u" for u
          using that by (rule declare_liveliness_token)
        show ?thesis
          using auth token Ok inputs base
          by (cases "declare_liveliness Z [] ?id"; cases "fst (declare_liveliness Z [] ?id)")
            (auto simp: bootstrap_runtime_def Let_def case_prod_beta split: option.split dest: register_attempts_trace)
      qed (use Ok inputs in \<open>auto simp: bootstrap_runtime_def Let_def\<close>)
    qed (use Ok in \<open>auto simp: bootstrap_runtime_def Let_def\<close>)
  qed (auto simp: bootstrap_runtime_def Let_def)
qed

definition open_args :: args where
  "open_args = (demo_args ''lost'')\<lparr>arg_auth_mode := ''none'', arg_allow_insecure := True\<rparr>"

theorem session_authenticated_first_witness:
  "\<exists>c. snd (bootstrap_runtime demo_disk demo_crates demo_mesh demo_wire (\<lambda>_. True) 2 None (\<lambda>_. Elapsed) open_args) =
       [OpenSession c, DeclareToken ''robot/7/client/liveliness''] \<and> authenticated_session demo_mesh demo_disk (cr_to_json demo_crates) open_args ''7'' c"
proof -
  let ?trace = "snd (bootstrap_runtime demo_disk demo_crates demo_mesh demo_wire (\<lambda>_. True) 2 None (\<lambda>_. Elapsed) open_args)"
  have mode: "to_ascii_lowercase ''none'' = ''none''" by code_simp
  have auth: "build_auth demo_disk open_args = Ok \<lparr>ac_mode = AuthNone, allow_insecure = True, ac_cert = Some ''c'', ac_key = Some ''k'', ac_trust = Some ''t''\<rparr>"
    by (simp add: build_auth_def open_args_def demo_args_def parse_mode_def mode validate_production_def check_credentials_def)
  have key: "(liveliness_key ''7'' :: (transport_error, topic) outcome) = Ok (Topic ''robot/7/client/liveliness'')"
    by code_simp
  have args: "arg_connect open_args = []" "arg_config open_args = None" "arg_ruleset open_args = Some ''lost''"
    "arg_robot_id open_args = Some ''7''"
    by (simp_all add: open_args_def demo_args_def)
  have world: "read_file demo_disk ''lost'' = None" "z_token demo_mesh t"
    "rules_from_toml (cr_toml demo_crates) (''rules = []'' @ newline) = Ok \<lparr>rules_list = []\<rparr>" for t
    by (simp_all add: demo_disk_def demo_mesh_def demo_crates_def)
  have inputs: "load_inputs demo_disk demo_crates 2 open_args ''7'' =
      (Ok \<lparr>in_config = None, in_store = ar_new (Arc 2 \<lparr>rules_list = []\<rparr>)\<rparr> :: (boot_error, f64 inputs) outcome)"
    unfolding load_inputs_def load_client_config_def load_store_def fail_safe_store_def bootstrap_def args
    using world(3) by (simp add: world(1))
  have "\<exists>c. ?trace = [OpenSession c, DeclareToken ''robot/7/client/liveliness'']"
    by (simp add: bootstrap_runtime_def auth robot_id_of_def args inputs zenoh_config_def check_credentials_def
        declare_liveliness_def key world Let_def)
  then show ?thesis
    using session_authenticated_first [of demo_disk demo_crates demo_mesh demo_wire "\<lambda>_. True" 2 None "\<lambda>_. Elapsed" open_args]
    by (auto simp: Let_def robot_id_of_def args)
qed

end
