(* ===== verification/Cli.thy ===== *)
theory Cli
  imports Runtime
begin

text \<open>
  \<open>src/cli.rs\<close> and \<open>src/bin\<close>: the \<open>rule check\<close> and \<open>rule compile\<close> commands of the two
  binaries. A command's result says how the process ends and what it reports; the text of a report is
  data. \<open>clap\<close> parses the command line; \<open>pretty\<close> is \<open>serde_json::to_string_pretty\<close>.
\<close>

section \<open>The rule commands\<close>

datatype rule_subcommand =
    Check string bool \<comment> \<open>path, json\<close>
  | Compile string "string option" bool \<comment> \<open>path, robot id, json\<close>

datatype 'n report =
    SemanticOk string
  | RawOk string
  | Invalid "'n semantic_error"
  | ParseError "'n semantic_error"
  | CompileError "'n semantic_error"
  | Compiled string

text \<open>\<open>Finished\<close>: exit code 0; \<open>ExitOne\<close>: \<open>std::process::exit(1)\<close>; \<open>Returned\<close>: \<open>main\<close> returns the error.\<close>

datatype 'n cli_result = Finished bool "'n report" | ExitOne bool "'n report" | Returned string | Crashed

definition raw_rules :: "'n crates \<Rightarrow> string \<Rightarrow> 'n rules option" where
  "raw_rules K file_text =
     (case rules_from_toml (cr_toml K) file_text of
        Ok rls \<Rightarrow>
          if rules_list rls \<noteq> []
             \<and> (\<forall>r \<in> set (rules_list rls). when_all (rule_when r) \<noteq> [] \<or> when_any (rule_when r) \<noteq> [])
          then Some rls else None
      | _ \<Rightarrow> None)"

definition bad_topic :: "'n rules \<Rightarrow> trigger option" where
  "bad_topic rls =
     find (\<lambda>t. \<not> is_ok (topic_try_new (tr_topic t)))
       (concat (map (\<lambda>r. when_all (rule_when r) @ when_any (rule_when r)) (rules_list rls)))"

definition check_rules :: "'n crates \<Rightarrow> string \<Rightarrow> bool \<Rightarrow> string \<Rightarrow> 'n cli_result" where
  "check_rules K path json file_text =
     (case parse_semantic_auto (cr_readers K) file_text of
        Ok doc \<Rightarrow>
          (case validate doc of
             Ok _ \<Rightarrow> Finished json (SemanticOk path)
           | Err e \<Rightarrow>
               (if raw_rules K file_text \<noteq> None then Finished json (RawOk path) else ExitOne json (Invalid e))
           | Panic \<Rightarrow> Crashed)
      | Err e \<Rightarrow>
          (case raw_rules K file_text of
             Some rls \<Rightarrow>
               if bad_topic rls = None then Finished json (RawOk path) else ExitOne json (ParseError e)
           | None \<Rightarrow> ExitOne json (ParseError e))
      | Panic \<Rightarrow> Crashed)"

definition compile_rules :: "'n crates \<Rightarrow> ('n rules \<Rightarrow> string option) \<Rightarrow> string \<Rightarrow> string \<Rightarrow> 'n cli_result" where
  "compile_rules K pretty rid file_text =
     (case parse_semantic_auto (cr_readers K) file_text of
        Ok doc \<Rightarrow>
          (case compile (cr_serde K) doc rid of
             Ok rls \<Rightarrow> (case pretty rls of Some out \<Rightarrow> Finished False (Compiled out) | None \<Rightarrow> Crashed)
           | Err e \<Rightarrow> ExitOne False (CompileError e)
           | Panic \<Rightarrow> Crashed)
      | Err e \<Rightarrow> ExitOne False (ParseError e)
      | Panic \<Rightarrow> Crashed)"

definition run_rule_command ::
  "filesystem \<Rightarrow> 'n crates \<Rightarrow> ('n rules \<Rightarrow> string option) \<Rightarrow> rule_subcommand \<Rightarrow> 'n cli_result" where
  "run_rule_command F K pretty cmd =
     (case cmd of
        Check path json \<Rightarrow>
          (case read_file F path of
             None \<Rightarrow> Returned (''cannot read '' @ path)
           | Some file_text \<Rightarrow> check_rules K path json file_text)
      | Compile path robot_id _ \<Rightarrow>
          (let rid = (case robot_id of Some r \<Rightarrow> r | None \<Rightarrow> ''7'')
           in case read_file F path of
                None \<Rightarrow> Returned (''cannot read '' @ path)
              | Some file_text \<Rightarrow> compile_rules K pretty rid file_text))"

section \<open>What the commands promise\<close>

lemma compile_validates: "compile L doc robot_id = Ok rls \<Longrightarrow> validate doc = Ok ()"
  by (simp add: compile_Ok)

lemma compile_needs_site:
  assumes "validate doc = Ok ()" and "site_id (rm_site doc) = []"
  shows "compile L doc robot_id = Err (with_path (sem_error MissingField MSiteId) ''site.id'')"
  using assms by (simp add: compile_def)

text \<open>
  a check is necessary for compilation but not sufficient. Whatever file compiles for some robot
  also passes \<open>rule check\<close> as a semantic document; but a file that passes as a semantic document and has no
  site id fails to compile for every robot.
\<close>

theorem check_weaker_than_compile:
  assumes "read_file F path = Some file_text" and "parse_semantic_auto (cr_readers K) file_text = Ok doc"
  shows "((\<exists>rid rls. compile (cr_serde K) doc rid = Ok rls) \<longrightarrow>
      run_rule_command F K pretty (Check path json) = Finished json (SemanticOk path)) \<and>
    (run_rule_command F K pretty (Check path json) = Finished json (SemanticOk path) \<and> site_id (rm_site doc) = [] \<longrightarrow>
      (\<forall>rid. \<exists>e. se_code e = MissingField \<and>
         run_rule_command F K pretty (Compile path rid json) = ExitOne False (CompileError e)))"
proof (intro conjI impI allI)
  assume "\<exists>rid rls. compile (cr_serde K) doc rid = Ok rls"
  then show "run_rule_command F K pretty (Check path json) = Finished json (SemanticOk path)"
    using assms by (auto simp: run_rule_command_def check_rules_def dest: compile_validates)
next
  fix rid
  assume ok: "run_rule_command F K pretty (Check path json) = Finished json (SemanticOk path) \<and> site_id (rm_site doc) = []"
  then have "validate doc = Ok ()"
    using assms by (auto simp: run_rule_command_def check_rules_def split: outcome.splits if_splits)
  from compile_needs_site [OF this] ok assms show "\<exists>e. se_code e = MissingField \<and>
      run_rule_command F K pretty (Compile path rid json) = ExitOne False (CompileError e)"
    by (intro exI [of _ "with_path (sem_error MissingField MSiteId) ''site.id''"])
      (simp add: run_rule_command_def compile_rules_def with_path_def sem_error_def split: option.split)
qed

theorem check_weaker_than_compile_witness:
  "run_rule_command demo_disk demo_crates (\<lambda>_. Some ''{}'') (Check ''s'' False) = Finished False (SemanticOk ''s'')"
proof -
  have "\<not> f64_le (Fin 1) (Fin 0)" by code_simp
  note compiled = demo_compiles [OF this]
  have "guess_format ''s'' = Toml" by code_simp
  then have "parse_semantic_auto (cr_readers demo_crates) ''s'' = Ok (demo_doc (Fin 1))"
    by (simp add: parse_semantic_auto_def parse_semantic_def demo_crates_def)
  from check_weaker_than_compile [OF _ this, of demo_disk "''s''" "\<lambda>_. Some ''{}''" False] compiled
  show ?thesis by (auto simp: demo_disk_def demo_crates_def)
qed

text \<open>
  a JSON ruleset that passes every check never runs. The rule commands accept JSON as well as
  TOML, the client's loader reads TOML only. If the TOML crate rejects every text that starts with a
  brace, as its grammar demands, a JSON document that checks and compiles is replaced by the empty
  fail-safe ruleset when the client starts with it.
\<close>

theorem json_ruleset_checked_not_run:
  assumes "\<And>t. prefix ''{'' (trim t) \<Longrightarrow>
      (\<exists>e. toml_manifest (cr_readers K) t = Err e) \<and> (\<exists>e. rules_from_toml (cr_toml K) t = Err e)"
    and "rules_from_toml (cr_toml K) (''rules = []'' @ newline) = Ok \<lparr>rules_list = []\<rparr>"
    and "read_file F path = Some file_text" and "prefix ''{'' (trim file_text)"
    and "json_manifest (cr_readers K) file_text = Ok doc" and "compile (cr_serde K) doc robot_id = Ok rls"
    and "arg_ruleset a = Some path" and "pretty rls = Some out"
  shows "run_rule_command F K pretty (Check path json) = Finished json (SemanticOk path) \<and>
    run_rule_command F K pretty (Compile path (Some robot_id) json) = Finished False (Compiled out) \<and>
    (load_store F K fresh a robot_id config :: ('e, 'n active_rules) outcome) =
      Ok (ar_new (Arc fresh \<lparr>rules_list = []\<rparr>))"
proof -
  have parsed: "parse_semantic_auto (cr_readers K) file_text = Ok doc"
    using assms(4,5) by (simp add: parse_semantic_auto_def guess_format_def parse_semantic_json_def)
  obtain e e' where "toml_manifest (cr_readers K) file_text = Err e" "rules_from_toml (cr_toml K) file_text = Err e'"
    using assms(1) [OF assms(4)] by blast
  then have "(load_store F K fresh a robot_id config :: ('e, 'n active_rules) outcome) =
      Ok (ar_new (Arc fresh \<lparr>rules_list = []\<rparr>))"
    using assms(2,3,7)
    by (simp add: load_store_def compile_rules_or_default_def parse_semantic_def raw_rules_or_default_def
        bootstrap_def fail_safe_store_def)
  then show ?thesis
    using parsed assms(3,6,8) compile_validates [OF assms(6)]
    by (simp add: run_rule_command_def check_rules_def compile_rules_def)
qed

lemma trim_end_prefix: "prefix (trim_end s) s"
proof (induction s rule: trim_end.induct)
  case (1 s)
  show ?case
  proof (cases "find (\<lambda>w. suffix w s) white_space")
    case None
    then show ?thesis by (subst trim_end.simps) simp
  next
    case (Some w)
    have "prefix (trim_end (take (length s - length w) s)) s"
      using "1.IH" [OF Some] take_is_prefix prefix_order.order_trans by blast
    with Some show ?thesis by (subst trim_end.simps) simp
  qed
qed

lemma trim_starts:
  assumes "c \<notin> set (map hd white_space)" and "prefix p (trim (c # s))" and "p \<noteq> []"
  shows "hd p = c"
proof -
  have "\<not> prefix w (c # s)" if "w \<in> set white_space" for w
  proof
    assume "prefix w (c # s)"
    with white_space_ne [OF that] have "hd w = c" by (cases w) auto
    with that assms(1) show False by auto
  qed
  then have "find (\<lambda>w. prefix w (c # s)) white_space = None" by (simp add: find_None_iff)
  then have "trim_start (c # s) = c # s" by (subst trim_start.simps) simp
  with assms(2,3) trim_end_prefix [of "c # s"] show ?thesis
    by (auto simp: trim_def prefix_def Cons_eq_append_conv append_eq_Cons_conv)
qed

definition json_crates :: "f64 crates" where
  "json_crates = demo_crates\<lparr>cr_readers := (cr_readers demo_crates)\<lparr>json_manifest := (\<lambda>_. Ok (demo_doc (Fin 1)))\<rparr>\<rparr>"

theorem json_ruleset_checked_not_run_witness:
  "run_rule_command demo_disk json_crates (\<lambda>_. Some ''[]'') (Check ''{}'' False) = Finished False (SemanticOk ''{}'') \<and>
   (load_store demo_disk json_crates 1 (demo_args ''{}'') ''7'' None :: (unit, f64 active_rules) outcome) =
     Ok (ar_new (Arc 1 \<lparr>rules_list = []\<rparr>))"
proof -
  have "\<not> f64_le (Fin 1) (Fin 0)" by code_simp
  note compiled = demo_compiles [OF this]
  have plain: "CHR ''s'' \<notin> set (map hd white_space)" "CHR ''n'' \<notin> set (map hd white_space)"
    "CHR ''c'' \<notin> set (map hd white_space)" "CHR ''r'' \<notin> set (map hd white_space)"
    by (simp_all add: white_space_def char_of_def bit_0)
  have texts: "\<not> prefix ''{'' (trim ''s'')" "\<not> prefix ''{'' (trim ''n'')" "\<not> prefix ''{'' (trim ''c'')"
    "\<not> prefix ''{'' (trim (''rules = []'' @ newline))"
    using trim_starts [of "CHR ''s''" "''{''" "[]"] trim_starts [of "CHR ''n''" "''{''" "[]"]
      trim_starts [of "CHR ''c''" "''{''" "[]"] trim_starts [of "CHR ''r''" "''{''" "''ules = []'' @ newline"] plain
    by auto
  have toml: "(\<exists>e. toml_manifest (cr_readers json_crates) t = Err e) \<and> (\<exists>e. rules_from_toml (cr_toml json_crates) t = Err e)"
    if "prefix ''{'' (trim t)" for t
    using that texts by (auto simp: json_crates_def demo_crates_def)
  have brace: "prefix ''{'' (trim ''{}'')" by code_simp
  have files: "read_file demo_disk ''{}'' = Some ''{}''" by (simp add: demo_disk_def)
  have crates: "rules_from_toml (cr_toml json_crates) (''rules = []'' @ newline) = Ok \<lparr>rules_list = []\<rparr>"
    "json_manifest (cr_readers json_crates) ''{}'' = Ok (demo_doc (Fin 1))"
    "compile (cr_serde json_crates) (demo_doc (Fin 1)) ''7'' = Ok (demo_rules (Fin 1))"
    by (simp_all add: json_crates_def demo_crates_def compiled)
  have arg: "arg_ruleset (demo_args ''{}'') = Some ''{}''" by (simp add: demo_args_def)
  from json_ruleset_checked_not_run [where pretty = "\<lambda>_. Some ''[]''" and 'e = unit, OF toml crates(1) files brace
      crates(2,3) arg refl]
  show ?thesis by blast
qed

end
