(* ===== verification/Server.thy ===== *)
theory Server
  imports Cli
begin

text \<open>
  \<open>src/server.rs\<close> and \<open>src/bin\<close>: the start of the fleet server, the futures it supervises and the
  dispatch of the two binaries. The file system, zenoh and the database path are arguments; a future
  that never resolves is \<open>None\<close>.
\<close>

section \<open>Start\<close>

record server_args =
  sa_robot_id :: "string option"
  sa_config :: "string option"
  sa_auth_mode :: string
  sa_allow_insecure :: bool
  sa_cert :: "string option"
  sa_key :: "string option"
  sa_trust :: "string option"
  sa_connect :: "string list"

datatype server_error =
    ServerAuthMode string auth_error
  | ServerAuth auth_error
  | CannotReadConfig string
  | BadConfig string
  | ServerOpenFailed
  | RegistryFailed registry_error

record 'n server =
  srv_lease :: lease
  srv_store :: "'n active_rules"
  srv_registry :: registry
  srv_health :: ready_gate

definition load_server_config :: "filesystem \<Rightarrow> 'n crates \<Rightarrow> server_args \<Rightarrow> (server_error, server_config) outcome" where
  "load_server_config F K a =
     (case sa_config a of
        Some path \<Rightarrow>
          bind_out (ok_or (read_file F path) (CannotReadConfig path)) (\<lambda>config_text.
          map_err BadConfig (server_from_toml (cr_config K) config_text))
      | None \<Rightarrow> Ok \<lparr>expected_clients = []\<rparr>)"

text \<open>
  \<open>open_registry\<close> is what creating the directory and opening the database give. The trace holds the
  configuration of the session that was opened.
\<close>

definition run_server_start ::
  "'n zenoh \<Rightarrow> filesystem \<Rightarrow> 'n crates \<Rightarrow> (config \<Rightarrow> bool) \<Rightarrow> (registry_error, registry) outcome \<Rightarrow> nat \<Rightarrow> server_args \<Rightarrow> string
   \<Rightarrow> (server_error, 'n server) outcome \<times> config list" where
  "run_server_start Z F K open_session open_registry fresh a robot_id =
     (case bind_out (map_err (ServerAuthMode (sa_auth_mode a)) (parse_mode (sa_auth_mode a))) (\<lambda>mode.
             let auth = \<lparr>ac_mode = mode, allow_insecure = sa_allow_insecure a, ac_cert = sa_cert a,
                         ac_key = sa_key a, ac_trust = sa_trust a\<rparr>
             in bind_out (map_err ServerAuth (validate_production F auth)) (\<lambda>_.
                bind_out (map_err ServerAuth (zenoh_config Z F (cr_to_json K) auth robot_id)) (\<lambda>config.
                bind_out (load_server_config F K a) (\<lambda>server_config.
                Ok (config, server_config))))) of
        Err e \<Rightarrow> (Err e, [])
      | Panic \<Rightarrow> (Panic, [])
      | Ok (config, server_config) \<Rightarrow>
          if \<not> open_session config then (Err ServerOpenFailed, [config])
          else
            (bind_out (bootstrap_demo K fresh robot_id) (\<lambda>store.
             bind_out (map_err RegistryFailed open_registry) (\<lambda>registry.
             Ok \<lparr>srv_lease = lease_new server_config, srv_store = store, srv_registry = registry,
                 srv_health = gate_new\<rparr>)), [config]))"

section \<open>The supervised futures\<close>

text \<open>
  How a task of a handler ends: alive, it waits for samples for ever; a panic in the handler ends it at the
  time \<open>t\<close>. \<open>join_tasks\<close> is \<open>tokio::join!\<close>, which resolves when both tasks have ended, however they did.
\<close>

definition handler_task :: "nat \<Rightarrow> bool \<Rightarrow> (nat \<times> task_exit) option" where
  "handler_task t alive = (if alive then None else Some (t, TaskPanicked))"

definition join_tasks :: "(nat \<times> task_exit) option \<Rightarrow> (nat \<times> task_exit) option \<Rightarrow> nat option" where
  "join_tasks a b =
     (case (a, b) of (Some (t, _), Some (u, _)) \<Rightarrow> Some (max t u) | _ \<Rightarrow> None)"

text \<open>\<open>std::future::pending\<close>.\<close>

definition pending :: "(transport_error, unit) outcome option" where
  "pending = None"

text \<open>
  \<open>run_registration_handler\<close>, given the ends of the two tasks it spawns: a subscription that fails is its
  result; otherwise it awaits both tasks and then \<open>pending\<close>.
\<close>

definition run_registration_handler ::
  "'n zenoh \<Rightarrow> (nat \<times> task_exit) option \<Rightarrow> (nat \<times> task_exit) option \<Rightarrow> (transport_error, unit) outcome option" where
  "run_registration_handler Z reg_task dereg_task =
     (case bind_out (expect (pattern_try_new REGISTRATION_KEY)) (\<lambda>p.
           bind_out (subscribe Z p) (\<lambda>_.
           bind_out (expect (pattern_try_new DEREGISTRATION_KEY)) (\<lambda>q.
           bind_out (subscribe Z q) (\<lambda>_. Ok ())))) of
        Ok _ \<Rightarrow>
          (case join_tasks reg_task dereg_task of
             None \<Rightarrow> None
           | Some _ \<Rightarrow> pending)
      | Err e \<Rightarrow> Some (Err e)
      | Panic \<Rightarrow> Some Panic)"

text \<open>The task of the heartbeat monitor is detached: nothing awaits it.\<close>

definition run_heartbeat_monitor :: "'n zenoh \<Rightarrow> (transport_error, unit) outcome option" where
  "run_heartbeat_monitor Z =
     (case bind_out (expect (pattern_try_new LIVELINESS_PATTERN)) (\<lambda>p.
           bind_out (subscribe Z p) (\<lambda>_. Ok ())) of
        Ok _ \<Rightarrow> pending
      | Err e \<Rightarrow> Some (Err e)
      | Panic \<Rightarrow> Some Panic)"

text \<open>How the spawned task that logs the error of such a future ends, if the future resolves at time \<open>t\<close>.\<close>

definition task_end :: "nat \<Rightarrow> ('e, unit) outcome option \<Rightarrow> (nat \<times> task_exit) option" where
  "task_end t future =
     (case future of
        None \<Rightarrow> None
      | Some Panic \<Rightarrow> Some (t, TaskPanicked)
      | Some _ \<Rightarrow> Some (t, Exited))"

text \<open>The supervisor of a server in state \<open>s\<close>; what ended in a handler ended at \<open>t\<close>.\<close>

definition server_supervision ::
  "'n zenoh \<Rightarrow> server_state \<Rightarrow> (string \<Rightarrow> (nat \<times> task_exit) option) \<Rightarrow> nat \<Rightarrow> (string \<times> task_exit, unit) outcome option" where
  "server_supervision Z s ends t =
     await_shutdown
       [(''health'', ends ''health''), (''rule engine'', ends ''rule engine''), (''hot-reload'', ends ''hot-reload''),
        (''registration'',
         task_end t (run_registration_handler Z (handler_task t (reg_alive s)) (handler_task t (dereg_alive s)))),
        (''heartbeat'', task_end t (run_heartbeat_monitor Z))]"

section \<open>The binaries\<close>

datatype main_action =
    RunRule rule_subcommand
  | HealthProbe string
  | PrintLocators config
  | StartClient
  | StartServer string

text \<open>The configuration \<open>--print-zenoh-port\<close> opens a session with: endpoints are quoted by hand.\<close>

definition print_port_config :: "'n zenoh \<Rightarrow> config \<Rightarrow> string list \<Rightarrow> config" where
  "print_port_config Z config peers =
     (if peers \<noteq> []
      then insert_json5 Z (insert_json5 Z config ''mode'' (json_quote ''client''))
             ''connect/endpoints'' (''['' @ join_with CHR '','' (map json_quote peers) @ '']'')
      else config)"

record main_flags =
  cf_command :: "rule_subcommand option"
  cf_healthcheck :: bool
  cf_print_port :: bool

definition client_main ::
  "'n zenoh \<Rightarrow> filesystem \<Rightarrow> ('n json \<Rightarrow> string option) \<Rightarrow> main_flags \<Rightarrow> args \<Rightarrow> string option \<Rightarrow> string option
   \<Rightarrow> (boot_error, main_action) outcome" where
  "client_main Z F to_json flags a health_env id_env =
     (case cf_command flags of
        Some cmd \<Rightarrow> Ok (RunRule cmd)
      | None \<Rightarrow>
          if cf_healthcheck flags then
            Ok (HealthProbe (case health_env of Some addr \<Rightarrow> addr | None \<Rightarrow> ''127.0.0.1:8080''))
          else if cf_print_port flags then
            bind_out (build_auth F a) (\<lambda>auth.
            bind_out (map_err AuthInvalid (zenoh_config Z F to_json auth (robot_id_of a id_env))) (\<lambda>config.
            Ok (PrintLocators (print_port_config Z config (arg_connect a)))))
          else Ok StartClient)"

definition server_id_of :: "server_args \<Rightarrow> string option \<Rightarrow> string" where
  "server_id_of a env =
     (case sa_robot_id a of Some r \<Rightarrow> r | None \<Rightarrow> (case env of Some r \<Rightarrow> r | None \<Rightarrow> ''7''))"

definition server_main ::
  "'n zenoh \<Rightarrow> filesystem \<Rightarrow> ('n json \<Rightarrow> string option) \<Rightarrow> main_flags \<Rightarrow> server_args \<Rightarrow> string option \<Rightarrow> string option
   \<Rightarrow> (server_error, main_action) outcome" where
  "server_main Z F to_json flags a health_env id_env =
     (case cf_command flags of
        Some cmd \<Rightarrow> Ok (RunRule cmd)
      | None \<Rightarrow>
          if cf_healthcheck flags then
            Ok (HealthProbe (case health_env of Some addr \<Rightarrow> addr | None \<Rightarrow> ''127.0.0.1:8080''))
          else if cf_print_port flags then
            bind_out (map_err (ServerAuthMode (sa_auth_mode a)) (parse_mode (sa_auth_mode a))) (\<lambda>mode.
            let auth = \<lparr>ac_mode = mode, allow_insecure = sa_allow_insecure a, ac_cert = sa_cert a,
                        ac_key = sa_key a, ac_trust = sa_trust a\<rparr>
            in bind_out (map_err ServerAuth (validate_production F auth)) (\<lambda>_.
               bind_out (map_err ServerAuth (zenoh_config Z F to_json auth (server_id_of a id_env))) (\<lambda>config.
               Ok (PrintLocators config))))
          else Ok (StartServer (server_id_of a id_env)))"

section \<open>Properties\<close>

lemma server_patterns:
  "pattern_try_new REGISTRATION_KEY = Ok (Pattern ''fleet/registration'')"
  "pattern_try_new DEREGISTRATION_KEY = Ok (Pattern ''fleet/deregistration'')"
  "pattern_try_new LIVELINESS_PATTERN = Ok (Pattern ''robot/*/client/liveliness'')"
  by code_simp+

lemma server_futures_pending:
  assumes "\<And>sub. z_declare Z sub"
  shows "run_registration_handler Z reg_task dereg_task = None" and "run_heartbeat_monitor Z = None"
proof -
  have "subscribe Z p = Ok (subscription_for (pattern_str p))" for p
    using assms by (simp add: subscribe_def)
  then show "run_registration_handler Z reg_task dereg_task = None" and "run_heartbeat_monitor Z = None"
    by (simp_all add: run_registration_handler_def run_heartbeat_monitor_def server_patterns pending_def split: option.split)
qed

text \<open>
  C33: a dead registration goes unnoticed. A request whose robot id contains a slash kills the registration
  task of the server: no later request is answered or recorded. The supervisor still waits for ever as long
  as the subscriptions were accepted and the other three subsystems run, even when the deregistration task
  has died the same way: the future that awaits both tasks goes on to one that never resolves.
\<close>

theorem dead_registration_unnoticed:
  assumes "\<And>sub. z_declare Z sub" and "reg_alive s"
    and "request_of W bytes = Some (RegisterReq robot_id config)" and "CHR ''/'' \<in> set robot_id"
    and "ends ''health'' = None" and "ends ''rule engine'' = None" and "ends ''hot-reload'' = None"
  shows "let s' = fst (handle_registration Z W s bytes) in
    \<not> reg_alive s' \<and> (\<forall>later. handle_registration Z W s' later = (s', [])) \<and>
    server_supervision Z s' ends t = None \<and> server_supervision Z (s'\<lparr>dereg_alive := False\<rparr>) ends t = None"
proof -
  let ?s = "fst (handle_registration Z W s bytes)"
  have dead: "\<not> reg_alive ?s"
    using assms(2-4) by (auto simp: handle_registration_def Let_def case_prod_beta)
  moreover have "handle_registration Z W ?s later = (?s, [])" for later
    using dead by (simp add: handle_registration_def)
  moreover have "server_supervision Z s' ends t = None" for s'
    using assms(5-7) server_futures_pending [OF assms(1)]
    by (simp add: server_supervision_def await_shutdown_def task_end_def)
  ultimately show ?thesis by (simp add: Let_def)
qed

theorem dead_registration_unnoticed_witness:
  "let s' = fst (handle_registration demo_mesh demo_wire demo_server ''rcell/7'') in
     \<not> reg_alive s' \<and> server_supervision demo_mesh s' (\<lambda>_. None) 0 = None"
  using dead_registration_unnoticed [of demo_mesh demo_server demo_wire "''rcell/7''" "''cell/7''" demo_config "\<lambda>_. None" 0]
  by (simp add: demo_mesh_def demo_server_def demo_wire_def Let_def)

end
