(* ===== verification/Node.thy ===== *)
theory Node
  imports Engine_Run Config
begin

text \<open>
  A running node, client or server: the hot-reload task and the rule engine that
  \<open>start_common_subsystems\<close> (\<open>src/runtime.rs\<close>) and \<open>run_server\<close> (\<open>src/server.rs\<close>) spawn around one
  store. A step is one sample of the reload task or one branch of the engine's loop, which reads the
  watch channel of the store; the steps of the two tasks come in any order. The properties say where
  what a node publishes comes from.
\<close>

section \<open>The two tasks and their store\<close>

record 'n node =
  nd_reload :: "'n hot_reload"
  nd_reloading :: bool \<comment> \<open>the reload task is alive\<close>
  nd_engine :: "'n engine"
  nd_puts :: "put list" \<comment> \<open>what the engine published so far\<close>

datatype node_event =
    Reload reload_sample
  | TickAt nat
  | TakeAt nat
  | StoreWoke
  | Arrive task string string

definition watched :: "'n node \<Rightarrow> 'n rules arc" where
  "watched s = watch_value (hr_store (nd_reload s))"

definition engine_turn ::
  "'n serde \<Rightarrow> (string \<Rightarrow> 'n json option) \<Rightarrow> 'n zenoh \<Rightarrow> 'n node \<Rightarrow> 'n loop_event \<Rightarrow> 'n node" where
  "engine_turn L from_slice Z s e =
     (let (g, puts) = loop_step L from_slice Z (nd_engine s) e
      in s\<lparr>nd_engine := g, nd_puts := nd_puts s @ puts\<rparr>)"

text \<open>The sender of the watch channel lives in the store the engine holds, so \<open>changed()\<close> is never an error.\<close>

fun node_step ::
  "'n toml_readers \<Rightarrow> 'n digests \<Rightarrow> 'n serde \<Rightarrow> (string \<Rightarrow> 'n json option) \<Rightarrow> 'n zenoh \<Rightarrow> 'n node \<Rightarrow> node_event \<Rightarrow> 'n node" where
  "node_step T D L from_slice Z s (Reload sample) =
     (if nd_reloading s then
        (case (reload_step T D (nd_reload s) sample :: (unit, 'n hot_reload) outcome) of
           Ok h \<Rightarrow> s\<lparr>nd_reload := h\<rparr>
         | _ \<Rightarrow> s\<lparr>nd_reloading := False\<rparr>)
      else s)"
| "node_step T D L from_slice Z s (TickAt now) = engine_turn L from_slice Z s (TickDue now (watched s))"
| "node_step T D L from_slice Z s (TakeAt now) = engine_turn L from_slice Z s (Receive now)"
| "node_step T D L from_slice Z s StoreWoke = engine_turn L from_slice Z s (StoreChanged True (watched s))"
| "node_step T D L from_slice Z s (Arrive t key bytes) = engine_turn L from_slice Z s (Deliver t key bytes)"

text \<open>
  The start: \<open>run\<close> reads the current ruleset, subscribes its topics, and only then takes a receiver of
  the watch channel. The samples \<open>early\<close> are those the reload task handles in between.
\<close>

definition node_start ::
  "'n toml_readers \<Rightarrow> 'n digests \<Rightarrow> 'n serde \<Rightarrow> (string \<Rightarrow> 'n json option) \<Rightarrow> 'n zenoh \<Rightarrow> 'n hot_reload \<Rightarrow> reload_sample list
   \<Rightarrow> (run_error, 'n node) outcome" where
  "node_start T D L from_slice Z h early =
     bind_out (run_start Z (current (hr_store h))) (\<lambda>g.
       let s = foldl (node_step T D L from_slice Z)
                 \<lparr>nd_reload = h, nd_reloading = True, nd_engine = g, nd_puts = []\<rparr> (map Reload early)
       in Ok (s\<lparr>nd_reload := (nd_reload s)\<lparr>hr_store := subscribe_rules (hr_store (nd_reload s))\<rparr>\<rparr>))"

text \<open>
  What the reload task listens to: on a client the rules key of the robot, on a server the pattern of the
  fleet. \<open>key_expr\<close> tells which expressions zenoh accepts; a refused one is an \<open>unwrap\<close>.
\<close>

definition hot_reload_subscription :: "'n zenoh \<Rightarrow> string \<Rightarrow> (transport_error, subscription) outcome" where
  "hot_reload_subscription Z topic = bind_out (expect (pattern_try_new topic)) (subscribe Z)"

definition run_hot_reload ::
  "(string \<Rightarrow> bool) \<Rightarrow> 'n zenoh \<Rightarrow> string \<Rightarrow> (transport_error, subscription) outcome" where
  "run_hot_reload key_expr Z robot_id =
     bind_out (rules_key robot_id) (\<lambda>key.
       if key_expr (topic_str key) then hot_reload_subscription Z (topic_str key) else Panic)"

definition run_hot_reload_with_registry ::
  "(string \<Rightarrow> bool) \<Rightarrow> 'n zenoh \<Rightarrow> (transport_error, subscription) outcome" where
  "run_hot_reload_with_registry key_expr Z =
     (if key_expr RULESET_PUB_PATTERN then hot_reload_subscription Z RULESET_PUB_PATTERN else Panic)"

lemma hot_reload_key:
  assumes "CHR ''/'' \<notin> set r" and "r \<notin> {[], ''*'', ''**''}" and "\<And>sub. z_declare Z sub"
    and "key_expr (''robot/'' @ r @ ''/local/rules'')"
  shows "run_hot_reload key_expr Z r = Ok (subscription_for (''robot/'' @ r @ ''/local/rules''))"
proof -
  let ?k = "''robot/'' @ r @ ''/local/rules''"
  have parts: "split_on CHR ''/'' ?k = [''robot'', r, ''local'', ''rules'']"
    using assms(1) by (simp add: string_simps)
  have topic: "topic_try_new ?k = Ok (Topic ?k)"
    using canonicalize_robot [of "r @ ''/local/rules''"] parts
    unfolding topic_try_new_Ok by (simp add: matches_one_of_def)
  have "pattern_try_new ?k = Ok (Pattern ?k)"
  proof (rule plain_topic_pattern [OF topic])
    show "p \<notin> {[], ''*'', ''**''}" if "p \<in> set (split_on CHR ''/'' ?k)" for p
      using that assms(2) unfolding parts by auto
  qed
  then show ?thesis
    using topic assms(3,4) by (simp add: run_hot_reload_def rules_key_def hot_reload_subscription_def subscribe_def Let_def)
qed

section \<open>Where a ruleset comes from\<close>

text \<open>
  A sample stands behind a ruleset: read from it directly on a client; on a server, read from a ruleset
  whose name the registry holds for the owner the sample names.
\<close>

definition behind :: "'n toml_readers \<Rightarrow> 'n digests \<Rightarrow> registry option \<Rightarrow> reload_sample \<Rightarrow> 'n rules \<Rightarrow> bool" where
  "behind T D policy sample rls \<longleftrightarrow>
     (case policy of
        None \<Rightarrow> rules_from_toml T (utf8_lossy T (rl_bytes sample)) = Ok rls
      | Some g \<Rightarrow>
          (\<exists>rs toml_text. ruleset_from_toml T (utf8_lossy T (rl_bytes sample)) = Ok rs \<and>
             toml_of_ruleset D rs = Ok toml_text \<and> rules_from_toml T toml_text = Ok rls \<and>
             valid_name (ruleset_name rs) \<and> owned_by (ruleset_name rs) (robot_owner rs) g))"

definition sourced ::
  "'n toml_readers \<Rightarrow> 'n digests \<Rightarrow> 'n rules \<Rightarrow> reload_sample set \<Rightarrow> registry option \<Rightarrow> 'n rules \<Rightarrow> bool" where
  "sourced T D initial seen policy rls \<longleftrightarrow> rls = initial \<or> (\<exists>sample \<in> seen. behind T D policy sample rls)"

definition enacts :: "'n zenoh \<Rightarrow> 'n rules \<Rightarrow> put \<Rightarrow> bool" where
  "enacts Z rls p \<longleftrightarrow> (\<exists>r \<in> set (rules_list rls). \<exists>act \<in> set (rule_actions r). p \<in> set (fire_action Z act))"

definition traced :: "'n toml_readers \<Rightarrow> 'n digests \<Rightarrow> 'n zenoh \<Rightarrow> 'n rules \<Rightarrow> reload_sample set \<Rightarrow> 'n node \<Rightarrow> bool" where
  "traced T D Z initial seen s \<longleftrightarrow>
     (let from = sourced T D initial seen (hr_policy (nd_reload s))
      in from (arc_val (current (hr_store (nd_reload s)))) \<and> from (arc_val (watched s)) \<and>
         (\<forall>p \<in> set (nd_puts s). \<exists>rls. from rls \<and> enacts Z rls p))"

definition policy_grows :: "registry option \<Rightarrow> registry option \<Rightarrow> bool" where
  "policy_grows policy policy' \<longleftrightarrow>
     (case policy of
        None \<Rightarrow> policy' = None
      | Some g \<Rightarrow> (\<exists>g'. policy' = Some g' \<and> (\<forall>name owner. owned_by name owner g \<longrightarrow> owned_by name owner g')))"

lemma sourced_grows:
  assumes "sourced T D initial seen policy rls" and "policy_grows policy policy'" and "seen \<subseteq> seen'"
  shows "sourced T D initial seen' policy' rls"
proof -
  have "behind T D policy' sample rls" if "behind T D policy sample rls" for sample
    using that assms(2) by (auto simp: behind_def policy_grows_def split: option.splits)
  with assms(1,3) show ?thesis by (auto simp: sourced_def)
qed

lemma case_outcome_Ok:
  "(case x of Ok a \<Rightarrow> f a | Err e \<Rightarrow> Ok c | Panic \<Rightarrow> Panic) = Ok y \<longleftrightarrow>
    (\<exists>a. x = Ok a \<and> f a = Ok y) \<or> (\<exists>e. x = Err e) \<and> c = y"
  by (cases x) auto

lemma reload_policy:
  assumes "reload_step T D h sample = Ok h'"
  shows "policy_grows (hr_policy h) (hr_policy h')"
proof (cases "hr_policy h")
  case None
  with assms show ?thesis by (auto simp: reload_step_def policy_grows_def Let_def split: outcome.splits)
next
  case (Some g)
  have keep: "owned_by name owner (snd (publish_ruleset D faults ts g rs))" if "owned_by name owner g" for name owner faults ts rs
    using names.kept [of g name owner D "(faults, ts)" rs] that by (simp add: row_owner_of_Some)
  show ?thesis
  proof (cases "ruleset_from_toml T (utf8_lossy T (rl_bytes sample))")
    case (Ok rs)
    obtain res g' where pub: "publish_ruleset D (rl_faults sample) (rl_ts sample) g rs = (res, g')" by fastforce
    have "hr_policy h' = Some g'"
      using assms Some Ok pub
      by (cases res) (auto simp: reload_step_def Let_def case_outcome_Ok split: register_outcome.split_asm)
    moreover have "owned_by name owner g'" if "owned_by name owner g" for name owner
      using keep [OF that, of "rl_faults sample" "rl_ts sample" rs] pub by simp
    ultimately show ?thesis using Some by (simp add: policy_grows_def)
  qed (use assms Some in \<open>auto simp: reload_step_def policy_grows_def Let_def\<close>)
qed

lemma reload_store:
  assumes "reload_step T D h sample = Ok h'"
  shows "hr_store h' = hr_store h \<or>
    (\<exists>rls. hr_store h' = swap (hr_store h) (Arc (rl_fresh sample) rls) \<and> behind T D (hr_policy h') sample rls)"
proof (cases "hr_policy h")
  case None
  with assms show ?thesis
    by (auto simp: reload_step_def behind_def Let_def split: outcome.split_asm)
next
  case (Some g)
  from reload_registry [OF assms this] show ?thesis by (fastforce simp: behind_def owned_by_def)
qed

lemma loop_step_enacts:
  assumes "p \<in> set (snd (loop_step L from_slice Z g e))"
  shows "\<exists>now a. e = TickDue now a \<and> enacts Z (arc_val a) p"
proof (cases e)
  case (TickDue now a)
  with assms have "\<exists>act \<in> set (fst (tick_inner L (note_rules (eval g) a) now (arc_val a))). p \<in> set (fire_action Z act)"
    by (auto simp: Let_def case_prod_beta split: if_splits)
  then have "enacts Z (arc_val a) p"
    unfolding tick_inner_fst enacts_def by (force simp: in_set_enumerate_eq split: if_splits)
  with TickDue show ?thesis by blast
qed (use assms in \<open>auto split: list.splits if_splits simp: Let_def\<close>)

lemma engine_turn_reload [simp]: "nd_reload (engine_turn L from_slice Z s e) = nd_reload s"
  by (simp add: engine_turn_def Let_def case_prod_beta)

lemma engine_turn_puts:
  assumes "p \<in> set (nd_puts (engine_turn L from_slice Z s e))"
  shows "p \<in> set (nd_puts s) \<or> (\<exists>now a. e = TickDue now a \<and> enacts Z (arc_val a) p)"
  using assms loop_step_enacts by (fastforce simp: engine_turn_def Let_def case_prod_beta)

section \<open>The invariant of a run\<close>

text \<open>The samples an event adds to those the reload task has seen.\<close>

definition seen_in :: "node_event list \<Rightarrow> reload_sample set" where
  "seen_in es = {sample. Reload sample \<in> set es}"

lemma traced_engine:
  assumes "traced T D Z initial seen s" and "\<And>now a. e = TickDue now a \<Longrightarrow> a = watched s"
  shows "traced T D Z initial seen (engine_turn L from_slice Z s e)"
proof -
  let ?from = "sourced T D initial seen (hr_policy (nd_reload s))"
  have "\<exists>rls. ?from rls \<and> enacts Z rls p" if "p \<in> set (nd_puts (engine_turn L from_slice Z s e))" for p
    using engine_turn_puts [OF that] assms by (auto simp: traced_def Let_def)
  then show ?thesis using assms(1) by (simp add: traced_def watched_def Let_def)
qed

lemma traced_grows:
  assumes "traced T D Z initial seen s" and "policy_grows (hr_policy (nd_reload s)) (hr_policy h)" and "seen \<subseteq> seen'"
    and "hr_store h = hr_store (nd_reload s) \<or>
      (\<exists>sample rls. sample \<in> seen' \<and> hr_store h = swap (hr_store (nd_reload s)) (Arc (rl_fresh sample) rls) \<and>
         behind T D (hr_policy h) sample rls)"
  shows "traced T D Z initial seen' (s\<lparr>nd_reload := h\<rparr>)"
proof -
  have grow: "sourced T D initial seen' (hr_policy h) rls"
    if "sourced T D initial seen (hr_policy (nd_reload s)) rls" for rls
    by (rule sourced_grows [OF that assms(2,3)])
  have new: "sourced T D initial seen' (hr_policy h) rls" if "sample \<in> seen'" "behind T D (hr_policy h) sample rls" for sample rls
    using that by (auto simp: sourced_def)
  show ?thesis
    using assms(1,4) grow new unfolding traced_def watched_def Let_def by (auto; blast)
qed

lemma traced_step:
  assumes "traced T D Z initial seen s"
  shows "traced T D Z initial (seen \<union> seen_in [e]) (node_step T D L from_slice Z s e)"
proof (cases e)
  case (Reload sample)
  have same: "traced T D Z initial (insert sample seen) s"
    using traced_grows [OF assms, of "nd_reload s" "insert sample seen"]
    by (simp add: policy_grows_def subset_insertI split: option.split)
  show ?thesis
  proof (cases "nd_reloading s")
    case True
    show ?thesis
    proof (cases "reload_step T D (nd_reload s) sample :: (unit, 'a hot_reload) outcome")
      case (Ok h)
      have "traced T D Z initial (insert sample seen) (s\<lparr>nd_reload := h\<rparr>)"
        using reload_store [OF Ok] by (intro traced_grows [OF assms reload_policy [OF Ok]]) auto
      with True Ok Reload show ?thesis by (simp add: seen_in_def)
    qed (use same True Reload in \<open>simp_all add: seen_in_def traced_def watched_def\<close>)
  qed (use same Reload in \<open>simp add: seen_in_def\<close>)
next
  case (TickAt now)
  with traced_engine [OF assms, of "TickDue now (watched s)"] show ?thesis by (simp add: seen_in_def)
qed (use traced_engine [OF assms] in \<open>auto simp: seen_in_def\<close>)

lemma traced_run:
  "traced T D Z initial seen s \<Longrightarrow>
   traced T D Z initial (seen \<union> seen_in es) (foldl (node_step T D L from_slice Z) s es)"
proof (induction es arbitrary: s seen)
  case (Cons e es)
  have "seen \<union> seen_in (e # es) = seen \<union> seen_in [e] \<union> seen_in es" by (auto simp: seen_in_def)
  with Cons.IH [OF traced_step [OF Cons.prems]] show ?case by simp
qed (simp add: seen_in_def)

lemma node_start_traced:
  assumes "node_start T D L from_slice Z h early = Ok s0" and "hr_store h = ar_new a"
  shows "traced T D Z (arc_val a) (set early) s0"
proof -
  obtain g where g: "run_start Z (current (hr_store h)) = Ok g"
    using assms(1) by (auto simp: node_start_def Let_def)
  let ?init = "\<lparr>nd_reload = h, nd_reloading = True, nd_engine = g, nd_puts = []\<rparr>"
  have "traced T D Z (arc_val a) {} ?init"
    using assms(2) by (simp add: traced_def watched_def sourced_def ar_new_def current_def)
  from traced_run [OF this, of "map Reload early"]
  have "traced T D Z (arc_val a) (set early) (foldl (node_step T D L from_slice Z) ?init (map Reload early))"
    by (simp add: seen_in_def image_iff)
  then show ?thesis
    using assms(1) g by (auto simp: node_start_def Let_def traced_def watched_def)
qed

text \<open>The steps that are not reloads leave the store alone; a started node has a receiver for good.\<close>

lemma engine_steps_reload:
  "seen_in es = {} \<Longrightarrow> nd_reload (foldl (node_step T D L from_slice Z) s es) = nd_reload s"
proof (induction es arbitrary: s)
  case (Cons e es)
  then have "seen_in es = {}" "nd_reload (node_step T D L from_slice Z s e) = nd_reload s"
    by (cases e; auto simp: seen_in_def)+
  with Cons.IH show ?case by simp
qed simp

lemma engine_steps_puts:
  "seen_in es = {} \<Longrightarrow> \<forall>p \<in> set (nd_puts s). enacts Z (arc_val (watched s)) p \<Longrightarrow>
   \<forall>p \<in> set (nd_puts (foldl (node_step T D L from_slice Z) s es)). enacts Z (arc_val (watched s)) p"
proof (induction es arbitrary: s)
  case (Cons e es)
  let ?s = "node_step T D L from_slice Z s e"
  have es: "seen_in es = {}" and e: "seen_in [e] = {}" using Cons.prems(1) by (auto simp: seen_in_def)
  have "watched ?s = watched s" using engine_steps_reload [OF e, of T D L from_slice Z s] by (simp add: watched_def)
  moreover have "\<forall>p \<in> set (nd_puts ?s). enacts Z (arc_val (watched s)) p"
    using Cons.prems(2) e by (cases e) (auto simp: seen_in_def dest!: engine_turn_puts)
  ultimately show ?case using Cons.IH [OF es, of ?s] by simp
qed simp

definition listened :: "'n node \<Rightarrow> bool" where
  "listened s \<longleftrightarrow> hr_policy (nd_reload s) = None \<and> watch_receivers (hr_store (nd_reload s)) \<noteq> 0"

interpretation listening_node: event_machine "node_step T D L from_slice Z" listened
  for T :: "'n toml_readers" and D :: "'n digests" and L :: "'n serde" and from_slice :: "string \<Rightarrow> 'n json option" and Z :: "'n zenoh"
proof
  fix s :: "'n node" and e assume ok: "listened s"
  show "listened (node_step T D L from_slice Z s e)"
  proof (cases e)
    case (Reload sample)
    have "listened (s\<lparr>nd_reload := h\<rparr>)" if "reload_step T D (nd_reload s) sample = (Ok h :: (unit, 'n hot_reload) outcome)" for h
      using ok reload_policy [OF that] reload_store [OF that] by (auto simp: listened_def policy_grows_def)
    with ok Reload show ?thesis by (auto simp: listened_def split: outcome.split)
  qed (use ok in \<open>simp_all add: listened_def\<close>)
qed

lemma early_policy:
  "hr_policy (nd_reload s) = None \<Longrightarrow>
   hr_policy (nd_reload (foldl (node_step T D L from_slice Z) s (map Reload early))) = None"
proof (induction early arbitrary: s)
  case (Cons sample early)
  then have "hr_policy (nd_reload (node_step T D L from_slice Z s (Reload sample))) = None"
    by (auto simp: policy_grows_def dest: reload_policy split: outcome.split)
  with Cons.IH show ?case by simp
qed simp

lemma node_start_listened:
  "node_start T D L from_slice Z h early = Ok s0 \<Longrightarrow> hr_policy h = None \<Longrightarrow> listened s0"
  by (auto simp: node_start_def listened_def Let_def early_policy)

lemma client_reload:
  assumes "listened s" and "nd_reloading s" and "rules_from_toml T (utf8_lossy T (rl_bytes sample)) = Ok rls"
  shows "watched (node_step T D L from_slice Z s (Reload sample)) = Arc (rl_fresh sample) rls"
  using assms by (simp add: listened_def watched_def reload_step_def Let_def)

section \<open>Properties\<close>

text \<open>
  C4: every actuation has a source. Whatever order samples, ticks and reloads come in, each message the
  engine of a node ever publishes performs an action of a rule of the ruleset the node started with, or
  of a ruleset that an update sample brought: on a client one that parses, on a server one whose valid
  name the registry holds, still now, for the owner the sample names. Rejected updates act on nothing.
\<close>

theorem actuation_provenance:
  assumes "node_start T D L from_slice Z h early = Ok s0" and "hr_store h = ar_new a"
    and "s = foldl (node_step T D L from_slice Z) s0 es" and "p \<in> set (nd_puts s)"
  shows "\<exists>rls. enacts Z rls p \<and>
    (rls = arc_val a \<or>
     (\<exists>sample. (sample \<in> set early \<or> Reload sample \<in> set es) \<and> behind T D (hr_policy (nd_reload s)) sample rls))"
  using traced_run [OF node_start_traced [OF assms(1,2)], of es L from_slice] assms(3,4)
  by (fastforce simp: traced_def sourced_def seen_in_def Let_def)

text \<open>A robot with one rule: any sample on its pose topic stops the fleet.\<close>

definition pose_rules :: "f64 rules" where
  "pose_rules = \<lparr>rules_list = [demo_rule [demo_trigger ''robot/7/local/pose'' Level] []]\<rparr>"

definition pose_task :: task where
  "pose_task = SensorTask (DataSub ''robot/7/local/pose'') ''robot/7/local/pose''"

definition pose_node :: "f64 node" where
  "pose_node = \<lparr>nd_reload = \<lparr>hr_store = \<lparr>ar_inner = Arc 1 pose_rules, watch_value = Arc 1 pose_rules, watch_receivers = 1\<rparr>, hr_policy = None\<rparr>,
     nd_reloading = True,
     nd_engine = \<lparr>eval = eval_state_empty\<lparr>last_rules := Some (Arc 1 pose_rules)\<rparr>,
       tasks = [ZoneTask (DataSub ''zone/*/entered''), ZoneTask (DataSub ''zone/*/cleared''), pose_task],
       current_topics = [''robot/7/local/pose''], queue = [], eval_counter = 0, running = True\<rparr>,
     nd_puts = []\<rparr>"

abbreviation pose_step :: "f64 node \<Rightarrow> node_event \<Rightarrow> f64 node" where
  "pose_step \<equiv> node_step demo_readers demo_digests f64_serde (\<lambda>_. Some JNull) demo_zenoh"

abbreviation pose_start :: "reload_sample list \<Rightarrow> (run_error, f64 node) outcome" where
  "pose_start \<equiv> node_start demo_readers demo_digests f64_serde (\<lambda>_. Some JNull) demo_zenoh
     \<lparr>hr_store = ar_new (Arc 1 pose_rules), hr_policy = None\<rparr>"

lemma pose_run_start: "run_start demo_zenoh (Arc 1 pose_rules) = Ok (nd_engine pose_node)"
proof -
  have patterns: "pattern_try_new ZONE_ENTERED_PATTERN = Ok (Pattern ''zone/*/entered'')"
    "pattern_try_new ZONE_CLEARED_PATTERN = Ok (Pattern ''zone/*/cleared'')"
    "pattern_try_new ''robot/7/local/pose'' = Ok (Pattern ''robot/7/local/pose'')"
    by code_simp+
  have subs: "subscription_for ''zone/*/entered'' = DataSub ''zone/*/entered''"
    "subscription_for ''zone/*/cleared'' = DataSub ''zone/*/cleared''"
    "subscription_for ''robot/7/local/pose'' = DataSub ''robot/7/local/pose''"
    by code_simp+
  have topics: "sorted_topics pose_rules = [''robot/7/local/pose'']"
    by (simp add: sorted_topics_def collect_topics_def pose_rules_def demo_rule_def demo_trigger_def)
  show ?thesis
    by (simp add: run_start_def zone_subscriptions_def patterns subscribe_def subs subscribe_to_topics_def topics
        pose_node_def pose_task_def demo_zenoh_def Let_def)
qed

lemma pose_started: "pose_start [] = Ok pose_node"
  using pose_run_start
  by (simp add: node_start_def current_def ar_new_def subscribe_rules_def Let_def) (simp add: pose_node_def)

definition stop_put :: put where
  "stop_put = \<lparr>put_key = ''stop/fleet/cmd'', put_bytes = ''null'', put_qos = Some (RelReliable, Block, InteractiveHigh)\<rparr>"

lemma pose_stops: "nd_puts (foldl pose_step pose_node [Arrive pose_task [] [], TakeAt 0, TickAt 2]) = [stop_put]"
proof -
  have t: "topic_try_new ''stop/fleet/cmd'' = Ok (Topic ''stop/fleet/cmd'')" by code_simp
  have z: "\<not> is_zone_topic ''robot/7/local/pose''" by code_simp
  show ?thesis
    by (simp add: pose_node_def pose_task_def engine_turn_def try_send_def CHANNEL_CAPACITY_def ingest_sensor_topic [OF z]
        watched_def pose_rules_def ingest_sample_def eval_state_empty_def note_rules_def ptr_eq_def tick_inner_def
        staleness_view_def demo_rule_def demo_trigger_def when_satisfied_with_prev_def trigger_edge_matches_def
        trigger_cur_def trigger_matches_def eval_predicate_def fire_action_def t publish_def demo_zenoh_def
        send_put_def stop_put_def Let_def)
qed

theorem actuation_provenance_witness: "enacts demo_zenoh pose_rules stop_put"
  using actuation_provenance [OF pose_started _ refl, of "Arc 1 pose_rules" stop_put "[Arrive pose_task [] [], TakeAt 0, TickAt 2]"]
  by (simp add: pose_stops del: foldl.simps)

text \<open>
  C27: an update reaches the engine. Once a client's engine has subscribed, an update sample that parses
  is the ruleset of every tick until the next update, also if earlier updates had been lost.
\<close>

theorem reload_reaches_engine:
  assumes "node_start T D L from_slice Z h early = Ok s0" and "hr_policy h = None"
    and "s = foldl (node_step T D L from_slice Z) s0 es" and "nd_reloading s"
    and "rules_from_toml T (utf8_lossy T (rl_bytes sample)) = Ok rls" and "seen_in later = {}"
    and "s' = foldl (node_step T D L from_slice Z) s (Reload sample # later)" and "running (nd_engine s')"
  shows "nd_puts (node_step T D L from_slice Z s' (TickAt now)) =
    nd_puts s' @ concat (map (fire_action Z) (fst (tick_with_arc L (eval (nd_engine s')) now (Arc (rl_fresh sample) rls))))"
proof -
  have "listened s"
    unfolding assms(3) by (rule listening_node.inv_run [OF node_start_listened [OF assms(1,2)]])
  then have "watched (node_step T D L from_slice Z s (Reload sample)) = Arc (rl_fresh sample) rls"
    using assms(4,5) by (rule client_reload)
  then have "watched s' = Arc (rl_fresh sample) rls"
    unfolding assms(7) using engine_steps_reload [OF assms(6), of T D L from_slice Z] by (simp add: watched_def del: node_step.simps)
  with assms(8) show ?thesis
    by (simp add: engine_turn_def case_prod_beta Let_def tick_with_arc_def)
qed

definition empty_update :: reload_sample where
  "empty_update = \<lparr>rl_bytes = ''x'', rl_faults = (\<lambda>_. None), rl_ts = ''0'', rl_fresh = 2\<rparr>"

lemma empty_update_rules: "rules_from_toml demo_readers (utf8_lossy demo_readers (rl_bytes empty_update)) = Ok rules_default"
  by (simp add: demo_readers_def empty_update_def)

theorem reload_reaches_engine_witness:
  "nd_puts (pose_step (foldl pose_step pose_node [Reload empty_update, Arrive pose_task [] [], TakeAt 0]) (TickAt 2)) = []"
proof -
  let ?s' = "foldl pose_step pose_node [Reload empty_update, Arrive pose_task [] [], TakeAt 0]"
  have run: "running (nd_engine ?s')" and none: "nd_puts ?s' = []"
    by (simp_all add: pose_node_def pose_task_def engine_turn_def try_send_def CHANNEL_CAPACITY_def Let_def
        split: outcome.split)
  have late: "seen_in [Arrive pose_task [] [], TakeAt 0] = {}" by (simp add: seen_in_def)
  show ?thesis
    using reload_reaches_engine [OF pose_started _ _ _ empty_update_rules late refl run, of "[]" 2] none
    by (simp add: pose_node_def tick_with_arc_def tick_inner_fst rules_default_def del: node_step.simps)
qed

text \<open>
  C28: an update can be lost for good. An update that a client handles after its engine has read the
  ruleset and before it holds a receiver becomes the current ruleset of the store, and the engine never
  runs it: whatever it publishes until the next update comes from the ruleset before.
\<close>

theorem early_update_lost:
  assumes "node_start T D L from_slice Z h [sample] = Ok s0" and "hr_store h = ar_new a" and "hr_policy h = None"
    and "rules_from_toml T (utf8_lossy T (rl_bytes sample)) = Ok rls" and "seen_in es = {}"
    and "s = foldl (node_step T D L from_slice Z) s0 es"
  shows "current (hr_store (nd_reload s)) = Arc (rl_fresh sample) rls \<and>
    (\<forall>p \<in> set (nd_puts s). enacts Z (arc_val a) p)"
proof -
  have "nd_reload s = nd_reload s0" unfolding assms(6) by (rule engine_steps_reload [OF assms(5)])
  moreover have "current (hr_store (nd_reload s0)) = Arc (rl_fresh sample) rls" "watched s0 = a" "nd_puts s0 = []"
    using assms(1-4) by (auto simp: node_start_def watched_def reload_step_def ar_new_def Let_def)
  ultimately show ?thesis
    using engine_steps_puts [OF assms(5), of s0 Z T D L from_slice] unfolding assms(6) by simp
qed

theorem early_update_lost_witness:
  "\<exists>s0. pose_start [empty_update] = Ok s0 \<and>
     current (hr_store (nd_reload (pose_step s0 (TickAt 2)))) = Arc 2 rules_default \<and> watched s0 = Arc 1 pose_rules"
proof -
  have "\<exists>s0. pose_start [empty_update] = Ok s0 \<and> watched s0 = Arc 1 pose_rules"
    using pose_run_start empty_update_rules
    by (simp add: node_start_def current_def ar_new_def watched_def reload_step_def subscribe_rules_def swap_def
        watch_send_def Let_def)
  then obtain s0 where s0: "pose_start [empty_update] = Ok s0" "watched s0 = Arc 1 pose_rules" by blast
  have none: "seen_in [TickAt 2] = {}" by (simp add: seen_in_def)
  from early_update_lost [OF s0(1) _ _ empty_update_rules none refl, of "Arc 1 pose_rules"] s0 show ?thesis
    by (auto simp: empty_update_def)
qed

end
