(* ===== verification/Signaling.thy ===== *)
theory Signaling
  imports Transport Key_Expr
begin

text \<open>
  \<open>src/signaling.rs\<close>: the SDP and ICE exchange over the mesh. Publishers give the puts they issue; the
  receiver is a set of subscription tasks and a dispatch of each sample to the handler's callbacks,
  which are data here. \<open>serde_json\<close> on the envelopes is the parameter \<open>signal_wire\<close>; which samples zenoh
  delivers to a subscription is the argument \<open>delivers\<close>.
\<close>

section \<open>Envelopes\<close>

record ice_candidate =
  ic_candidate :: string
  sdp_mid :: "string option"
  mline_index :: "16 word option"

datatype signal_kind = Offer | Answer

record signal_message =
  sm_sdp :: string
  sm_kind :: signal_kind
  sm_from :: string
  sm_to :: string
  sm_ice :: "ice_candidate list"

record presence =
  pr_id :: string
  pr_streams :: "string list"

record 'n signal_wire =
  message_value :: "signal_message \<Rightarrow> 'n json option"
  message_of :: "string \<Rightarrow> signal_message option"
  presence_value :: "presence \<Rightarrow> 'n json option"
  presence_of :: "string \<Rightarrow> presence option"

section \<open>Publishers\<close>

definition with_key ::
  "('e, topic) outcome \<Rightarrow> (topic \<Rightarrow> ('e, unit) outcome \<times> put list) \<Rightarrow> ('e, unit) outcome \<times> put list" where
  "with_key key f = (case key of Ok t \<Rightarrow> f t | Err e \<Rightarrow> (Err e, []) | Panic \<Rightarrow> (Panic, []))"

definition publish_presence ::
  "'n zenoh \<Rightarrow> 'n signal_wire \<Rightarrow> string \<Rightarrow> string list \<Rightarrow> (transport_error, unit) outcome \<times> put list" where
  "publish_presence Z S robot_id streams =
     with_key (signal_presence_key robot_id) (\<lambda>key.
       case presence_value S \<lparr>pr_id = robot_id, pr_streams = streams\<rparr> of
         None \<Rightarrow> (Err SerializeFailed, [])
       | Some v \<Rightarrow> publish Z key (Signal v))"

definition put_signal ::
  "'n zenoh \<Rightarrow> 'n signal_wire \<Rightarrow> topic \<Rightarrow> signal_kind \<Rightarrow> string \<Rightarrow> string \<Rightarrow> string \<Rightarrow> ice_candidate list
   \<Rightarrow> (transport_error, unit) outcome \<times> put list" where
  "put_signal Z S key kind sender receiver sdp ice =
     (case message_value S \<lparr>sm_sdp = sdp, sm_kind = kind, sm_from = sender, sm_to = receiver, sm_ice = ice\<rparr> of
        None \<Rightarrow> (Err SerializeFailed, [])
      | Some v \<Rightarrow> publish Z key (Signal v))"

definition publish_offer ::
  "'n zenoh \<Rightarrow> 'n signal_wire \<Rightarrow> string \<Rightarrow> string \<Rightarrow> string \<Rightarrow> ice_candidate list
   \<Rightarrow> (transport_error, unit) outcome \<times> put list" where
  "publish_offer Z S robot_id peer_id sdp ice =
     with_key (signal_offer_key robot_id peer_id) (\<lambda>key. put_signal Z S key Offer robot_id peer_id sdp ice)"

definition publish_answer ::
  "'n zenoh \<Rightarrow> 'n signal_wire \<Rightarrow> string \<Rightarrow> string \<Rightarrow> string \<Rightarrow> ice_candidate list
   \<Rightarrow> (transport_error, unit) outcome \<times> put list" where
  "publish_answer Z S robot_id peer_id sdp ice =
     with_key (signal_answer_key robot_id peer_id) (\<lambda>key. put_signal Z S key Answer robot_id peer_id sdp ice)"

definition publish_ice ::
  "'n zenoh \<Rightarrow> 'n signal_wire \<Rightarrow> string \<Rightarrow> string \<Rightarrow> ice_candidate \<Rightarrow> (transport_error, unit) outcome \<times> put list" where
  "publish_ice Z S robot_id peer_id ice =
     with_key (signal_ice_key robot_id peer_id) (\<lambda>key. put_signal Z S key Offer robot_id peer_id [] [ice])"

section \<open>The receiver\<close>

datatype handler_call =
    OnOffer string signal_message
  | OnAnswer string signal_message
  | OnIce string ice_candidate

datatype signal_task = OfferTask subscription | AnswerTask subscription | IceTask subscription

text \<open>The tasks spawned before a subscription fails keep running.\<close>

definition subscribe_task ::
  "'n zenoh \<Rightarrow> (transport_error, pattern) outcome \<Rightarrow> (subscription \<Rightarrow> signal_task)
   \<Rightarrow> (transport_error, unit) outcome \<times> signal_task list \<Rightarrow> (transport_error, unit) outcome \<times> signal_task list" where
  "subscribe_task Z pattern task r =
     (case r of
        (Ok _, ts) \<Rightarrow>
          (case bind_out pattern (subscribe Z) of
             Ok sub \<Rightarrow> (Ok (), ts @ [task sub])
           | Err e \<Rightarrow> (Err e, ts)
           | Panic \<Rightarrow> (Panic, ts))
      | _ \<Rightarrow> r)"

definition run_signal_receiver :: "'n zenoh \<Rightarrow> string \<Rightarrow> (transport_error, unit) outcome \<times> signal_task list" where
  "run_signal_receiver Z self_id =
     subscribe_task Z (signal_ice_pattern self_id) IceTask
       (subscribe_task Z (signal_answer_pattern self_id) AnswerTask
         (subscribe_task Z (signal_offer_pattern self_id) OfferTask (Ok (), [])))"

definition dispatch :: "'n signal_wire \<Rightarrow> signal_task \<Rightarrow> string \<Rightarrow> handler_call list" where
  "dispatch S task bytes =
     (case message_of S bytes of
        None \<Rightarrow> []
      | Some msg \<Rightarrow>
          (case task of
             OfferTask _ \<Rightarrow> [OnOffer (sm_from msg) msg]
           | AnswerTask _ \<Rightarrow> [OnAnswer (sm_from msg) msg]
           | IceTask _ \<Rightarrow> map (OnIce (sm_from msg)) (sm_ice msg)))"

definition subscribe_presence :: "'n zenoh \<Rightarrow> (transport_error, subscription) outcome" where
  "subscribe_presence Z = bind_out (expect (pattern_try_new SIGNAL_PRESENCE_PATTERN)) (subscribe Z)"

definition on_presence :: "'n signal_wire \<Rightarrow> string \<Rightarrow> presence list" where
  "on_presence S bytes = (case presence_of S bytes of Some p \<Rightarrow> [p] | None \<Rightarrow> [])"

section \<open>Delivery\<close>

text \<open>
  The documented delivery of zenoh: a subscriber on the data side gets the puts its expression
  includes, a liveliness subscriber gets no puts.
\<close>

definition delivery_documented :: "(subscription \<Rightarrow> string \<Rightarrow> bool) \<Rightarrow> bool" where
  "delivery_documented delivers \<longleftrightarrow>
     (\<forall>ke k. \<not> delivers (LivelinessSub ke) k) \<and> ke_documented (\<lambda>ke. delivers (DataSub ke))"

fun task_sub :: "signal_task \<Rightarrow> subscription" where
  "task_sub (OfferTask s) = s"
| "task_sub (AnswerTask s) = s"
| "task_sub (IceTask s) = s"

definition calls :: "(subscription \<Rightarrow> string \<Rightarrow> bool) \<Rightarrow> 'n signal_wire \<Rightarrow> signal_task list \<Rightarrow> put \<Rightarrow> handler_call list" where
  "calls delivers S ts p =
     concat (map (\<lambda>t. if delivers (task_sub t) (put_key p) then dispatch S t (put_bytes p) else []) ts)"

definition signal_id :: "string \<Rightarrow> bool" where
  "signal_id r \<longleftrightarrow> r \<noteq> [] \<and> hd r \<noteq> CHR ''@'' \<and> CHR ''/'' \<notin> set r \<and> CHR ''*'' \<notin> set r"

text \<open>The keys and patterns of the exchange, with their segments.\<close>

definition signal_key :: "string \<Rightarrow> string \<Rightarrow> string \<Rightarrow> string" where
  "signal_key a b k = ''robot/'' @ a @ ''/signal/'' @ b @ CHR ''/'' # k"

definition signal_ke :: "string \<Rightarrow> string \<Rightarrow> string" where
  "signal_ke c k = signal_key ''*'' c k"

definition verb :: "string \<Rightarrow> bool" where
  "verb k \<longleftrightarrow> k \<in> {''offer'', ''answer'', ''ice''}"

lemma verb_free: "verb k \<Longrightarrow> CHR ''/'' \<notin> set k \<and> CHR ''*'' \<notin> set k \<and> k \<noteq> [] \<and> hd k \<noteq> CHR ''@''"
  by (auto simp: verb_def)

lemma verbs [simp]: "verb ''offer''" "verb ''answer''" "verb ''ice''"
  by (simp_all add: verb_def)

lemma verb_not_liveliness: "verb k \<Longrightarrow> \<not> sublist ''liveliness'' k"
  by (auto simp: verb_def dest: sublist_length_le)

lemma signal_split:
  assumes "CHR ''/'' \<notin> set a" and "CHR ''/'' \<notin> set b" and "verb k"
  shows "split_on CHR ''/'' (signal_key a b k) = [''robot'', a, ''signal'', b, k]"
  using assms(1,2) verb_free [OF assms(3)] split_on_append [of "CHR ''/''" a "''signal/'' @ b @ CHR ''/'' # k"]
    split_on_append [of "CHR ''/''" b k]
  by (simp add: signal_key_def string_simps)

lemma signal_topic:
  assumes "CHR ''/'' \<notin> set a" and "CHR ''/'' \<notin> set b" and "verb k"
  shows "topic_try_new (signal_key a b k) = Ok (Topic (signal_key a b k))"
proof -
  have "canonicalize (signal_key a b k) = signal_key a b k"
    using canonicalize_robot [of "a @ ''/signal/'' @ b @ CHR ''/'' # k"] by (simp add: signal_key_def)
  then show ?thesis
    unfolding topic_try_new_Ok using signal_split [OF assms] by (simp add: matches_one_of_def signal_key_def)
qed

lemma signal_keys:
  assumes "CHR ''/'' \<notin> set a" and "CHR ''/'' \<notin> set b"
  shows "signal_offer_key a b = Ok (Topic (signal_key a b ''offer''))"
    and "signal_answer_key a b = Ok (Topic (signal_key a b ''answer''))"
    and "signal_ice_key a b = Ok (Topic (signal_key a b ''ice''))"
  using signal_topic [OF assms, of "''offer''"] signal_topic [OF assms, of "''answer''"]
    signal_topic [OF assms, of "''ice''"]
  by (simp_all add: signal_offer_key_def signal_answer_key_def signal_ice_key_def signal_key_def)

lemma ke_split:
  "signal_id c \<Longrightarrow> verb k \<Longrightarrow> split_on CHR ''/'' (signal_ke c k) = [''robot'', ''*'', ''signal'', c, k]"
  unfolding signal_ke_def by (rule signal_split) (simp_all add: signal_id_def)

lemma signal_pattern:
  assumes "signal_id c" and "verb k"
  shows "pattern_try_new (signal_ke c k) = Ok (Pattern (signal_ke c k))"
proof -
  have "[] \<notin> set (split_on CHR ''/'' (signal_ke c k))"
    unfolding ke_split [OF assms] using assms(1) verb_free [OF assms(2)] by (auto simp: signal_id_def)
  then have "\<not> sublist ''//'' (signal_ke c k)" by (rule no_double_slash)
  moreover have "is_valid_pattern (split_on CHR ''/'' (signal_ke c k))"
    using assms(2) unfolding ke_split [OF assms] by (auto simp: is_valid_pattern_def verb_def)
  moreover have "canonicalize (signal_ke c k) = signal_ke c k" "signal_ke c k \<noteq> []"
    using canonicalize_robot [of "''*/signal/'' @ c @ CHR ''/'' # k"] by (simp_all add: signal_ke_def signal_key_def)
  ultimately show ?thesis by (simp add: pattern_try_new_def Let_def)
qed

lemma signal_subscription:
  assumes "signal_id c" and "verb k"
  shows "subscription_for (signal_ke c k) =
    (if sublist ''liveliness'' c then LivelinessSub else DataSub) (signal_ke c k)"
proof -
  have "\<not> sublist ''liveliness'' ''robot''" "\<not> sublist ''liveliness'' ''*''" "\<not> sublist ''liveliness'' ''signal''"
    by (auto dest: sublist_length_le)
  then have "sublist ''liveliness'' (signal_ke c k) \<longleftrightarrow> sublist ''liveliness'' c"
    using sublist_split_iff [of "CHR ''/''" "''liveliness''" "signal_ke c k"] verb_not_liveliness [OF assms(2)]
    by (simp add: ke_split [OF assms])
  then show ?thesis by (simp add: subscription_for_def)
qed

lemma receiver_tasks:
  assumes "signal_id c" and "\<And>sub. z_declare Z sub"
  shows "run_signal_receiver Z c =
    (Ok (), [OfferTask (subscription_for (signal_ke c ''offer'')),
             AnswerTask (subscription_for (signal_ke c ''answer'')),
             IceTask (subscription_for (signal_ke c ''ice''))])"
proof -
  have "(signal_offer_pattern c :: (transport_error, pattern) outcome) = Ok (Pattern (signal_ke c ''offer''))"
    "(signal_answer_pattern c :: (transport_error, pattern) outcome) = Ok (Pattern (signal_ke c ''answer''))"
    "(signal_ice_pattern c :: (transport_error, pattern) outcome) = Ok (Pattern (signal_ke c ''ice''))"
    using signal_pattern [OF assms(1), of "''offer''"] signal_pattern [OF assms(1), of "''answer''"]
      signal_pattern [OF assms(1), of "''ice''"]
    by (simp_all add: signal_offer_pattern_def signal_answer_pattern_def signal_ice_pattern_def
        signal_ke_def signal_key_def)
  then show ?thesis
    by (simp add: run_signal_receiver_def subscribe_task_def subscribe_def Let_def assms(2))
qed

text \<open>
  What the receivers of signals and of registration responses rely on. The first lemma: a signaling
  subscription receives exactly the keys of its own verb addressed to its robot.
\<close>

locale key_delivery =
  fixes delivers :: "subscription \<Rightarrow> string \<Rightarrow> bool"
  assumes delivery_doc: "delivery_documented delivers"

sublocale key_delivery \<subseteq> key_expressions "\<lambda>ke. delivers (DataSub ke)"
  using delivery_doc by unfold_locales (simp add: delivery_documented_def)

context key_delivery
begin

lemma no_put_on_liveliness: "\<not> delivers (LivelinessSub ke) k"
  using delivery_doc by (simp add: delivery_documented_def)

lemma signal_delivery:
  assumes "signal_id a" and "signal_id b" and "signal_id c" and "verb k" and "verb k'"
  shows "delivers (subscription_for (signal_ke c k')) (signal_key a b k) \<longleftrightarrow>
    \<not> sublist ''liveliness'' c \<and> c = b \<and> k' = k"
proof -
  have key: "split_on CHR ''/'' (signal_key a b k) = [''robot'', a, ''signal'', b, k]"
    using assms by (intro signal_split) (simp_all add: signal_id_def)
  note ke = ke_split [OF assms(3,5)]
  have "plain_key (signal_key a b k)"
    using assms verb_free [OF assms(4)] unfolding plain_key_def key by (auto simp: signal_id_def)
  moreover have "simple_expr (signal_ke c k')"
    using assms verb_free [OF assms(5)] unfolding simple_expr_def ke by (auto simp: signal_id_def)
  ultimately have "delivers (DataSub (signal_ke c k')) (signal_key a b k) \<longleftrightarrow> c = b \<and> k' = k"
    using ke_simple [of "signal_ke c k'" "signal_key a b k"] assms(3) verb_free [OF assms(5)]
    unfolding key ke by (auto simp: chunk_match_def signal_id_def)
  then show ?thesis
    using signal_subscription [OF assms(3,5)] by (auto simp: no_put_on_liveliness)
qed

lemma signal_calls:
  assumes "\<And>sub. z_declare Z sub" and "signal_id a" and "signal_id b" and "signal_id c" and "verb k"
    and "put_key p = signal_key a b k" and "message_of S (put_bytes p) = Some msg"
  shows "calls delivers S (snd (run_signal_receiver Z c)) p =
    (if c \<noteq> b \<or> sublist ''liveliness'' c then []
     else if k = ''offer'' then [OnOffer (sm_from msg) msg]
     else if k = ''answer'' then [OnAnswer (sm_from msg) msg]
     else map (OnIce (sm_from msg)) (sm_ice msg))"
proof -
  have "delivers (subscription_for (signal_ke c k')) (put_key p) \<longleftrightarrow> \<not> sublist ''liveliness'' c \<and> c = b \<and> k' = k"
    if "verb k'" for k'
    unfolding assms(6) by (rule signal_delivery [OF assms(2-5) that])
  with assms(5,7) show ?thesis
    unfolding verb_def by (auto simp: receiver_tasks [OF assms(4,1)] calls_def dispatch_def)
qed

end

text \<open>The put of a message that serialises, and the callbacks the receivers make of it.\<close>

definition carried :: "'n zenoh \<Rightarrow> 'n signal_wire \<Rightarrow> signal_message \<Rightarrow> bool" where
  "carried Z S msg \<longleftrightarrow>
     (\<exists>v bytes. message_value S msg = Some v \<and> z_to_vec Z v = Some bytes \<and> message_of S bytes = Some msg)"

lemma published_signal:
  assumes "carried Z S \<lparr>sm_sdp = sdp, sm_kind = Offer, sm_from = a, sm_to = b, sm_ice = ice\<rparr>" (is "carried Z S ?o")
    and "signal_id a" and "signal_id b"
  shows "\<exists>p. snd (publish_offer Z S a b sdp ice) = [p] \<and> put_key p = signal_key a b ''offer'' \<and>
    message_of S (put_bytes p) = Some ?o"
  using assms
  by (auto simp: carried_def signal_keys publish_offer_def with_key_def put_signal_def publish_def send_put_def signal_id_def)

lemma published_answer:
  assumes "carried Z S \<lparr>sm_sdp = sdp, sm_kind = Answer, sm_from = a, sm_to = b, sm_ice = ice\<rparr>" (is "carried Z S ?o")
    and "signal_id a" and "signal_id b"
  shows "\<exists>p. snd (publish_answer Z S a b sdp ice) = [p] \<and> put_key p = signal_key a b ''answer'' \<and>
    message_of S (put_bytes p) = Some ?o"
  using assms
  by (auto simp: carried_def signal_keys publish_answer_def with_key_def put_signal_def publish_def send_put_def signal_id_def)

section \<open>Properties\<close>

text \<open>
  an offer reaches exactly its addressee. When robot \<open>a\<close> offers a call to robot \<open>b\<close>, one put is
  issued, and among all robots that run the receiver it calls \<open>on_offer\<close> of \<open>b\<close>, once, with the offer
  and \<open>a\<close> as the sender, and nothing of any other robot; unless the id of \<open>b\<close> contains \<open>liveliness\<close>: then
  its subscriptions were made on the liveliness side and \<open>b\<close> never hears of the call.
\<close>

theorem offer_reaches_addressee:
  assumes "delivery_documented delivers" and "\<And>sub. z_declare Z sub"
    and "msg = \<lparr>sm_sdp = sdp, sm_kind = Offer, sm_from = a, sm_to = b, sm_ice = ice\<rparr>"
    and "carried Z S msg" and "signal_id a" and "signal_id b" and "signal_id c"
  shows "\<exists>p. snd (publish_offer Z S a b sdp ice) = [p] \<and>
    calls delivers S (snd (run_signal_receiver Z c)) p =
      (if c = b \<and> \<not> sublist ''liveliness'' c then [OnOffer a msg] else [])"
proof -
  obtain p where "snd (publish_offer Z S a b sdp ice) = [p]" "put_key p = signal_key a b ''offer''"
    "message_of S (put_bytes p) = Some msg"
    using published_signal [OF assms(4) [unfolded assms(3)] assms(5,6)] unfolding assms(3) by blast
  moreover from key_delivery.signal_calls [OF key_delivery.intro [OF assms(1)] assms(2,5-7) _ this(2,3)]
  have "calls delivers S (snd (run_signal_receiver Z c)) p =
      (if c = b \<and> \<not> sublist ''liveliness'' c then [OnOffer a msg] else [])"
    using assms(3) by simp
  ultimately show ?thesis by blast
qed

definition demo_signals :: "unit signal_wire" where
  "demo_signals = \<lparr>message_value = (\<lambda>m. Some (JString (sm_from m))),
     message_of = (\<lambda>b. Some \<lparr>sm_sdp = [], sm_kind = Offer, sm_from = b, sm_to = ''8'', sm_ice = []\<rparr>),
     presence_value = (\<lambda>_. None), presence_of = (\<lambda>_. None)\<rparr>"

definition signal_mesh :: "unit zenoh" where
  "signal_mesh = \<lparr>z_to_vec = (\<lambda>v. case v of JString s \<Rightarrow> Some s | _ \<Rightarrow> None), z_put = (\<lambda>_. True),
     z_declare = (\<lambda>_. True), z_token = (\<lambda>_. True), z_endpoints_json = (\<lambda>_. None), z_accepts = (\<lambda>_ _. True)\<rparr>"

fun ke_delivers :: "subscription \<Rightarrow> string \<Rightarrow> bool" where
  "ke_delivers (DataSub ke) k = ke_include ke k"
| "ke_delivers (LivelinessSub ke) k = False"

lemma ke_delivers_documented: "delivery_documented ke_delivers"
proof -
  have "(\<lambda>ke. ke_delivers (DataSub ke)) = ke_include" by (simp add: fun_eq_iff)
  then show ?thesis by (simp add: delivery_documented_def)
qed

interpretation zenoh_delivery: key_delivery ke_delivers
  by unfold_locales (rule ke_delivers_documented)

theorem offer_reaches_addressee_witness:
  "\<exists>p. snd (publish_offer signal_mesh demo_signals ''7'' ''8'' [] []) = [p] \<and>
     calls ke_delivers demo_signals (snd (run_signal_receiver signal_mesh ''8'')) p =
       [OnOffer ''7'' \<lparr>sm_sdp = [], sm_kind = Offer, sm_from = ''7'', sm_to = ''8'', sm_ice = []\<rparr>]"
proof -
  have "\<not> sublist ''liveliness'' ''8''" by (auto dest: sublist_length_le)
  with offer_reaches_addressee [OF ke_delivers_documented _ refl, of signal_mesh demo_signals "[]" "''7''" "''8''" "[]" "''8''"]
  show ?thesis by (simp add: carried_def demo_signals_def signal_mesh_def signal_id_def)
qed

end
