(* ===== verification/Mesh.thy ===== *)
theory Mesh
  imports Signaling "HOL-Library.Multiset"
begin

text \<open>
  \<open>src/mesh.rs\<close>: the always-on listener that answers offers. Every callback spawns a task, so calls of
  the same peer run concurrently; a step of \<open>mesh_step\<close> is what one task does between two awaits, which
  is also what it does under the peers lock. A \<open>VideoPeer\<close> is the number it was created with; creating
  one and starting its capture may fail. The lock cannot be poisoned, because nothing panics under it.
\<close>

section \<open>State\<close>

record session =
  ps_peer :: nat
  ps_capture :: "nat option" \<comment> \<open>the peer the capture feeds\<close>

datatype mesh_task =
    Lookup string signal_message \<comment> \<open>\<open>on_offer\<close> before \<open>find_peer\<close>\<close>
  | Creating string signal_message \<comment> \<open>awaiting \<open>VideoPeer::answer\<close>\<close>
  | Inserting string signal_message nat \<comment> \<open>\<open>peer_for\<close> with the created peer, before the lock\<close>
  | Capturing string nat \<comment> \<open>awaiting \<open>start_capture\<close>\<close>
  | Relaying string handler_call \<comment> \<open>\<open>on_answer\<close> or \<open>on_ice\<close> before the lock\<close>

record mesh =
  peers :: "string \<rightharpoonup> session"
  mesh_tasks :: "mesh_task multiset"
  created :: nat \<comment> \<open>peers created so far\<close>
  delivered :: "(string \<times> nat \<times> handler_call) list" \<comment> \<open>callbacks made, with the peer they went to\<close>
  captures :: "string list" \<comment> \<open>captures that were requested\<close>

definition mesh_new :: mesh where
  "mesh_new = \<lparr>peers = Map.empty, mesh_tasks = {#}, created = 0, delivered = [], captures = []\<rparr>"

section \<open>Steps\<close>

definition spawn :: "mesh_task \<Rightarrow> mesh \<Rightarrow> mesh" where
  "spawn t s = s\<lparr>mesh_tasks := add_mset t (mesh_tasks s)\<rparr>"

definition finish :: "mesh_task \<Rightarrow> mesh \<Rightarrow> mesh" where
  "finish t s = s\<lparr>mesh_tasks := mesh_tasks s - {#t#}\<rparr>"

definition deliver :: "string \<Rightarrow> nat \<Rightarrow> handler_call \<Rightarrow> mesh \<Rightarrow> mesh" where
  "deliver from n c s = s\<lparr>delivered := delivered s @ [(from, n, c)]\<rparr>"

text \<open>A callback of the receiver spawns its task.\<close>

fun on_call :: "handler_call \<Rightarrow> mesh \<Rightarrow> mesh" where
  "on_call (OnOffer from msg) s = spawn (Lookup from msg) s"
| "on_call (OnAnswer from msg) s = spawn (Relaying from (OnAnswer from msg)) s"
| "on_call (OnIce from c) s = spawn (Relaying from (OnIce from c)) s"

text \<open>\<open>peer_for\<close> under the lock: the existing session wins; a new one starts a capture if there is a source.\<close>

definition insert_peer :: "bool \<Rightarrow> string \<Rightarrow> signal_message \<Rightarrow> nat \<Rightarrow> mesh \<Rightarrow> mesh" where
  "insert_peer source from msg n s =
     (case peers s from of
        Some ps \<Rightarrow> deliver from (ps_peer ps) (OnOffer from msg) s
      | None \<Rightarrow>
          let s' = s\<lparr>peers := (peers s)(from \<mapsto> \<lparr>ps_peer = n, ps_capture = None\<rparr>)\<rparr>;
              s'' = (if source then spawn (Capturing from n) (s'\<lparr>captures := captures s' @ [from]\<rparr>) else s')
          in deliver from n (OnOffer from msg) s'')"

definition hold_capture :: "string \<Rightarrow> nat \<Rightarrow> mesh \<Rightarrow> mesh" where
  "hold_capture from n s =
     (case peers s from of
        Some ps \<Rightarrow> s\<lparr>peers := (peers s)(from \<mapsto> ps\<lparr>ps_capture := Some n\<rparr>)\<rparr>
      | None \<Rightarrow> s)"

inductive mesh_step :: "bool \<Rightarrow> mesh \<Rightarrow> mesh \<Rightarrow> bool" for source :: bool where
  call: "mesh_step source s (on_call c s)"
| found: "Lookup from msg \<in># mesh_tasks s \<Longrightarrow> peers s from = Some ps \<Longrightarrow>
    mesh_step source s (deliver from (ps_peer ps) (OnOffer from msg) (finish (Lookup from msg) s))"
| missing: "Lookup from msg \<in># mesh_tasks s \<Longrightarrow> peers s from = None \<Longrightarrow>
    mesh_step source s (spawn (Creating from msg) (finish (Lookup from msg) s))"
| create: "Creating from msg \<in># mesh_tasks s \<Longrightarrow>
    mesh_step source s (spawn (Inserting from msg (created s)) (finish (Creating from msg) (s\<lparr>created := Suc (created s)\<rparr>)))"
| create_fails: "Creating from msg \<in># mesh_tasks s \<Longrightarrow> mesh_step source s (finish (Creating from msg) s)"
| insert: "Inserting from msg n \<in># mesh_tasks s \<Longrightarrow>
    mesh_step source s (insert_peer source from msg n (finish (Inserting from msg n) s))"
| capture: "Capturing from n \<in># mesh_tasks s \<Longrightarrow> mesh_step source s (hold_capture from n (finish (Capturing from n) s))"
| capture_fails: "Capturing from n \<in># mesh_tasks s \<Longrightarrow> mesh_step source s (finish (Capturing from n) s)"
| relay: "Relaying from c \<in># mesh_tasks s \<Longrightarrow> peers s from = Some ps \<Longrightarrow>
    mesh_step source s (deliver from (ps_peer ps) c (finish (Relaying from c) s))"
| drop: "Relaying from c \<in># mesh_tasks s \<Longrightarrow> peers s from = None \<Longrightarrow> mesh_step source s (finish (Relaying from c) s)"

inductive reachable :: "bool \<Rightarrow> mesh \<Rightarrow> bool" for source :: bool where
  start: "reachable source mesh_new"
| step: "reachable source s \<Longrightarrow> mesh_step source s s' \<Longrightarrow> reachable source s'"

lemmas mesh_ops = spawn_def finish_def deliver_def insert_peer_def hold_capture_def

section \<open>Start\<close>

text \<open>\<open>run_signaling\<close>: announce the camera, watch for peers, and run the receiver with a new listener.\<close>

definition run_signaling ::
  "'n zenoh \<Rightarrow> 'n signal_wire \<Rightarrow> string \<Rightarrow> (transport_error, mesh) outcome \<times> put list \<times> signal_task list" where
  "run_signaling Z S robot_id =
     (case robot_local robot_id ''cam0'' of
        Err e \<Rightarrow> (Err e, [], [])
      | Panic \<Rightarrow> (Panic, [], [])
      | Ok cam \<Rightarrow>
          (let (res, puts) = publish_presence Z S robot_id [topic_str cam]
           in case bind_out res (\<lambda>_. subscribe_presence Z) of
                Err e \<Rightarrow> (Err e, puts, [])
              | Panic \<Rightarrow> (Panic, puts, [])
              | Ok _ \<Rightarrow>
                  (let (res', tasks) = run_signal_receiver Z robot_id
                   in (bind_out res' (\<lambda>_. Ok mesh_new), puts, tasks))))"

section \<open>Invariant\<close>

text \<open>The numbers of the peers that tasks have created and not yet inserted.\<close>

fun task_number :: "mesh_task \<Rightarrow> nat multiset" where
  "task_number (Inserting from msg n) = {#n#}"
| "task_number t = {#}"

definition numbers :: "mesh_task multiset \<Rightarrow> nat multiset" where
  "numbers M = sum_mset (image_mset task_number M)"

lemma numbers_add [simp]: "numbers (add_mset t M) = task_number t + numbers M"
  by (simp add: numbers_def)

lemma numbers_remove: "t \<in># M \<Longrightarrow> numbers M = task_number t + numbers (M - {#t#})"
  by (metis insert_DiffM numbers_add)

text \<open>
  Every created peer has its own number and sits in one task or one session; a session's capture feeds
  its own peer; callbacks went to the peer of the session; no caller had two captures.
\<close>

definition mesh_ok :: "mesh \<Rightarrow> bool" where
  "mesh_ok s \<longleftrightarrow>
     (\<forall>n. count (numbers (mesh_tasks s)) n \<le> (if n < created s then 1 else 0)) \<and>
     (\<forall>f ps. peers s f = Some ps \<longrightarrow> ps_peer ps < created s \<and> count (numbers (mesh_tasks s)) (ps_peer ps) = 0
        \<and> (ps_capture ps = None \<or> ps_capture ps = Some (ps_peer ps))) \<and>
     (\<forall>f g ps qs. peers s f = Some ps \<longrightarrow> peers s g = Some qs \<longrightarrow> ps_peer ps = ps_peer qs \<longrightarrow> f = g) \<and>
     (\<forall>f n. Capturing f n \<in># mesh_tasks s \<longrightarrow> (\<exists>ps. peers s f = Some ps \<and> ps_peer ps = n)) \<and>
     (\<forall>f n c. (f, n, c) \<in> set (delivered s) \<longrightarrow> (\<exists>ps. peers s f = Some ps \<and> ps_peer ps = n)) \<and>
     distinct (captures s) \<and> (\<forall>f \<in> set (captures s). peers s f \<noteq> None)"

lemma mesh_new_ok: "mesh_ok mesh_new"
  by (simp add: mesh_ok_def mesh_new_def numbers_def)

lemma mesh_okI:
  assumes "\<And>n. count (numbers (mesh_tasks s)) n \<le> (if n < created s then 1 else 0)"
    and "\<And>f ps. peers s f = Some ps \<Longrightarrow> ps_peer ps < created s"
    and "\<And>f ps. peers s f = Some ps \<Longrightarrow> count (numbers (mesh_tasks s)) (ps_peer ps) = 0"
    and "\<And>f ps. peers s f = Some ps \<Longrightarrow> ps_capture ps = None \<or> ps_capture ps = Some (ps_peer ps)"
    and "\<And>f g ps qs. peers s f = Some ps \<Longrightarrow> peers s g = Some qs \<Longrightarrow> ps_peer ps = ps_peer qs \<Longrightarrow> f = g"
    and "\<And>f n. Capturing f n \<in># mesh_tasks s \<Longrightarrow> \<exists>ps. peers s f = Some ps \<and> ps_peer ps = n"
    and "\<And>f n c. (f, n, c) \<in> set (delivered s) \<Longrightarrow> \<exists>ps. peers s f = Some ps \<and> ps_peer ps = n"
    and "distinct (captures s)" and "\<And>f. f \<in> set (captures s) \<Longrightarrow> peers s f \<noteq> None"
  shows "mesh_ok s"
  unfolding mesh_ok_def by (intro conjI allI impI ballI assms)

lemma mesh_okD:
  assumes "mesh_ok s"
  shows "count (numbers (mesh_tasks s)) n \<le> (if n < created s then 1 else 0)"
    and "peers s f = Some ps \<Longrightarrow> ps_peer ps < created s"
    and "peers s f = Some ps \<Longrightarrow> count (numbers (mesh_tasks s)) (ps_peer ps) = 0"
    and "peers s f = Some ps \<Longrightarrow> ps_capture ps = None \<or> ps_capture ps = Some (ps_peer ps)"
    and "peers s f = Some ps \<Longrightarrow> peers s g = Some qs \<Longrightarrow> ps_peer ps = ps_peer qs \<Longrightarrow> f = g"
    and "Capturing f n \<in># mesh_tasks s \<Longrightarrow> \<exists>ps. peers s f = Some ps \<and> ps_peer ps = n"
    and "(f, n, c) \<in> set (delivered s) \<Longrightarrow> \<exists>ps. peers s f = Some ps \<and> ps_peer ps = n"
    and "distinct (captures s)" and "f \<in> set (captures s) \<Longrightarrow> peers s f \<noteq> None"
  using assms unfolding mesh_ok_def by blast+

text \<open>Dropping a task, spawning one without a number, and calling a session's peer.\<close>

lemma numbers_finish: "count (numbers (M - {#t#})) n \<le> count (numbers M) n"
proof (cases "t \<in># M")
  case True
  then show ?thesis by (simp add: numbers_remove)
next
  case False
  then show ?thesis by (simp add: diff_single_trivial)
qed

lemma peers_finish: "peers (finish t s) = peers s"
  by (simp add: finish_def)

lemma finish_ok:
  assumes "mesh_ok s"
  shows "mesh_ok (finish t s)"
proof (rule mesh_okI)
  fix n
  show "count (numbers (mesh_tasks (finish t s))) n \<le> (if n < created (finish t s) then 1 else 0)"
    using le_trans [OF numbers_finish mesh_okD(1) [OF assms]] by (simp add: finish_def)
next
  fix f ps assume "peers (finish t s) f = Some ps"
  then have "peers s f = Some ps" by (simp add: finish_def)
  from mesh_okD(3) [OF assms this] show "count (numbers (mesh_tasks (finish t s))) (ps_peer ps) = 0"
    using numbers_finish [of "mesh_tasks s" t "ps_peer ps"] by (simp add: finish_def)
next
  fix f n assume "Capturing f n \<in># mesh_tasks (finish t s)"
  then have "Capturing f n \<in># mesh_tasks s" by (auto simp: finish_def dest: in_diffD)
  from mesh_okD(6) [OF assms this] show "\<exists>ps. peers (finish t s) f = Some ps \<and> ps_peer ps = n"
    by (simp add: finish_def)
qed (use mesh_okD [OF assms] in \<open>auto simp: finish_def\<close>)

lemma spawn_ok:
  assumes "mesh_ok s" and "task_number t = {#}"
    and "\<And>f n. t = Capturing f n \<Longrightarrow> \<exists>ps. peers s f = Some ps \<and> ps_peer ps = n"
  shows "mesh_ok (spawn t s)"
proof (rule mesh_okI)
  fix f n assume "Capturing f n \<in># mesh_tasks (spawn t s)"
  then have "t = Capturing f n \<or> Capturing f n \<in># mesh_tasks s" by (auto simp: spawn_def)
  then show "\<exists>ps. peers (spawn t s) f = Some ps \<and> ps_peer ps = n"
    using assms(3) mesh_okD(6) [OF assms(1)] by (auto simp: spawn_def)
qed (use mesh_okD [OF assms(1)] assms(2) in \<open>auto simp: spawn_def\<close>)

lemma deliver_ok:
  assumes "mesh_ok s" and "peers s from = Some ps"
  shows "mesh_ok (deliver from (ps_peer ps) c s)"
  by (rule mesh_okI) (use mesh_okD [OF assms(1)] assms(2) in \<open>auto simp: deliver_def\<close>)

text \<open>Creation takes the task's place with a fresh number; insertion gives the number to a session.\<close>

lemma create_ok:
  assumes "mesh_ok s"
  shows "mesh_ok (spawn (Inserting from msg (created s)) (finish t (s\<lparr>created := Suc (created s)\<rparr>)))"
    (is "mesh_ok ?s")
proof (rule mesh_okI)
  fix n
  have "count (numbers (mesh_tasks s - {#t#})) n \<le> (if n < created s then 1 else 0)"
    using le_trans [OF numbers_finish mesh_okD(1) [OF assms]] .
  then show "count (numbers (mesh_tasks ?s)) n \<le> (if n < created ?s then 1 else 0)"
    by (auto simp: spawn_def finish_def less_Suc_eq split: if_splits)
next
  fix f ps assume "peers ?s f = Some ps"
  then have f: "peers s f = Some ps" by (simp add: spawn_def finish_def)
  from mesh_okD(2) [OF assms f] show "ps_peer ps < created ?s" by (simp add: spawn_def finish_def)
  from mesh_okD(2,3) [OF assms f] show "count (numbers (mesh_tasks ?s)) (ps_peer ps) = 0"
    using numbers_finish [of "mesh_tasks s" t "ps_peer ps"] by (auto simp: spawn_def finish_def)
next
  fix f n assume "Capturing f n \<in># mesh_tasks ?s"
  then have "Capturing f n \<in># mesh_tasks s" by (auto simp: spawn_def finish_def dest: in_diffD)
  from mesh_okD(6) [OF assms this] show "\<exists>ps. peers ?s f = Some ps \<and> ps_peer ps = n"
    by (simp add: spawn_def finish_def)
qed (use mesh_okD [OF assms] in \<open>auto simp: spawn_def finish_def\<close>)

lemma new_session_ok:
  assumes "mesh_ok s" and "peers s from = None" and "n < created s" and "count (numbers (mesh_tasks s)) n = 0"
    and "\<And>f ps. peers s f = Some ps \<Longrightarrow> ps_peer ps \<noteq> n"
  shows "mesh_ok (s\<lparr>peers := (peers s)(from \<mapsto> \<lparr>ps_peer = n, ps_capture = None\<rparr>)\<rparr>)" (is "mesh_ok ?s")
proof (rule mesh_okI)
  fix f g ps qs assume "peers ?s f = Some ps" "peers ?s g = Some qs" "ps_peer ps = ps_peer qs"
  then show "f = g" using assms(5) [of f ps] assms(5) [of g qs] mesh_okD(5) [OF assms(1)] by (auto split: if_splits)
next
  fix f k assume "Capturing f k \<in># mesh_tasks ?s"
  then show "\<exists>ps. peers ?s f = Some ps \<and> ps_peer ps = k" using mesh_okD(6) [OF assms(1), of f k] assms(2) by auto
next
  fix f k c assume "(f, k, c) \<in> set (delivered ?s)"
  then show "\<exists>ps. peers ?s f = Some ps \<and> ps_peer ps = k" using mesh_okD(7) [OF assms(1), of f k c] assms(2) by auto
qed (use mesh_okD [OF assms(1)] assms(2-4) in \<open>auto split: if_splits\<close>)

lemma request_capture_ok:
  assumes "mesh_ok s" and "peers s from \<noteq> None" and "from \<notin> set (captures s)"
  shows "mesh_ok (s\<lparr>captures := captures s @ [from]\<rparr>)"
  by (rule mesh_okI) (use mesh_okD [OF assms(1)] assms(2,3) in auto)

lemma hold_capture_ok:
  assumes "mesh_ok s" and "peers s from = Some ps" and "ps_peer ps = n"
  shows "mesh_ok (hold_capture from n s)"
proof (rule mesh_okI)
  fix f g qs rs assume "peers (hold_capture from n s) f = Some qs" "peers (hold_capture from n s) g = Some rs" "ps_peer qs = ps_peer rs"
  then show "f = g" using assms mesh_okD(5) [OF assms(1)] by (auto simp: hold_capture_def split: if_splits)
next
  fix f k assume "Capturing f k \<in># mesh_tasks (hold_capture from n s)"
  then show "\<exists>ps. peers (hold_capture from n s) f = Some ps \<and> ps_peer ps = k"
    using mesh_okD(6) [OF assms(1), of f k] assms by (auto simp: hold_capture_def)
next
  fix f k c assume "(f, k, c) \<in> set (delivered (hold_capture from n s))"
  then show "\<exists>ps. peers (hold_capture from n s) f = Some ps \<and> ps_peer ps = k"
    using mesh_okD(7) [OF assms(1), of f k c] assms by (auto simp: hold_capture_def)
qed (use mesh_okD [OF assms(1)] assms(2,3) in \<open>auto simp: hold_capture_def split: if_splits\<close>)

lemma insert_ok:
  assumes "mesh_ok s" and "Inserting from msg n \<in># mesh_tasks s"
  shows "mesh_ok (insert_peer source from msg n (finish (Inserting from msg n) s))"
proof -
  let ?s = "finish (Inserting from msg n) s"
  have ok: "mesh_ok ?s" by (rule finish_ok [OF assms(1)])
  have num: "numbers (mesh_tasks s) = {#n#} + numbers (mesh_tasks ?s)"
    using numbers_remove [OF assms(2)] by (simp add: finish_def)
  then have one: "count (numbers (mesh_tasks ?s)) n = 0" "n < created s"
    using mesh_okD(1) [OF assms(1), of n] by (auto split: if_splits)
  have other: "ps_peer ps \<noteq> n" if "peers s f = Some ps" for f ps
    using mesh_okD(3) [OF assms(1) that] num by auto
  show ?thesis
  proof (cases "peers s from")
    case (Some ps)
    then show ?thesis using deliver_ok [OF ok, of "from" ps] by (simp add: insert_peer_def finish_def)
  next
    case None
    let ?t = "?s\<lparr>peers := (peers ?s)(from \<mapsto> \<lparr>ps_peer = n, ps_capture = None\<rparr>)\<rparr>"
    have t: "mesh_ok ?t"
      by (rule new_session_ok [OF ok]) (use None one other in \<open>auto simp: finish_def\<close>)
    have new: "peers ?t from = Some \<lparr>ps_peer = n, ps_capture = None\<rparr>" by simp
    have "from \<notin> set (captures ?t)" using mesh_okD(9) [OF assms(1), of "from"] None by (auto simp: finish_def)
    then have "mesh_ok (?t\<lparr>captures := captures ?t @ [from]\<rparr>)" by (intro request_capture_ok [OF t]) simp_all
    then have "mesh_ok (spawn (Capturing from n) (?t\<lparr>captures := captures ?t @ [from]\<rparr>))"
      by (rule spawn_ok) simp_all
    then have "mesh_ok (deliver from n (OnOffer from msg) (spawn (Capturing from n) (?t\<lparr>captures := captures ?t @ [from]\<rparr>)))"
      using deliver_ok [of _ "from" "\<lparr>ps_peer = n, ps_capture = None\<rparr>"] by (simp add: spawn_def)
    moreover have "mesh_ok (deliver from n (OnOffer from msg) ?t)" using deliver_ok [OF t new] by simp
    ultimately show ?thesis using None by (simp add: insert_peer_def finish_def Let_def)
  qed
qed

lemma call_ok: "mesh_ok s \<Longrightarrow> mesh_ok (on_call c s)"
  by (cases c) (auto intro: spawn_ok)

lemma step_ok: "mesh_step source s s' \<Longrightarrow> mesh_ok s \<Longrightarrow> mesh_ok s'"
proof (induction rule: mesh_step.cases)
  case (capture "from" n)
  then obtain ps where "peers s from = Some ps" "ps_peer ps = n" using mesh_okD(6) [of s "from" n] by blast
  then have "mesh_ok (hold_capture from n (finish (Capturing from n) s))"
    using hold_capture_ok [OF finish_ok [OF capture(4)]] by (simp add: finish_def)
  with capture show ?case by simp
qed (auto intro: call_ok spawn_ok finish_ok deliver_ok create_ok insert_ok simp: peers_finish)

lemma reachable_ok: "reachable source s \<Longrightarrow> mesh_ok s"
  by (induction rule: reachable.induct) (auto intro: mesh_new_ok step_ok)

section \<open>What the table forgets\<close>

lemma on_call_peers [simp]: "peers (on_call c s) = peers s"
  by (cases c) (simp_all add: spawn_def)

text \<open>A session is never removed, and its peer connection never replaced: whoever called once is served by it for ever.\<close>

lemma session_stays:
  assumes "mesh_step source s s'" and "peers s from = Some ps"
  shows "\<exists>ps'. peers s' from = Some ps' \<and> ps_peer ps' = ps_peer ps"
  using assms
  by (cases rule: mesh_step.cases) (auto simp: mesh_ops Let_def split: option.split)

text \<open>
  A candidate that comes in while its caller's peer is still being created finds no session and is dropped:
  all tasks end, and the connection has had the offer only.
\<close>

lemma early_candidate_dropped:
  "\<exists>s. (mesh_step False)\<^sup>*\<^sup>* (on_call (OnIce from candidate) (on_call (OnOffer from msg) mesh_new)) s \<and>
     mesh_tasks s = {#} \<and> delivered s = [(from, 0, OnOffer from msg)]"
proof -
  let ?r = "Relaying from (OnIce from candidate)" and ?s = "\<lambda>M k. \<lparr>peers = Map.empty, mesh_tasks = M, created = k, delivered = [], captures = []\<rparr>"
  let ?last = "\<lparr>peers = [from \<mapsto> \<lparr>ps_peer = 0, ps_capture = None\<rparr>], mesh_tasks = {#}, created = 1,
     delivered = [(from, 0, OnOffer from msg)], captures = []\<rparr>"
  have "on_call (OnIce from candidate) (on_call (OnOffer from msg) mesh_new) = ?s {#?r, Lookup from msg#} 0"
    by (simp add: mesh_new_def spawn_def)
  moreover have "mesh_step False (?s {#?r, Lookup from msg#} 0) (?s {#?r, Creating from msg#} 0)"
    using mesh_step.missing [of "from" msg "?s {#?r, Lookup from msg#} 0" False] by (simp add: mesh_ops add_mset_commute)
  moreover have "mesh_step False (?s {#?r, Creating from msg#} 0) (?s {#Creating from msg#} 0)"
    using mesh_step.drop [of "from" "OnIce from candidate" "?s {#?r, Creating from msg#} 0" False] by (simp add: mesh_ops)
  moreover have "mesh_step False (?s {#Creating from msg#} 0) (?s {#Inserting from msg 0#} 1)"
    using mesh_step.create [of "from" msg "?s {#Creating from msg#} 0" False] by (simp add: mesh_ops)
  moreover have "mesh_step False (?s {#Inserting from msg 0#} 1) ?last"
    using mesh_step.insert [of "from" msg 0 "?s {#Inserting from msg 0#} 1" False] by (simp add: mesh_ops)
  ultimately have "(mesh_step False)\<^sup>*\<^sup>* (on_call (OnIce from candidate) (on_call (OnOffer from msg) mesh_new)) ?last"
    by (metis (no_types, lifting) rtranclp.rtrancl_refl rtranclp.rtrancl_into_rtrancl)
  then show ?thesis by (intro exI [of _ ?last]) simp
qed

section \<open>Properties\<close>

text \<open>
  C9: concurrent offers share one peer connection. In every state the listener can reach, in any
  interleaving of the tasks its callbacks spawn, two callbacks reached the same peer connection if and
  only if they came from the same caller; media capture was requested at most once per caller, and a
  session only ever holds the capture of its own peer connection.
\<close>

theorem one_peer_per_caller:
  assumes "reachable source s"
  shows "(\<forall>f n c g k d. (f, n, c) \<in> set (delivered s) \<and> (g, k, d) \<in> set (delivered s) \<longrightarrow> (n = k \<longleftrightarrow> f = g)) \<and>
    distinct (captures s) \<and>
    (\<forall>f ps m. peers s f = Some ps \<and> ps_capture ps = Some m \<longrightarrow> m = ps_peer ps)"
proof -
  note ok = mesh_okD [OF reachable_ok [OF assms]]
  have "n = k \<longleftrightarrow> f = g" if "(f, n, c) \<in> set (delivered s)" "(g, k, d) \<in> set (delivered s)" for f n c g k d
    using ok(7) [OF that(1)] ok(7) [OF that(2)] ok(5) [of f _ g] by auto
  then show ?thesis using ok(8) ok(4) by fastforce
qed

text \<open>Two offers of the same caller race: both find no session, both create a peer, the second one wins.\<close>

definition demo_offer :: signal_message where
  "demo_offer = \<lparr>sm_sdp = [], sm_kind = Offer, sm_from = ''7'', sm_to = ''8'', sm_ice = []\<rparr>"

definition race :: mesh where
  "race = \<lparr>peers = [''7'' \<mapsto> \<lparr>ps_peer = 1, ps_capture = None\<rparr>], mesh_tasks = {#}, created = 2,
     delivered = [(''7'', 1, OnOffer ''7'' demo_offer), (''7'', 1, OnOffer ''7'' demo_offer)], captures = []\<rparr>"

lemma race_reachable: "reachable False race"
proof -
  let ?l = "Lookup ''7'' demo_offer" and ?c = "Creating ''7'' demo_offer" and ?i = "Inserting ''7'' demo_offer"
  let ?s = "\<lambda>M k. \<lparr>peers = Map.empty, mesh_tasks = M, created = k, delivered = [], captures = []\<rparr>"
  let ?won = "\<lparr>peers = [''7'' \<mapsto> \<lparr>ps_peer = 1, ps_capture = None\<rparr>], mesh_tasks = {#?i 0#}, created = 2,
     delivered = [(''7'', 1, OnOffer ''7'' demo_offer)], captures = []\<rparr>"
  have "reachable False (?s {#} 0)" using reachable.start by (simp add: mesh_new_def)
  then have "reachable False (?s {#?l#} 0)"
    by (rule reachable.step) (use mesh_step.call [of False "?s {#} 0" "OnOffer ''7'' demo_offer"] in \<open>simp add: spawn_def\<close>)
  then have "reachable False (?s {#?l, ?l#} 0)"
    by (rule reachable.step) (use mesh_step.call [of False "?s {#?l#} 0" "OnOffer ''7'' demo_offer"] in \<open>simp add: spawn_def\<close>)
  then have "reachable False (?s {#?c, ?l#} 0)"
    by (rule reachable.step) (use mesh_step.missing [of "''7''" demo_offer "?s {#?l, ?l#} 0" False] in \<open>simp add: mesh_ops\<close>)
  then have "reachable False (?s {#?c, ?c#} 0)"
    by (rule reachable.step) (use mesh_step.missing [of "''7''" demo_offer "?s {#?c, ?l#} 0" False] in \<open>simp add: mesh_ops\<close>)
  then have "reachable False (?s {#?i 0, ?c#} 1)"
    by (rule reachable.step) (use mesh_step.create [of "''7''" demo_offer "?s {#?c, ?c#} 0" False] in \<open>simp add: mesh_ops\<close>)
  then have "reachable False (?s {#?i 1, ?i 0#} 2)"
    by (rule reachable.step) (use mesh_step.create [of "''7''" demo_offer "?s {#?i 0, ?c#} 1" False] in \<open>simp add: mesh_ops numeral_2_eq_2\<close>)
  then have "reachable False ?won"
    by (rule reachable.step) (use mesh_step.insert [of "''7''" demo_offer 1 "?s {#?i 1, ?i 0#} 2" False] in \<open>simp add: mesh_ops\<close>)
  then show ?thesis
    by (rule reachable.step) (use mesh_step.insert [of "''7''" demo_offer 0 ?won False] in \<open>simp add: mesh_ops race_def\<close>)
qed

theorem one_peer_per_caller_witness:
  "reachable False race \<and> created race = 2 \<and> map fst (delivered race) = [''7'', ''7''] \<and>
   map (\<lambda>x. fst (snd x)) (delivered race) = [1, 1] \<and> distinct (captures race)"
proof -
  have "distinct (captures race)" using one_peer_per_caller [OF race_reachable] by blast
  then show ?thesis using race_reachable by (simp add: race_def)
qed

end
