(* ===== verification/Video.thy ===== *)
theory Video
  imports Mesh
begin

text \<open>
  \<open>src/codec.rs\<close>, \<open>src/device.rs\<close>, \<open>src/media.rs\<close> and \<open>src/video.rs\<close>: choosing the codec and the capture
  source, and the WebRTC peer of one call. The peer connection of the webrtc crate is a value of type
  \<open>'pc\<close> that the functions of \<open>webrtc\<close> step; a session description is a \<open>'d\<close>. The device files are the
  record \<open>devices\<close>. A spawned task of a peer is run to its end as one function here;
  \<open>Call\<close> runs it await by await.
\<close>

section \<open>Codec and capture device\<close>

datatype codec = H264

definition codec_from_str :: "string \<Rightarrow> (string, codec) outcome" where
  "codec_from_str s =
     (let other = to_ascii_lowercase s
      in if other = ''h264'' then Ok H264
         else Err (''unsupported --video-codec '' @ [CHR 0x27] @ other @ [CHR 0x27] @ '' (v1 supports: h264)''))"

record codec_parameters =
  clock_rate :: "32 word"
  channels :: "16 word"
  sdp_fmtp_line :: string
  payload_type :: "8 word"

definition h264_codec_parameters :: codec_parameters where
  "h264_codec_parameters =
     \<lparr>clock_rate = 90000, channels = 0, sdp_fmtp_line = ''level-asymmetry-allowed=1;packetization-mode=1'',
      payload_type = 102\<rparr>"

record devices =
  device_exists :: "string \<Rightarrow> bool" \<comment> \<open>\<open>Path::exists\<close>\<close>
  char_device :: "string \<Rightarrow> bool option" \<comment> \<open>\<open>std::fs::metadata\<close>, then \<open>is_char_device\<close>\<close>

datatype device_error = DeviceNotFound string | DeviceIo string | NotACharacterDevice string

text \<open>\<open>Path::file_name\<close>: the last component, unless it is \<open>..\<close>.\<close>

definition file_name :: "string \<Rightarrow> string option" where
  "file_name path =
     (let cs = filter (\<lambda>c. c \<noteq> [] \<and> c \<noteq> ''.'') (split_on CHR ''/'' path)
      in if cs = [] \<or> last cs = ''..'' then None else Some (last cs))"

text \<open>A \<open>VideoDevice\<close> is its path.\<close>

definition from_path :: "devices \<Rightarrow> string \<Rightarrow> (device_error, string) outcome" where
  "from_path D candidate =
     (if \<not> device_exists D candidate then Err (DeviceNotFound candidate)
      else bind_out (ok_or (char_device D candidate) (DeviceIo candidate)) (\<lambda>is_char.
        let name = (case file_name candidate of Some n \<Rightarrow> n | None \<Rightarrow> []);
            looks_like_video = prefix ''video'' name \<and> is_char
        in if \<not> looks_like_video then Err (NotACharacterDevice candidate) else Ok candidate))"

section \<open>Capture\<close>

datatype source_spec = Videotest | V4l2 string

definition encoder_element_name :: "bool \<Rightarrow> string" where
  "encoder_element_name has_nvenc = (if has_nvenc then ''nvv4l2h264enc'' else ''x264enc'')"

definition pipeline_description :: "bool \<Rightarrow> source_spec \<Rightarrow> 32 word \<Rightarrow> 32 word \<Rightarrow> 32 word \<Rightarrow> string" where
  "pipeline_description has_nvenc source width height fps =
     (let caps = '' ! video/x-raw,format=NV12,width='' @ show_nat (unat width) @ '',height='' @
                 show_nat (unat height) @ '',framerate='' @ show_nat (unat fps) @ ''/1'';
          src = (case source of
                   Videotest \<Rightarrow> ''videotestsrc is-live=true pattern=ball'' @ caps
                 | V4l2 dev \<Rightarrow> ''v4l2src device='' @ dev @ caps)
      in src @ '' ! videoconvert ! '' @ encoder_element_name has_nvenc @
         '' ! h264parse ! appsink name=enc drop=true max-buffers=2'')"

text \<open>The source of an outgoing call (\<open>spawn_video_peer\<close>) and of the listener (\<open>start_common_subsystems\<close>).\<close>

definition call_source :: "devices \<Rightarrow> string option \<Rightarrow> source_spec" where
  "call_source D device =
     (case (case device of Some d \<Rightarrow> (case from_path D d of Ok dev \<Rightarrow> Some dev | _ \<Rightarrow> None) | None \<Rightarrow> None) of
        Some dev \<Rightarrow> V4l2 dev
      | None \<Rightarrow> Videotest)"

definition listener_source :: "devices \<Rightarrow> string option \<Rightarrow> source_spec option" where
  "listener_source D device =
     (case device of
        Some d \<Rightarrow> (case from_path D d of Ok dev \<Rightarrow> Some (V4l2 dev) | _ \<Rightarrow> None)
      | None \<Rightarrow> None)"

text \<open>The payload type of a capture: the negotiated one, or the registered one before a negotiation.\<close>

definition capture_payload_type :: "8 word list \<Rightarrow> 8 word" where
  "capture_payload_type negotiated =
     (case negotiated of pt # _ \<Rightarrow> pt | [] \<Rightarrow> payload_type h264_codec_parameters)"

section \<open>The peer of a call\<close>

record track =
  tr_ssrc :: "32 word"
  tr_id :: string
  tr_stream :: string

record ('pc, 'd) webrtc =
  has_payloader :: bool
  registers_codec :: bool
  new_connection :: "string \<Rightarrow> string \<Rightarrow> 'pc option"
  add_track :: "track \<Rightarrow> 'pc \<Rightarrow> 'pc option"
  create_offer :: "'pc \<Rightarrow> 'd option \<times> 'pc"
  create_answer :: "'pc \<Rightarrow> 'd option \<times> 'pc"
  set_local :: "'d \<Rightarrow> 'pc \<Rightarrow> bool \<times> 'pc"
  set_remote :: "'d \<Rightarrow> 'pc \<Rightarrow> bool \<times> 'pc"
  add_candidate :: "ice_candidate \<Rightarrow> 'pc \<Rightarrow> bool \<times> 'pc"
  parse_offer :: "string \<Rightarrow> 'd option"
  parse_answer :: "string \<Rightarrow> 'd option"
  sdp_of :: "'d \<Rightarrow> string"

datatype video_error =
    RegisterCodec
  | NewPeerConnection
  | AddTrack
  | CreateOffer
  | SetLocalDescription
  | PublishOffer transport_error
  | SignalReceiver transport_error

definition FIRST_SSRC :: "32 word" where
  "FIRST_SSRC = 0x51000000"

text \<open>\<open>NEXT_SSRC.fetch_add(1)\<close> wraps. The counter is threaded as \<open>next\<close>.\<close>

definition h264_track :: "('pc, 'd) webrtc \<Rightarrow> string \<Rightarrow> string \<Rightarrow> 32 word \<Rightarrow> ('e, track) outcome \<times> 32 word" where
  "h264_track W i stream_id next_ssrc =
     (if has_payloader W then Ok \<lparr>tr_ssrc = next_ssrc, tr_id = i, tr_stream = stream_id\<rparr> else Panic, next_ssrc + 1)"

record 'pc video_peer =
  vp_robot :: string
  vp_pc :: 'pc
  vp_track :: track

definition build_peer ::
  "('pc, 'd) webrtc \<Rightarrow> string \<Rightarrow> string \<Rightarrow> 32 word \<Rightarrow> (video_error, 'pc \<times> track) outcome \<times> 32 word" where
  "build_peer W robot_id peer_id next_ssrc =
     (if \<not> registers_codec W then (Err RegisterCodec, next_ssrc)
      else case new_connection W robot_id peer_id of
        None \<Rightarrow> (Err NewPeerConnection, next_ssrc)
      | Some pc \<Rightarrow>
          (let (t, next') = h264_track W (robot_id @ ''-cam0'') (robot_id @ ''-stream0'') next_ssrc
           in (bind_out t (\<lambda>track. bind_out (ok_or (add_track W track pc) AddTrack) (\<lambda>pc'. Ok (pc', track))), next')))"

definition offer_peer ::
  "('pc, 'd) webrtc \<Rightarrow> 'n zenoh \<Rightarrow> 'n signal_wire \<Rightarrow> string \<Rightarrow> string \<Rightarrow> 32 word
   \<Rightarrow> (video_error, 'pc video_peer) outcome \<times> 32 word \<times> put list" where
  "offer_peer W Z S robot_id peer_id next_ssrc =
     (case build_peer W robot_id peer_id next_ssrc of
        (Err e, next') \<Rightarrow> (Err e, next', [])
      | (Panic, next') \<Rightarrow> (Panic, next', [])
      | (Ok (pc, track), next') \<Rightarrow>
          (case create_offer W pc of
             (None, _) \<Rightarrow> (Err CreateOffer, next', [])
           | (Some offer, pc1) \<Rightarrow>
               (case set_local W offer pc1 of
                  (False, _) \<Rightarrow> (Err SetLocalDescription, next', [])
                | (True, pc2) \<Rightarrow>
                    (let (res, puts) = publish_offer Z S robot_id peer_id (sdp_of W offer) []
                     in (bind_out (map_err PublishOffer res) (\<lambda>_.
                           Ok \<lparr>vp_robot = robot_id, vp_pc = pc2, vp_track = track\<rparr>), next', puts)))))"

definition answer_peer ::
  "('pc, 'd) webrtc \<Rightarrow> string \<Rightarrow> string \<Rightarrow> 32 word \<Rightarrow> (video_error, 'pc video_peer) outcome \<times> 32 word" where
  "answer_peer W robot_id peer_id next_ssrc =
     (let (res, next') = build_peer W robot_id peer_id next_ssrc
      in (bind_out res (\<lambda>(pc, track). Ok \<lparr>vp_robot = robot_id, vp_pc = pc, vp_track = track\<rparr>), next'))"

section \<open>Callbacks of a peer\<close>

definition answer_offer ::
  "('pc, 'd) webrtc \<Rightarrow> 'n zenoh \<Rightarrow> 'n signal_wire \<Rightarrow> 'pc video_peer \<Rightarrow> string \<Rightarrow> signal_message
   \<Rightarrow> 'pc video_peer \<times> put list" where
  "answer_offer W Z S peer from msg =
     (case parse_offer W (sm_sdp msg) of
        None \<Rightarrow> (peer, [])
      | Some offer \<Rightarrow>
          (case set_remote W offer (vp_pc peer) of
             (False, pc1) \<Rightarrow> (peer\<lparr>vp_pc := pc1\<rparr>, [])
           | (True, pc1) \<Rightarrow>
               (case create_answer W pc1 of
                  (None, pc2) \<Rightarrow> (peer\<lparr>vp_pc := pc2\<rparr>, [])
                | (Some answer, pc2) \<Rightarrow>
                    (case set_local W answer pc2 of
                       (False, pc3) \<Rightarrow> (peer\<lparr>vp_pc := pc3\<rparr>, [])
                     | (True, pc3) \<Rightarrow>
                         (peer\<lparr>vp_pc := pc3\<rparr>,
                          snd (publish_answer Z S (vp_robot peer) from (sdp_of W answer) []))))))"

definition apply_answer :: "('pc, 'd) webrtc \<Rightarrow> 'pc video_peer \<Rightarrow> signal_message \<Rightarrow> 'pc video_peer" where
  "apply_answer W peer msg =
     (case parse_answer W (sm_sdp msg) of
        Some desc \<Rightarrow> peer\<lparr>vp_pc := snd (set_remote W desc (vp_pc peer))\<rparr>
      | None \<Rightarrow> peer)"

definition apply_ice :: "('pc, 'd) webrtc \<Rightarrow> 'pc video_peer \<Rightarrow> ice_candidate \<Rightarrow> 'pc video_peer" where
  "apply_ice W peer candidate = peer\<lparr>vp_pc := snd (add_candidate W candidate (vp_pc peer))\<rparr>"

fun peer_call ::
  "('pc, 'd) webrtc \<Rightarrow> 'n zenoh \<Rightarrow> 'n signal_wire \<Rightarrow> handler_call \<Rightarrow> 'pc video_peer \<Rightarrow> 'pc video_peer \<times> put list" where
  "peer_call W Z S (OnOffer from msg) peer = answer_offer W Z S peer from msg"
| "peer_call W Z S (OnAnswer from msg) peer = (apply_answer W peer msg, [])"
| "peer_call W Z S (OnIce from candidate) peer = (apply_ice W peer candidate, [])"

text \<open>A candidate the connection gathers is published to the peer of the call.\<close>

definition on_ice_candidate ::
  "'n zenoh \<Rightarrow> 'n signal_wire \<Rightarrow> string \<Rightarrow> string \<Rightarrow> ice_candidate option \<Rightarrow> put list" where
  "on_ice_candidate Z S robot_id peer_id candidate =
     (case candidate of None \<Rightarrow> [] | Some ice \<Rightarrow> snd (publish_ice Z S robot_id peer_id ice))"

text \<open>\<open>start_video\<close>, the entry point without the media feature.\<close>

definition start_video ::
  "('pc, 'd) webrtc \<Rightarrow> 'n zenoh \<Rightarrow> 'n signal_wire \<Rightarrow> string \<Rightarrow> string \<Rightarrow> 32 word
   \<Rightarrow> (video_error, 'pc video_peer) outcome \<times> 32 word \<times> put list \<times> signal_task list" where
  "start_video W Z S robot_id peer_id next_ssrc =
     (case offer_peer W Z S robot_id peer_id next_ssrc of
        (Err e, next', puts) \<Rightarrow> (Err e, next', puts, [])
      | (Panic, next', puts) \<Rightarrow> (Panic, next', puts, [])
      | (Ok peer, next', puts) \<Rightarrow>
          (let (res, tasks) = run_signal_receiver Z robot_id
           in (bind_out (map_err SignalReceiver res) (\<lambda>_. Ok peer), next', puts, tasks)))"

section \<open>Stream identifiers\<close>

text \<open>The peers a robot builds one after the other, and the identifiers of their tracks.\<close>

fun answer_peers ::
  "('pc, 'd) webrtc \<Rightarrow> (string \<times> string) list \<Rightarrow> 32 word \<Rightarrow> (video_error, 'pc video_peer) outcome list" where
  "answer_peers W [] next_ssrc = []"
| "answer_peers W ((robot_id, peer_id) # rest) next_ssrc =
     (let (res, next') = answer_peer W robot_id peer_id next_ssrc in res # answer_peers W rest next')"

fun ssrcs :: "(video_error, 'pc video_peer) outcome list \<Rightarrow> 32 word list" where
  "ssrcs [] = []"
| "ssrcs (Ok vp # rest) = tr_ssrc (vp_track vp) # ssrcs rest"
| "ssrcs (_ # rest) = ssrcs rest"

lemma answer_peer_ssrc:
  "(\<exists>e. answer_peer W r p n = (Err e, n)) \<or>
   (\<exists>res. answer_peer W r p n = (res, n + 1) \<and> (\<forall>vp. res = Ok vp \<longrightarrow> tr_ssrc (vp_track vp) = n))"
  by (cases "registers_codec W"; cases "new_connection W r p"; cases "has_payloader W")
    (auto simp: answer_peer_def build_peer_def h264_track_def split: prod.splits)

lemma unat_inc: "unat x + 1 < 2 ^ 32 \<Longrightarrow> unat (x + 1) = Suc (unat x)" for x :: "32 word"
  by (simp add: unat_word_ariths)

lemma ssrcs_window:
  "length ids \<le> 2 ^ 32 \<Longrightarrow> distinct (ssrcs (answer_peers W ids n)) \<and>
    (\<forall>s \<in> set (ssrcs (answer_peers W ids n)). unat (s - n) < length ids)"
proof (induction ids arbitrary: n)
  case (Cons x ids)
  obtain r p where x: "x = (r, p)" by (cases x)
  have len: "length ids < 2 ^ 32" using Cons.prems by simp
  consider e where "answer_peer W r p n = (Err e, n)"
    | res where "answer_peer W r p n = (res, n + 1)" "\<forall>vp. res = Ok vp \<longrightarrow> tr_ssrc (vp_track vp) = n"
    using answer_peer_ssrc [of W r p n] by blast
  then show ?case
  proof cases
    case 1
    with Cons.IH [of n] len show ?thesis by (fastforce simp: x)
  next
    case (2 res)
    let ?rest = "ssrcs (answer_peers W ids (n + 1))"
    have step: "unat (s - n) = Suc (unat (s - (n + 1)))" if "s \<in> set ?rest" for s
    proof -
      have "unat (s - (n + 1)) + 1 < 2 ^ 32" using Cons.IH [of "n + 1"] len that by fastforce
      then have "unat (s - (n + 1) + 1) = Suc (unat (s - (n + 1)))" by (rule unat_inc)
      then show ?thesis by (simp add: algebra_simps)
    qed
    have "n \<notin> set ?rest" using step by fastforce
    moreover have "\<forall>s \<in> set ?rest. unat (s - n) < Suc (length ids)"
      using step Cons.IH [of "n + 1"] len by fastforce
    ultimately show ?thesis using 2 Cons.IH [of "n + 1"] len by (cases res) (auto simp: x)
  qed
qed simp

lemma ssrcs_length: "(\<forall>r \<in> set rs. \<exists>vp. r = Ok vp) \<Longrightarrow> length (ssrcs rs) = length rs"
  by (induction rs rule: ssrcs.induct) auto

lemma answer_peers_length: "length (answer_peers W ids n) = length ids"
  by (induction ids arbitrary: n) (auto split: prod.splits)

section \<open>Properties\<close>

text \<open>
  stream identifiers are unique up to the wrap of their counter. The tracks of any \<open>2 ^ 32\<close> peers
  that one process builds in a row, starting anywhere, have different identifiers, however many of the
  builds fail; with more peers, all of them built, two tracks share one.
\<close>

theorem ssrcs_unique:
  "(length ids \<le> 2 ^ 32 \<longrightarrow> distinct (ssrcs (answer_peers W ids n))) \<and>
   (2 ^ 32 < length ids \<and> (\<forall>r \<in> set (answer_peers W ids n). \<exists>vp. r = Ok vp) \<longrightarrow>
      \<not> distinct (ssrcs (answer_peers W ids n)))"
proof -
  have "length (ssrcs (answer_peers W ids n)) \<le> 2 ^ 32" if "distinct (ssrcs (answer_peers W ids n))"
    using that card_mono [of "UNIV :: 32 word set" "set (ssrcs (answer_peers W ids n))"]
    by (simp add: distinct_card card_word)
  then show ?thesis using ssrcs_window [of ids W n] ssrcs_length [of "answer_peers W ids n"]
    by (auto simp: answer_peers_length)
qed

definition demo_webrtc :: "(string list, string) webrtc" where
  "demo_webrtc = \<lparr>has_payloader = True, registers_codec = True, new_connection = (\<lambda>r p. if p = [] then None else Some []),
     add_track = (\<lambda>_ pc. Some pc), create_offer = (\<lambda>pc. (Some ''v=0'', pc)), create_answer = (\<lambda>pc. (Some ''v=1'', pc)),
     set_local = (\<lambda>d pc. (True, pc @ [d])), set_remote = (\<lambda>d pc. (True, pc @ [d])), add_candidate = (\<lambda>_ pc. (True, pc)),
     parse_offer = Some, parse_answer = Some, sdp_of = (\<lambda>d. d)\<rparr>"

theorem ssrcs_unique_witness:
  "ssrcs (answer_peers demo_webrtc [(''7'', ''8''), (''7'', []), (''7'', ''9'')] FIRST_SSRC) = [0x51000000, 0x51000001] \<and>
   distinct (ssrcs (answer_peers demo_webrtc [(''7'', ''8''), (''7'', []), (''7'', ''9'')] FIRST_SSRC))"
  using ssrcs_unique [of "[(''7'', ''8''), (''7'', []), (''7'', ''9'')]" demo_webrtc FIRST_SSRC]
  by (simp add: answer_peer_def build_peer_def h264_track_def demo_webrtc_def FIRST_SSRC_def)

text \<open>
  C18: a call is answered. Robot \<open>a\<close> calls robot \<open>b\<close>: the offer of its connection reaches exactly the
  receiver of \<open>b\<close>; when the connection of the peer that answers there accepts it, one answer is published,
  which reaches the receiver of \<open>a\<close>, and the caller's connection gets exactly that answer as its remote
  description. A third robot hears of neither.
\<close>

theorem call_is_answered:
  assumes "delivery_documented delivers" and "\<And>sub. z_declare Z sub"
    and "signal_id a" and "signal_id b" and "\<not> sublist ''liveliness'' a" and "\<not> sublist ''liveliness'' b"
    and "\<And>sdp. carried Z S \<lparr>sm_sdp = sdp, sm_kind = Offer, sm_from = a, sm_to = b, sm_ice = []\<rparr>"
    and "\<And>sdp. carried Z S \<lparr>sm_sdp = sdp, sm_kind = Answer, sm_from = b, sm_to = a, sm_ice = []\<rparr>"
    and "build_peer W a b n = (Ok (pc, track), n')" and "create_offer W pc = (Some offer, pc1)"
    and "set_local W offer pc1 = (True, pc2)"
    and "vp_robot callee = b" and "parse_offer W (sdp_of W offer) = Some remote"
    and "set_remote W remote (vp_pc callee) = (True, qc1)" and "create_answer W qc1 = (Some answer, qc2)"
    and "set_local W answer qc2 = (True, qc3)" and "parse_answer W (sdp_of W answer) = Some reply"
  shows "\<exists>p q msg ack. snd (snd (offer_peer W Z S a b n)) = [p] \<and>
    (\<forall>c. signal_id c \<longrightarrow> calls delivers S (snd (run_signal_receiver Z c)) p = (if c = b then [OnOffer a msg] else [])) \<and>
    snd (peer_call W Z S (OnOffer a msg) callee) = [q] \<and>
    (\<forall>c. signal_id c \<longrightarrow> calls delivers S (snd (run_signal_receiver Z c)) q = (if c = a then [OnAnswer b ack] else [])) \<and>
    vp_pc (fst (peer_call W Z S (OnAnswer b ack) \<lparr>vp_robot = a, vp_pc = pc2, vp_track = track\<rparr>)) =
      snd (set_remote W reply pc2)"
proof -
  define msg where "msg = \<lparr>sm_sdp = sdp_of W offer, sm_kind = Offer, sm_from = a, sm_to = b, sm_ice = []\<rparr>"
  define ack where "ack = \<lparr>sm_sdp = sdp_of W answer, sm_kind = Answer, sm_from = b, sm_to = a, sm_ice = []\<rparr>"
  obtain p where p: "snd (publish_offer Z S a b (sdp_of W offer) []) = [p]" "put_key p = signal_key a b ''offer''"
      "message_of S (put_bytes p) = Some msg"
    using published_signal [OF assms(7) assms(3,4)] unfolding msg_def by blast
  obtain q where q: "snd (publish_answer Z S b a (sdp_of W answer) []) = [q]" "put_key q = signal_key b a ''answer''"
      "message_of S (put_bytes q) = Some ack"
    using published_answer [OF assms(8) assms(4,3)] unfolding ack_def by blast
  have "snd (snd (offer_peer W Z S a b n)) = [p]"
    using p(1) assms(9-11) by (simp add: offer_peer_def case_prod_beta)
  moreover have "snd (peer_call W Z S (OnOffer a msg) callee) = [q]"
    using q(1) assms(12-16) by (simp add: answer_offer_def msg_def)
  moreover have "\<forall>c. signal_id c \<longrightarrow> calls delivers S (snd (run_signal_receiver Z c)) p = (if c = b then [OnOffer a msg] else [])"
    using key_delivery.signal_calls [OF key_delivery.intro [OF assms(1)] assms(2-4) _ _ p(2,3)] assms(6) by (auto simp: msg_def)
  moreover have "\<forall>c. signal_id c \<longrightarrow> calls delivers S (snd (run_signal_receiver Z c)) q = (if c = a then [OnAnswer b ack] else [])"
    using key_delivery.signal_calls [OF key_delivery.intro [OF assms(1)] assms(2,4,3) _ _ q(2,3)] assms(5) by (auto simp: ack_def)
  moreover have "vp_pc (fst (peer_call W Z S (OnAnswer b ack) \<lparr>vp_robot = a, vp_pc = pc2, vp_track = track\<rparr>)) =
      snd (set_remote W reply pc2)"
    using assms(17) by (simp add: apply_answer_def ack_def)
  ultimately show ?thesis by blast
qed

text \<open>Offers and answers between robots 7 and 8, each coded by a letter before its description.\<close>

definition call_wire :: "unit signal_wire" where
  "call_wire = \<lparr>message_value = (\<lambda>m. Some (JString ((case sm_kind m of Offer \<Rightarrow> CHR ''o'' | Answer \<Rightarrow> CHR ''a'') # sm_sdp m))),
     message_of = (\<lambda>b. if hd b = CHR ''o'' then Some \<lparr>sm_sdp = tl b, sm_kind = Offer, sm_from = ''7'', sm_to = ''8'', sm_ice = []\<rparr>
       else Some \<lparr>sm_sdp = tl b, sm_kind = Answer, sm_from = ''8'', sm_to = ''7'', sm_ice = []\<rparr>),
     presence_value = (\<lambda>_. None), presence_of = (\<lambda>_. None)\<rparr>"

theorem call_is_answered_witness:
  "\<exists>p q msg ack. snd (snd (offer_peer demo_webrtc signal_mesh call_wire ''7'' ''8'' FIRST_SSRC)) = [p] \<and>
     calls ke_delivers call_wire (snd (run_signal_receiver signal_mesh ''8'')) p = [OnOffer ''7'' msg] \<and>
     calls ke_delivers call_wire (snd (run_signal_receiver signal_mesh ''7'')) p = [] \<and>
     snd (peer_call demo_webrtc signal_mesh call_wire (OnOffer ''7'' msg)
       \<lparr>vp_robot = ''8'', vp_pc = [], vp_track = \<lparr>tr_ssrc = 0, tr_id = [], tr_stream = []\<rparr>\<rparr>) = [q] \<and>
     calls ke_delivers call_wire (snd (run_signal_receiver signal_mesh ''7'')) q = [OnAnswer ''8'' ack]"
proof -
  let ?t = "\<lparr>tr_ssrc = FIRST_SSRC, tr_id = ''7-cam0'', tr_stream = ''7-stream0''\<rparr>"
  have "\<not> sublist ''liveliness'' ''7''" "\<not> sublist ''liveliness'' ''8''" by (auto dest: sublist_length_le)
  moreover have "signal_id ''7''" "signal_id ''8''" by (simp_all add: signal_id_def)
  moreover have "build_peer demo_webrtc ''7'' ''8'' FIRST_SSRC = (Ok ([], ?t), FIRST_SSRC + 1)"
    by (simp add: build_peer_def h264_track_def demo_webrtc_def)
  ultimately show ?thesis
    using call_is_answered [OF ke_delivers_documented, of signal_mesh "''7''" "''8''" call_wire demo_webrtc FIRST_SSRC "[]" ?t
      "FIRST_SSRC + 1" "''v=0''" "[]" "[''v=0'']"
      "\<lparr>vp_robot = ''8'', vp_pc = [], vp_track = \<lparr>tr_ssrc = 0, tr_id = [], tr_stream = []\<rparr>\<rparr>"
      "''v=0''" "[''v=0'']" "''v=1''" "[''v=0'']" "[''v=0'', ''v=1'']" "''v=1''"]
    by (auto simp: carried_def call_wire_def signal_mesh_def demo_webrtc_def)
qed

text \<open>
  a call answers strangers. Robot \<open>a\<close> is in a call with \<open>b\<close>, whatever state its connection is in. An
  offer of a third robot \<open>c\<close> to \<open>a\<close> reaches the receiver of that call too, and the callback does not ask
  whose offer it is: if the connection takes it, its remote description is now that of \<open>c\<close>, and the
  connection of the call with \<open>b\<close> sends \<open>c\<close> an answer.
\<close>

theorem call_answers_strangers:
  assumes "delivery_documented delivers" and "\<And>sub. z_declare Z sub"
    and "signal_id a" and "signal_id c" and "\<not> sublist ''liveliness'' a"
    and "msg = \<lparr>sm_sdp = sdp, sm_kind = Offer, sm_from = c, sm_to = a, sm_ice = []\<rparr>" and "carried Z S msg"
    and "\<And>sdp. carried Z S \<lparr>sm_sdp = sdp, sm_kind = Answer, sm_from = a, sm_to = c, sm_ice = []\<rparr>"
    and "fst (offer_peer W Z S a b n) = Ok peer" and "conn = peer\<lparr>vp_pc := pc\<rparr>" and "c \<noteq> b"
    and "parse_offer W sdp = Some remote" and "set_remote W remote pc = (True, pc1)"
    and "create_answer W pc1 = (Some answer, pc2)" and "set_local W answer pc2 = (True, pc3)"
  shows "\<exists>p q. snd (publish_offer Z S c a sdp []) = [p] \<and>
    calls delivers S (snd (run_signal_receiver Z a)) p = [OnOffer c msg] \<and>
    peer_call W Z S (OnOffer c msg) conn = (conn\<lparr>vp_pc := pc3\<rparr>, [q]) \<and> put_key q = signal_key a c ''answer''"
proof -
  obtain p where p: "snd (publish_offer Z S c a sdp []) = [p]" "put_key p = signal_key c a ''offer''"
      "message_of S (put_bytes p) = Some msg"
    using published_signal [OF assms(7) [unfolded assms(6)] assms(4,3)] unfolding assms(6) by blast
  obtain q where q: "snd (publish_answer Z S a c (sdp_of W answer) []) = [q]" "put_key q = signal_key a c ''answer''"
    using published_answer [OF assms(8) assms(3,4)] by blast
  have "calls delivers S (snd (run_signal_receiver Z a)) p = [OnOffer c msg]"
    using key_delivery.signal_calls [OF key_delivery.intro [OF assms(1)] assms(2,4,3,3) _ p(2,3)] assms(5) by (simp add: assms(6))
  moreover have "vp_robot peer = a"
    using assms(9) by (auto simp: offer_peer_def Let_def case_prod_beta bind_out_Ok split: outcome.splits option.splits bool.splits prod.splits)
  ultimately show ?thesis
    using p(1) q assms(10,12-15) by (simp add: answer_offer_def assms(6))
qed

definition stranger_wire :: "unit signal_wire" where
  "stranger_wire = call_wire\<lparr>message_of := (\<lambda>b. if hd b = CHR ''o''
       then Some \<lparr>sm_sdp = tl b, sm_kind = Offer, sm_from = ''9'', sm_to = ''7'', sm_ice = []\<rparr>
       else Some \<lparr>sm_sdp = tl b, sm_kind = Answer, sm_from = ''7'', sm_to = ''9'', sm_ice = []\<rparr>)\<rparr>"

theorem call_answers_strangers_witness:
  "\<exists>peer q. fst (offer_peer demo_webrtc signal_mesh stranger_wire ''7'' ''8'' FIRST_SSRC) = Ok peer \<and>
     snd (peer_call demo_webrtc signal_mesh stranger_wire
       (OnOffer ''9'' \<lparr>sm_sdp = ''v=0'', sm_kind = Offer, sm_from = ''9'', sm_to = ''7'', sm_ice = []\<rparr>) peer) = [q] \<and>
     put_key q = ''robot/7/signal/9/answer''"
proof -
  have "\<not> sublist ''liveliness'' ''7''" by (auto dest: sublist_length_le)
  moreover have "signal_id ''7''" "signal_id ''9''" by (simp_all add: signal_id_def)
  moreover have key: "(signal_offer_key ''7'' ''8'' :: (transport_error, topic) outcome) = Ok (Topic ''robot/7/signal/8/offer'')"
    by code_simp
  have "\<exists>peer. fst (offer_peer demo_webrtc signal_mesh stranger_wire ''7'' ''8'' FIRST_SSRC) = Ok peer"
    by (simp add: offer_peer_def build_peer_def h264_track_def demo_webrtc_def publish_offer_def with_key_def key put_signal_def
        stranger_wire_def call_wire_def publish_def send_put_def signal_mesh_def)
  then obtain peer where "fst (offer_peer demo_webrtc signal_mesh stranger_wire ''7'' ''8'' FIRST_SSRC) = Ok peer" by blast
  moreover have "peer = peer\<lparr>vp_pc := vp_pc peer\<rparr>" by simp
  ultimately show ?thesis
    using call_answers_strangers [OF ke_delivers_documented, of signal_mesh "''7''" "''9''" _ "''v=0''" stranger_wire demo_webrtc "''8''"
        FIRST_SSRC peer peer "vp_pc peer" "''v=0''" "vp_pc peer @ [''v=0'']" "''v=1''" "vp_pc peer @ [''v=0'']" "vp_pc peer @ [''v=0'', ''v=1'']"]
    by (fastforce simp: carried_def stranger_wire_def call_wire_def signal_mesh_def demo_webrtc_def signal_key_def)
qed

end
