(* ===== verification/Capture.thy ===== *)
theory Capture
  imports Video
begin

text \<open>
  The capture side of \<open>src/media.rs\<close> and \<open>src/video.rs\<close>: GStreamer pipelines, the handles that own them
  and the start of an outgoing call. GStreamer is the record \<open>gstreamer\<close>; the pipelines a process has
  built are a list, a pipeline is its index. Dropping a handle stops its pipeline, detaching the handle
  gives it up. The properties say which pipelines run.
\<close>

section \<open>Pipelines\<close>

datatype launched = LaunchFails | NotAPipeline | Launched
datatype sink = NoSink | OtherElement | AppSink

record gstreamer =
  gst_init :: bool
  has_nvenc_element :: bool \<comment> \<open>\<open>ElementFactory::find\<close>\<close>
  parse_launch :: "string \<Rightarrow> launched"
  enc_sink :: "string \<Rightarrow> sink" \<comment> \<open>the element named \<open>enc\<close> of a description\<close>
  plays :: "string \<Rightarrow> bool" \<comment> \<open>setting the state to \<open>Playing\<close> succeeds\<close>

datatype media_error = GstInit | ParseLaunch | NotPipeline | SinkMissing | NotAppSink | SetPlaying

text \<open>What a pipeline feeds: the identifier and the payload type of the track.\<close>

record pipeline =
  pl_description :: string
  pl_playing :: bool
  pl_feeds :: "(32 word \<times> 8 word) option"

definition build_pipeline ::
  "gstreamer \<Rightarrow> source_spec \<Rightarrow> 32 word \<Rightarrow> 32 word \<Rightarrow> 32 word \<Rightarrow> pipeline list
   \<Rightarrow> (media_error, nat) outcome \<times> pipeline list" where
  "build_pipeline G source width height fps pls =
     (if \<not> gst_init G then (Err GstInit, pls)
      else let desc = pipeline_description (has_nvenc_element G) source width height fps
        in case parse_launch G desc of
             LaunchFails \<Rightarrow> (Err ParseLaunch, pls)
           | NotAPipeline \<Rightarrow> (Err NotPipeline, pls)
           | Launched \<Rightarrow>
               (Ok (length pls), pls @ [\<lparr>pl_description = desc, pl_playing = False, pl_feeds = None\<rparr>]))"

definition start_pipeline ::
  "gstreamer \<Rightarrow> nat \<Rightarrow> 32 word \<times> 8 word \<Rightarrow> pipeline list \<Rightarrow> (media_error, unit) outcome \<times> pipeline list" where
  "start_pipeline G n feed pls =
     (case enc_sink G (pl_description (pls ! n)) of
        NoSink \<Rightarrow> (Err SinkMissing, pls)
      | OtherElement \<Rightarrow> (Err NotAppSink, pls)
      | AppSink \<Rightarrow>
          (let connected = pls[n := (pls ! n)\<lparr>pl_feeds := Some feed\<rparr>]
           in if plays G (pl_description (pls ! n))
              then (Ok (), connected[n := (connected ! n)\<lparr>pl_playing := True\<rparr>])
              else (Err SetPlaying, connected)))"

definition stop_pipeline :: "nat \<Rightarrow> pipeline list \<Rightarrow> pipeline list" where
  "stop_pipeline n pls = pls[n := (pls ! n)\<lparr>pl_playing := False\<rparr>]"

text \<open>
  What the sink pulls, and the frame the callback hands on. The flow goes on whatever happens: the
  callback always answers \<open>FlowSuccess::Ok\<close>.
\<close>

datatype pulled = PullFails | NoBuffer | Unreadable | Buffer string

fun new_sample :: "pulled \<Rightarrow> string option" where
  "new_sample (Buffer bytes) = Some bytes"
| "new_sample _ = None"

section \<open>Captures\<close>

datatype capture_error = NoRuntime | MediaError media_error | NoParameters

text \<open>The handles that are alive, and the pipelines that were given up with \<open>detach\<close>.\<close>

record studio =
  st_pipelines :: "pipeline list"
  st_handles :: "nat set"
  st_detached :: "nat set"

definition studio_new :: studio where
  "studio_new = \<lparr>st_pipelines = [], st_handles = {}, st_detached = {}\<rparr>"

text \<open>
  \<open>start_capture\<close>. \<open>runtime\<close>: the caller runs in a tokio runtime; \<open>codecs\<close>: the payload types of the
  sender's parameters, \<open>None\<close> if they cannot be read. Every track here has an identifier.
\<close>

definition start_capture ::
  "gstreamer \<Rightarrow> bool \<Rightarrow> 8 word list option \<Rightarrow> 'pc video_peer \<Rightarrow> source_spec \<Rightarrow> 32 word \<Rightarrow> 32 word \<Rightarrow> 32 word \<Rightarrow> studio
   \<Rightarrow> (capture_error, nat) outcome \<times> studio" where
  "start_capture G runtime codecs peer source width height fps s =
     (if \<not> runtime then (Err NoRuntime, s)
      else case build_pipeline G source width height fps (st_pipelines s) of
        (Err e, pls) \<Rightarrow> (Err (MediaError e), s\<lparr>st_pipelines := pls\<rparr>)
      | (Panic, pls) \<Rightarrow> (Panic, s\<lparr>st_pipelines := pls\<rparr>)
      | (Ok n, pls) \<Rightarrow>
          (case codecs of
             None \<Rightarrow> (Err NoParameters, s\<lparr>st_pipelines := pls\<rparr>)
           | Some pts \<Rightarrow>
               (case start_pipeline G n (tr_ssrc (vp_track peer), capture_payload_type pts) pls of
                  (Err e, pls') \<Rightarrow> (Err (MediaError e), s\<lparr>st_pipelines := pls'\<rparr>)
                | (Panic, pls') \<Rightarrow> (Panic, s\<lparr>st_pipelines := pls'\<rparr>)
                | (Ok _, pls') \<Rightarrow> (Ok n, s\<lparr>st_pipelines := pls', st_handles := insert n (st_handles s)\<rparr>))))"

text \<open>The duration of a frame in seconds, before it is rounded to nanoseconds.\<close>

definition frame_duration :: "32 word \<Rightarrow> rat" where
  "frame_duration fps = 1 / of_nat (max (unat fps) 1)"

definition drop_handle :: "nat \<Rightarrow> studio \<Rightarrow> studio" where
  "drop_handle n s =
     (if n \<in> st_handles s
      then s\<lparr>st_pipelines := stop_pipeline n (st_pipelines s), st_handles := st_handles s - {n}\<rparr>
      else s)"

definition detach_handle :: "nat \<Rightarrow> studio \<Rightarrow> studio" where
  "detach_handle n s =
     (if n \<in> st_handles s
      then s\<lparr>st_handles := st_handles s - {n}, st_detached := insert n (st_detached s)\<rparr>
      else s)"

section \<open>An outgoing call\<close>

text \<open>
  \<open>start_video_with_source\<close>: the offer, the capture at 1280x720 and 30 frames a second, whose handle is
  detached at once, and then the receiver. \<open>codecs\<close> depends on the connection.
\<close>

definition start_video_with_source ::
  "('pc, 'd) webrtc \<Rightarrow> 'n zenoh \<Rightarrow> 'n signal_wire \<Rightarrow> gstreamer \<Rightarrow> ('pc \<Rightarrow> 8 word list option) \<Rightarrow> string \<Rightarrow> string \<Rightarrow> source_spec
   \<Rightarrow> 32 word \<Rightarrow> studio \<Rightarrow> (video_error, 'pc video_peer) outcome \<times> put list \<times> signal_task list \<times> studio" where
  "start_video_with_source W Z S G codecs robot_id peer_id source next_ssrc s =
     (case offer_peer W Z S robot_id peer_id next_ssrc of
        (Err e, _, puts) \<Rightarrow> (Err e, puts, [], s)
      | (Panic, _, puts) \<Rightarrow> (Panic, puts, [], s)
      | (Ok peer, _, puts) \<Rightarrow>
          (case start_capture G True (codecs (vp_pc peer)) peer source 1280 720 30 s of
             (Panic, s1) \<Rightarrow> (Panic, puts, [], s1)
           | (cap, s1) \<Rightarrow>
               (let s2 = (case cap of Ok n \<Rightarrow> detach_handle n s1 | _ \<Rightarrow> s1);
                    (res, tasks) = run_signal_receiver Z robot_id
                in (bind_out (map_err SignalReceiver res) (\<lambda>_. Ok peer), puts, tasks, s2))))"

text \<open>\<open>spawn_video_peer\<close>: the task of the call that \<open>--video-peer\<close> asks for; its error is only logged.\<close>

definition spawn_video_peer ::
  "devices \<Rightarrow> string option \<Rightarrow> string option \<Rightarrow> string \<Rightarrow> (string \<times> string \<times> source_spec) option" where
  "spawn_video_peer D peer device robot_id =
     (case peer of None \<Rightarrow> None | Some p \<Rightarrow> Some (robot_id, p, call_source D device))"

section \<open>Which pipelines run\<close>

datatype 'pc capture_event =
    StartCapture bool "8 word list option" "'pc video_peer" source_spec "32 word" "32 word" "32 word"
  | DropHandle nat
  | DetachHandle nat

fun studio_step :: "gstreamer \<Rightarrow> studio \<Rightarrow> 'pc capture_event \<Rightarrow> studio" where
  "studio_step G s (StartCapture runtime codecs peer source width height fps) =
     snd (start_capture G runtime codecs peer source width height fps s)"
| "studio_step G s (DropHandle n) = drop_handle n s"
| "studio_step G s (DetachHandle n) = detach_handle n s"

definition plays_now :: "studio \<Rightarrow> nat \<Rightarrow> bool" where
  "plays_now s n \<longleftrightarrow> n < length (st_pipelines s) \<and> pl_playing (st_pipelines s ! n)"

definition studio_ok :: "studio \<Rightarrow> bool" where
  "studio_ok s \<longleftrightarrow> (\<forall>n. plays_now s n \<longleftrightarrow> n \<in> st_handles s \<union> st_detached s) \<and> st_handles s \<inter> st_detached s = {}"

lemma studio_okD:
  assumes "studio_ok s"
  shows "plays_now s n \<longleftrightarrow> n \<in> st_handles s \<union> st_detached s" and "st_handles s \<inter> st_detached s = {}"
  using assms by (simp_all add: studio_ok_def)

lemma build_pipeline_grows:
  "snd (build_pipeline G source w h fps pls) = pls \<or>
   (\<exists>pl. build_pipeline G source w h fps pls = (Ok (length pls), pls @ [pl]) \<and> \<not> pl_playing pl)"
  by (auto simp: build_pipeline_def Let_def split: launched.split)

lemma start_pipeline_last:
  "start_pipeline G (length pls) feed (pls @ [pl]) =
     (case enc_sink G (pl_description pl) of
        NoSink \<Rightarrow> (Err SinkMissing, pls @ [pl])
      | OtherElement \<Rightarrow> (Err NotAppSink, pls @ [pl])
      | AppSink \<Rightarrow>
          if plays G (pl_description pl)
          then (Ok (), pls @ [pl\<lparr>pl_feeds := Some feed, pl_playing := True\<rparr>])
          else (Err SetPlaying, pls @ [pl\<lparr>pl_feeds := Some feed\<rparr>]))"
  by (simp add: start_pipeline_def Let_def split: sink.split)

text \<open>A start either leaves a new pipeline that does not play, at most, or a playing one with its handle.\<close>

lemma start_capture_effect:
  "(\<exists>e pls. start_capture G rt codecs peer src w h fps s = (Err e, s\<lparr>st_pipelines := pls\<rparr>) \<and>
      (pls = st_pipelines s \<or> (\<exists>pl. pls = st_pipelines s @ [pl] \<and> \<not> pl_playing pl))) \<or>
   (\<exists>pl. start_capture G rt codecs peer src w h fps s =
      (Ok (length (st_pipelines s)), s\<lparr>st_pipelines := st_pipelines s @ [pl],
         st_handles := insert (length (st_pipelines s)) (st_handles s)\<rparr>) \<and>
      pl_playing pl \<and> (\<exists>pt. pl_feeds pl = Some (tr_ssrc (vp_track peer), pt)))"
proof (cases rt)
  case True
  obtain res pls where build: "build_pipeline G src w h fps (st_pipelines s) = (res, pls)" by fastforce
  show ?thesis
  proof (cases res)
    case (Ok n)
    then obtain pl where pl: "build_pipeline G src w h fps (st_pipelines s) = (Ok (length (st_pipelines s)), st_pipelines s @ [pl])"
        "\<not> pl_playing pl"
      using build by (auto simp: build_pipeline_def Let_def split: launched.splits if_splits)
    show ?thesis
    proof (cases codecs)
      case None
      with True pl show ?thesis by (auto simp: start_capture_def)
    next
      case (Some pts)
      with True pl show ?thesis
        by (cases "enc_sink G (pl_description pl)"; cases "plays G (pl_description pl)")
          (auto simp: start_capture_def start_pipeline_last)
    qed
  next
    case (Err e)
    then have "pls = st_pipelines s"
      using build by (auto simp: build_pipeline_def Let_def split: launched.splits if_splits)
    with True Err build show ?thesis
      by (intro disjI1 exI [of _ "MediaError e"] exI [of _ "st_pipelines s"]) (simp add: start_capture_def)
  next
    case Panic
    with build show ?thesis by (auto simp: build_pipeline_def Let_def split: launched.splits if_splits)
  qed
next
  case False
  then show ?thesis
    by (intro disjI1 exI [of _ NoRuntime] exI [of _ "st_pipelines s"]) (simp add: start_capture_def)
qed

lemma plays_now_append:
  "plays_now (s\<lparr>st_pipelines := st_pipelines s @ [pl]\<rparr>) n \<longleftrightarrow> plays_now s n \<or> n = length (st_pipelines s) \<and> pl_playing pl"
  by (auto simp: plays_now_def nth_append)

lemma plays_now_views [simp]:
  "plays_now (s\<lparr>st_handles := H\<rparr>) n \<longleftrightarrow> plays_now s n" "plays_now (s\<lparr>st_detached := H\<rparr>) n \<longleftrightarrow> plays_now s n"
  by (simp_all add: plays_now_def)

lemma plays_now_stop:
  "plays_now (s\<lparr>st_pipelines := stop_pipeline k (st_pipelines s)\<rparr>) n \<longleftrightarrow> plays_now s n \<and> n \<noteq> k"
  by (cases "n = k") (auto simp: plays_now_def stop_pipeline_def)

lemma start_ok:
  assumes "studio_ok s"
  shows "studio_ok (snd (start_capture G rt codecs peer src w h fps s))"
proof -
  let ?n = "length (st_pipelines s)"
  have fresh: "?n \<notin> st_handles s \<union> st_detached s"
    using studio_okD(1) [OF assms, of ?n] by (simp add: plays_now_def)
  have keep: "studio_ok (s\<lparr>st_pipelines := pls\<rparr>)" if "pls = st_pipelines s" for pls
    using assms that by simp
  have idle: "studio_ok (s\<lparr>st_pipelines := st_pipelines s @ [pl]\<rparr>)" if "\<not> pl_playing pl" for pl
    using assms that unfolding studio_ok_def plays_now_append by simp
  have runs: "studio_ok (s\<lparr>st_pipelines := st_pipelines s @ [pl], st_handles := insert ?n (st_handles s)\<rparr>)"
    if "pl_playing pl" for pl
    using assms that fresh unfolding studio_ok_def plays_now_views plays_now_append by auto
  from start_capture_effect [of G rt codecs peer src w h fps s] show ?thesis
    using keep idle runs by (elim disjE exE conjE) simp_all
qed

lemma drop_ok:
  assumes "studio_ok s"
  shows "studio_ok (drop_handle n s)"
  using assms unfolding studio_ok_def drop_handle_def by (auto simp: plays_now_stop)

lemma detach_ok:
  assumes "studio_ok s"
  shows "studio_ok (detach_handle n s)"
  using assms unfolding studio_ok_def detach_handle_def by auto

interpretation studio: event_machine "studio_step G" studio_ok for G
proof
  show "studio_ok (studio_step G s e)" if "studio_ok s" for s and e :: "'a capture_event"
    using that by (cases e) (simp_all add: start_ok drop_ok detach_ok)
qed

lemma studio_new_ok: "studio_ok studio_new"
  by (simp add: studio_ok_def studio_new_def plays_now_def)

lemma detached_step: "k \<in> st_detached s \<Longrightarrow> k \<in> st_detached (studio_step G s e)"
proof (cases e)
  case (StartCapture rt codecs peer src w h fps)
  assume "k \<in> st_detached s"
  with start_capture_effect [of G rt codecs peer src w h fps s] StartCapture show ?thesis by auto
qed (simp_all add: drop_handle_def detach_handle_def)

lemma detached_plays:
  "studio_ok s \<Longrightarrow> k \<in> st_detached s \<Longrightarrow> plays_now (foldl (studio_step G) s es) k"
proof (induction es arbitrary: s)
  case (Cons e es)
  then show ?case using detached_step studio.inv_step by fastforce
qed (simp add: studio_okD(1))

section \<open>Properties\<close>

text \<open>
  C20: a running camera has an owner. After any sequence of starts, drops and detaches, in which starts
  may fail at any point, the pipelines that play are exactly those whose handle is alive or was detached;
  a failed start leaves none behind, and a dropped handle stops its own and no other.
\<close>

theorem captures_balanced:
  fixes es :: "'pc capture_event list"
  shows "let s = foldl (studio_step G) studio_new es in
    {n. n < length (st_pipelines s) \<and> pl_playing (st_pipelines s ! n)} = st_handles s \<union> st_detached s \<and>
    st_handles s \<inter> st_detached s = {}"
  using studio_okD [OF studio.inv_run [OF studio_new_ok, of G es]] by (auto simp: Let_def plays_now_def)


text \<open>
  a call that fails leaves the camera on. If the offer goes out and the capture starts, but a
  subscription of the receiver is refused, \<open>start_video_with_source\<close> returns the error, its caller only
  logs it, and the pipeline goes on playing with no handle: nothing in the process can stop it.
\<close>

theorem failed_call_keeps_capturing:
  fixes W :: "('pc, 'd) webrtc"
  assumes "studio_ok s" and "offer_peer W Z S robot_id peer_id n = (Ok peer, n', puts)"
    and "start_capture G True (codecs (vp_pc peer)) peer source 1280 720 30 s = (Ok k, s1)"
    and "fst (run_signal_receiver Z robot_id) = Err e"
  shows "\<exists>tasks s2. start_video_with_source W Z S G codecs robot_id peer_id source n s = (Err (SignalReceiver e), puts, tasks, s2) \<and>
    plays_now s2 k \<and> (\<forall>es :: 'pc capture_event list. plays_now (foldl (studio_step G) s2 es) k)"
proof -
  obtain tasks where tasks: "run_signal_receiver Z robot_id = (Err e, tasks)" using assms(4) by (cases "run_signal_receiver Z robot_id") auto
  have k: "k \<in> st_handles s1" and ok: "studio_ok s1"
    using start_capture_effect [of G True "codecs (vp_pc peer)" peer source 1280 720 30 s] assms(3)
      start_ok [OF assms(1), of G True "codecs (vp_pc peer)" peer source 1280 720 30] by auto
  have "plays_now (foldl (studio_step G) (detach_handle k s1) es) k" for es :: "'pc capture_event list"
    by (rule detached_plays [OF detach_ok [OF ok]]) (simp add: detach_handle_def k)
  from this [of "[]"] this show ?thesis
    using assms(2,3) tasks by (auto simp: start_video_with_source_def)
qed

definition demo_gst :: gstreamer where
  "demo_gst = \<lparr>gst_init = True, has_nvenc_element = False, parse_launch = (\<lambda>_. Launched), enc_sink = (\<lambda>_. AppSink), plays = (\<lambda>_. True)\<rparr>"

definition deaf_mesh :: "unit zenoh" where
  "deaf_mesh = signal_mesh\<lparr>z_declare := (\<lambda>_. False)\<rparr>"

theorem failed_call_keeps_capturing_witness:
  "\<exists>puts tasks s2. start_video_with_source demo_webrtc deaf_mesh call_wire demo_gst (\<lambda>_. Some []) ''7'' ''8'' Videotest FIRST_SSRC studio_new =
     (Err (SignalReceiver DeclareFailed), puts, tasks, s2) \<and> plays_now s2 0"
proof -
  have pattern: "(signal_offer_pattern ''7'' :: (transport_error, pattern) outcome) = Ok (Pattern ''robot/*/signal/7/offer'')"
    by code_simp
  have deaf: "fst (run_signal_receiver deaf_mesh ''7'') = Err DeclareFailed"
    by (simp add: run_signal_receiver_def subscribe_task_def pattern subscribe_def deaf_mesh_def signal_mesh_def Let_def)
  have key: "(signal_offer_key ''7'' ''8'' :: (transport_error, topic) outcome) = Ok (Topic ''robot/7/signal/8/offer'')"
    by code_simp
  have "\<exists>peer n' puts. offer_peer demo_webrtc deaf_mesh call_wire ''7'' ''8'' FIRST_SSRC = (Ok peer, n', puts)"
    by (simp add: offer_peer_def build_peer_def h264_track_def demo_webrtc_def publish_offer_def with_key_def key put_signal_def
        call_wire_def publish_def send_put_def deaf_mesh_def signal_mesh_def)
  then obtain peer n' puts where offer: "offer_peer demo_webrtc deaf_mesh call_wire ''7'' ''8'' FIRST_SSRC = (Ok peer, n', puts)" by blast
  have "\<exists>s1. start_capture demo_gst True (Some []) peer Videotest 1280 720 30 studio_new = (Ok 0, s1)"
    by (simp add: start_capture_def build_pipeline_def start_pipeline_def demo_gst_def studio_new_def Let_def)
  then show ?thesis
    using failed_call_keeps_capturing [OF studio_new_ok offer _ deaf, of demo_gst "\<lambda>_. Some []" Videotest 0] by auto
qed

end
