(* ===== verification/Client.thy ===== *)
theory Client
  imports Server Node Capture
begin

text \<open>
  The running client and server: \<open>start_common_subsystems\<close>, \<open>Runtime::run\<close> and \<open>Runtime::supervise\<close> of
  \<open>src/runtime.rs\<close>, and the tasks of \<open>src/server.rs\<close>. A subsystem is the future its task awaits; a future that never resolves is \<open>None\<close>,
  and the sessions of the mesh stay open. The property says how long a client lives.
\<close>

section \<open>The subsystems\<close>

datatype subsystem =
    HealthServer string
  | HotReload string
  | RuleEngine
  | SignalingListener string "source_spec option"
  | FleetReload
  | RegistrationHandler
  | HeartbeatMonitor

text \<open>\<open>media\<close>: the feature is compiled in. \<open>health_addr\<close> is \<open>FLO_HEALTH_ADDR\<close>, \<open>device\<close> the video device.\<close>

definition start_common_subsystems ::
  "bool \<Rightarrow> devices \<Rightarrow> string option \<Rightarrow> string option \<Rightarrow> string \<Rightarrow> (string \<times> subsystem) list" where
  "start_common_subsystems media D health_addr device robot_id =
     [(''health'', HealthServer (case health_addr of Some addr \<Rightarrow> addr | None \<Rightarrow> ''0.0.0.0:0'')),
      (''hot-reload'', HotReload robot_id),
      (''rule engine'', RuleEngine)] @
     (if media then [(''signaling'', SignalingListener robot_id (listener_source D device))] else [])"

text \<open>The subsystems of \<open>run_server\<close> (\<open>src/server.rs\<close>).\<close>

definition server_subsystems :: "string option \<Rightarrow> (string \<times> subsystem) list" where
  "server_subsystems health_addr =
     [(''health'', HealthServer (case health_addr of Some addr \<Rightarrow> addr | None \<Rightarrow> ''0.0.0.0:0'')),
      (''rule engine'', RuleEngine),
      (''hot-reload'', FleetReload),
      (''registration'', RegistrationHandler),
      (''heartbeat'', HeartbeatMonitor)]"

record video_args =
  va_peer :: "string option"
  va_device :: "string option"

text \<open>\<open>run\<close>: the subsystems, and the outgoing call if one was asked for.\<close>

definition run_client ::
  "bool \<Rightarrow> devices \<Rightarrow> string option \<Rightarrow> string option \<Rightarrow> video_args \<Rightarrow> args
   \<Rightarrow> (string \<times> subsystem) list \<times> (string \<times> string \<times> source_spec) option" where
  "run_client media D id_env health_addr va a =
     (let robot_id = robot_id_of a id_env
      in (start_common_subsystems media D health_addr (va_device va) robot_id,
          if media then spawn_video_peer D (va_peer va) (va_device va) robot_id else None))"

section \<open>How they end\<close>

text \<open>
  The hot reload and the engine return if they cannot subscribe and loop otherwise; \<open>run_signaling\<close> spawns
  the tasks that receive and returns.
\<close>

definition unless_running :: "('e, 'a) outcome \<Rightarrow> ('e, unit) outcome option" where
  "unless_running started = (case started of Ok _ \<Rightarrow> None | Err e \<Rightarrow> Some (Err e) | Panic \<Rightarrow> Some Panic)"

record 'n world =
  w_bind :: "string \<Rightarrow> bool" \<comment> \<open>the health address can be bound\<close>
  w_key_expr :: "string \<Rightarrow> bool"
  w_zenoh :: "'n zenoh"
  w_signals :: "'n signal_wire"
  w_server :: server_state \<comment> \<open>the registration server, with the tasks of its handlers\<close>
  w_toml :: "'n toml_readers"
  w_digests :: "'n digests"
  w_registry :: registry
  w_updates :: "reload_sample list" \<comment> \<open>what the fleet's hot reload has received\<close>

text \<open>
  The loop of a hot reload over the samples it receives. The fleet's loop dies when a ruleset that the
  registry accepts cannot be written back to TOML.
\<close>

definition reload_loop ::
  "'n toml_readers \<Rightarrow> 'n digests \<Rightarrow> 'n hot_reload \<Rightarrow> reload_sample list \<Rightarrow> (unit, 'n hot_reload) outcome" where
  "reload_loop T D h samples = foldl (\<lambda>r sample. bind_out r (\<lambda>h. reload_step T D h sample)) (Ok h) samples"

definition fleet_reload_end :: "'n world \<Rightarrow> 'n rules arc \<Rightarrow> (transport_error, unit) outcome option" where
  "fleet_reload_end V a =
     (case run_hot_reload_with_registry (w_key_expr V) (w_zenoh V) of
        Ok _ \<Rightarrow>
          (if reload_loop (w_toml V) (w_digests V) \<lparr>hr_store = ar_new a, hr_policy = Some (w_registry V)\<rparr> (w_updates V) = Panic
           then Some Panic else None)
      | started \<Rightarrow> unless_running started)"

fun subsystem_end :: "'n world \<Rightarrow> 'n rules arc \<Rightarrow> (subsystem \<Rightarrow> nat) \<Rightarrow> subsystem \<Rightarrow> (nat \<times> task_exit) option" where
  "subsystem_end V a t (HealthServer addr) = task_end (t (HealthServer addr)) (serve_health (w_bind V) addr)"
| "subsystem_end V a t (HotReload r) =
     task_end (t (HotReload r)) (unless_running (run_hot_reload (w_key_expr V) (w_zenoh V) r))"
| "subsystem_end V a t RuleEngine = task_end (t RuleEngine) (unless_running (fst (run_engine (w_zenoh V) a)))"
| "subsystem_end V a t (SignalingListener r source) =
     task_end (t (SignalingListener r source)) (Some (bind_out (fst (run_signaling (w_zenoh V) (w_signals V) r)) (\<lambda>_. Ok ())))"
| "subsystem_end V a t FleetReload =
     task_end (t FleetReload) (fleet_reload_end V a)"
| "subsystem_end V a t RegistrationHandler = task_end (t RegistrationHandler)
     (run_registration_handler (w_zenoh V) (handler_task (t RegistrationHandler) (reg_alive (w_server V)))
        (handler_task (t RegistrationHandler) (dereg_alive (w_server V))))"
| "subsystem_end V a t HeartbeatMonitor = task_end (t HeartbeatMonitor) (run_heartbeat_monitor (w_zenoh V))"

definition supervise_subsystems ::
  "'n world \<Rightarrow> 'n rules arc \<Rightarrow> (subsystem \<Rightarrow> nat) \<Rightarrow> (string \<times> subsystem) list
   \<Rightarrow> (string \<times> task_exit, unit) outcome option" where
  "supervise_subsystems V a t subsystems = await_shutdown (map (\<lambda>(name, s). (name, subsystem_end V a t s)) subsystems)"

text \<open>With the media feature this is \<open>supervise\<close> over the ends of the named tasks.\<close>

lemma supervise_media:
  "supervise_subsystems V a t (start_common_subsystems True D health_addr device r) =
     supervise (\<lambda>name. Option.bind (map_of (start_common_subsystems True D health_addr device r) name) (subsystem_end V a t))"
  by (simp add: supervise_subsystems_def supervise_def start_common_subsystems_def)

lemma supervise_server:
  assumes "t RegistrationHandler = t'" and "t HeartbeatMonitor = t'"
  shows "supervise_subsystems V a t (server_subsystems health_addr) =
     server_supervision (w_zenoh V) (w_server V) (\<lambda>name. Option.bind (map_of (server_subsystems health_addr) name) (subsystem_end V a t)) t'"
  using assms by (simp add: supervise_subsystems_def server_supervision_def server_subsystems_def)

lemma presence_key_Ok:
  "CHR ''/'' \<notin> set r \<Longrightarrow> signal_presence_key r = Ok (Topic (''robot/'' @ r @ ''/signal/presence''))"
  by (simp add: signal_presence_key_def topic_eval)

lemma run_signaling_no_panic:
  assumes "signal_id r" and "\<And>sub. z_declare Z sub"
  shows "fst (run_signaling Z S r) \<noteq> Panic"
proof -
  have pattern: "(pattern_try_new SIGNAL_PRESENCE_PATTERN :: (topic_error, pattern) outcome) = Ok (Pattern SIGNAL_PRESENCE_PATTERN)"
    by code_simp
  have slash: "CHR ''/'' \<notin> set r" using assms(1) by (simp add: signal_id_def)
  have "fst (publish_presence Z S r streams) \<noteq> Panic" for streams
    by (simp add: publish_presence_def with_key_def presence_key_Ok [OF slash] split: option.split)
  then show ?thesis
    using receiver_tasks [OF assms] slash
    by (auto simp: run_signaling_def subscribe_presence_def pattern subscribe_def assms(2) Let_def case_prod_beta bind_out_Panic
        split: outcome.split)
qed

section \<open>Properties\<close>

text \<open>
  C8: a client with media stops as soon as it is up. When the health address can be bound, the ruleset's
  topics and the rules key are subscribed and the mesh accepts the subscriptions, nothing has failed. A
  client built without the media feature then runs for ever. One built with it is shut down, with an
  error that names signaling: \<open>run_signaling\<close> returns once it has subscribed, whether announcing the
  robot succeeded or not, its task ends, and the supervisor takes every end for fatal.
\<close>

theorem media_client_stops:
  assumes "signal_id r" and "\<And>sub. z_declare (w_zenoh V) sub"
    and "w_bind V (case health_addr of Some addr \<Rightarrow> addr | None \<Rightarrow> ''0.0.0.0:0'')"
    and "w_key_expr V (''robot/'' @ r @ ''/local/rules'')" and "run_start (w_zenoh V) a = Ok g"
  shows "supervise_subsystems V a t (start_common_subsystems media D health_addr device r) =
    (if media then Some (Err (''signaling'', Exited)) else None)"
proof -
  have id: "CHR ''/'' \<notin> set r" "r \<notin> {[], ''*'', ''**''}" using assms(1) by (auto simp: signal_id_def)
  let ?source = "listener_source D device"
  have health: "subsystem_end V a t (HealthServer (case health_addr of Some addr \<Rightarrow> addr | None \<Rightarrow> ''0.0.0.0:0'')) = None"
    using assms(3) by (simp only: subsystem_end.simps serve_health_def task_end_def if_True option.case)
  have reload: "subsystem_end V a t (HotReload r) = None"
    unfolding subsystem_end.simps hot_reload_key [where key_expr = "w_key_expr V", OF id assms(2,4)] by (simp add: unless_running_def task_end_def)
  have engine: "subsystem_end V a t RuleEngine = None"
    by (simp add: run_engine_def assms(5) unless_running_def task_end_def Let_def)
  have "bind_out (fst (run_signaling (w_zenoh V) (w_signals V) r)) (\<lambda>_. Ok ()) \<noteq> Panic"
    using run_signaling_no_panic [OF assms(1,2), of "w_signals V"] by (simp add: bind_out_Panic)
  then have signaling: "subsystem_end V a t (SignalingListener r ?source) = Some (t (SignalingListener r ?source), Exited)"
    by (simp add: task_end_def split: outcome.split)
  show ?thesis
    unfolding supervise_subsystems_def start_common_subsystems_def
    by (simp add: health reload engine signaling await_shutdown_def fatal_exit_def del: subsystem_end.simps)
qed

definition demo_world :: "f64 world" where
  "demo_world = \<lparr>w_bind = (\<lambda>_. True), w_key_expr = (\<lambda>_. True), w_zenoh = demo_zenoh,
     w_signals = \<lparr>message_value = (\<lambda>_. None), message_of = (\<lambda>_. None), presence_value = (\<lambda>_. None), presence_of = (\<lambda>_. None)\<rparr>,
     w_server = demo_server, w_toml = demo_readers, w_digests = demo_digests, w_registry = registry_new, w_updates = []\<rparr>"

definition no_devices :: devices where
  "no_devices = \<lparr>device_exists = (\<lambda>_. False), char_device = (\<lambda>_. None)\<rparr>"

theorem media_client_stops_witness:
  "supervise_subsystems demo_world (Arc 1 pose_rules) (\<lambda>_. 5) (start_common_subsystems True no_devices None None ''7'') =
     Some (Err (''signaling'', Exited)) \<and>
   supervise_subsystems demo_world (Arc 1 pose_rules) (\<lambda>_. 5) (start_common_subsystems False no_devices None None ''7'') = None"
proof -
  have start: "run_start (w_zenoh demo_world) (Arc 1 pose_rules) = Ok (nd_engine pose_node)"
    using pose_run_start by (simp add: demo_world_def)
  have id: "signal_id ''7''" by (simp add: signal_id_def)
  show ?thesis
    using media_client_stops [OF id _ _ _ start, of None "\<lambda>_. 5" True no_devices None]
      media_client_stops [OF id _ _ _ start, of None "\<lambda>_. 5" False no_devices None]
    by (simp add: demo_world_def demo_zenoh_def)
qed

end
