(* ===== verification/Hazard.thy ===== *)
theory Hazard
  imports Compiler Node
begin

text \<open>
  From the authored rule to the stop of the fleet: a node that runs a compiled ruleset, from the arrival
  of a sample over the channel and the tick to the message on the mesh. A node is \<open>steady\<close> while no
  update reaches it; the properties follow one reading through it.
\<close>

section \<open>Level rules\<close>

lemma guard_fires_level:
  assumes "\<forall>t \<in> set (guard_triggers w). tr_mode t = Level"
  shows "guard_fires L samples zs pv i w \<longleftrightarrow>
    guard_triggers w \<noteq> [] \<and> guard_holds (\<lambda>t. trigger_cur L t samples zs) w"
proof -
  have fires: "trigger_fires L samples zs pv i n t = trigger_cur L t samples zs"
    if "t \<in> set (guard_triggers w)" for n t
    using assms that by (simp add: trigger_fires_def)
  have ex: "(\<exists>t \<in> set xs. P t) \<longleftrightarrow> (\<exists>k < length xs. P (xs ! k))" for xs :: "trigger list" and P
    by (metis in_set_conv_nth)
  show ?thesis
    by (simp add: guard_fires_def guard_holds_def all_set_conv_all_nth ex fires cong: conj_cong)
qed

lemma demo_conditions:
  "sem_conditions (demo_when d) =
     {(''human_present'', Comparison Lt (OPrim HumanPresence) (OFloat d), Level)}"
  by (subst sem_conditions.simps) (simp add: demo_when_def flat_conditions_def flatten_options_def map_filter_def)

lemma demo_holds:
  "sem_holds f (demo_when d) = f (''human_present'', Comparison Lt (OPrim HumanPresence) (OFloat d), Level)"
  by (subst sem_holds.simps) (simp add: demo_when_def flat_conditions_def flatten_options_def map_filter_def)

definition reported_distance :: "'n serde \<Rightarrow> 'n samples \<Rightarrow> string \<Rightarrow> f64 option" where
  "reported_distance L samples topic =
     (case samples topic of
        None \<Rightarrow> None
      | Some payload \<Rightarrow>
          (case sj_get L payload ''separation_distance'' of
             Some (JNumber n) \<Rightarrow> num_as_f64 L n
           | _ \<Rightarrow> None))"

definition near_human_only :: "f64 \<Rightarrow> semantic_when" where
  "near_human_only d = SemanticWhen None None (Some d) None None None [] []"

lemma near_human_cur:
  assumes "serde_documented L"
  shows "trigger_cur L (cond_trigger robot_id (''human_present'', Comparison Lt (OPrim HumanPresence) (OFloat d), Level))
      samples zs \<longleftrightarrow>
    is_finite d \<and>
    (\<exists>x. reported_distance L samples (''robot/'' @ robot_id @ ''/local/human_present'') = Some x \<and> f64_lt x d)"
proof (cases "is_finite d")
  case True
  then obtain n where n: "num_from_f64 L d = Some n" "num_as_f64 L n = Some d"
    using serde_from_f64_finite [OF assms] by blast
  show ?thesis
    by (auto simp: True trigger_cur_def cond_trigger_def trigger_matches_def eval_predicate_def
        reported_distance_def n f64_lt_def split: option.splits json.splits)
next
  case False
  then show ?thesis
    using serde_from_f64_nonfinite [OF assms]
    by (auto simp: trigger_cur_def cond_trigger_def trigger_matches_def eval_predicate_def split: option.splits)
qed

text \<open>
  A rule authored as \<open>near_human = d\<close> fires at a tick exactly when \<open>d\<close> is a finite number and the
  fresh sample of \<open>robot/{id}/local/human_present\<close> reports a numeric \<open>separation_distance\<close> below
  \<open>d\<close>. No sample, no field, a field that is not a number, or a bound that is not finite (the compiler
  accepts NaN and infinity) mean that the rule never fires.
\<close>

lemma near_human_fires:
  assumes "serde_documented L" and "compile L doc robot_id = Ok rls" and "i < length (rm_rules doc)"
    and "sr_when (rm_rules doc ! i) = near_human_only d"
  shows "rule_fires L s now i (rules_list rls ! i) \<longleftrightarrow>
    is_finite d \<and>
    (\<exists>x. reported_distance L (staleness_view s now) (''robot/'' @ robot_id @ ''/local/human_present'') = Some x
       \<and> f64_lt x d)"
proof -
  have demo: "near_human_only d = demo_when d" by (simp add: near_human_only_def demo_when_def)
  let ?c = "(''human_present'', Comparison Lt (OPrim HumanPresence) (OFloat d), Level)"
  note guard = compile_rule_guard [OF compile_nth [OF assms(2,3)],
      of "\<lambda>t. trigger_cur L t (staleness_view s now) (zones s)"]
  have "\<forall>t \<in> set (guard_triggers (rule_when (rules_list rls ! i))). tr_mode t = Level"
    using guard by (auto simp: assms(4) demo demo_conditions cond_trigger_def)
  from guard_fires_level [OF this, of L "staleness_view s now" "zones s"] guard
  have "rule_fires L s now i (rules_list rls ! i) \<longleftrightarrow>
      trigger_cur L (cond_trigger robot_id ?c) (staleness_view s now) (zones s)"
    unfolding rule_fires_def assms(4) demo demo_holds by blast
  also note near_human_cur [OF assms(1)]
  finally show ?thesis .
qed

section \<open>A node between updates\<close>

definition steady :: "'n rules arc \<Rightarrow> 'n node \<Rightarrow> bool" where
  "steady a s \<longleftrightarrow>
     watched s = a \<and> engine_ok (nd_engine s) \<and> running (nd_engine s) \<and>
     current_topics (nd_engine s) = sorted_topics (arc_val a) \<and> staleness_timeout (eval (nd_engine s)) = None"

text \<open>An event that brings neither an update nor a sample.\<close>

fun quiet :: "node_event \<Rightarrow> bool" where
  "quiet (Reload _) = False"
| "quiet (Arrive _ _ _) = False"
| "quiet _ = True"

lemma engine_turn_views [simp]:
  "watched (engine_turn L from_slice Z s e) = watched s"
  "nd_engine (engine_turn L from_slice Z s e) = fst (loop_step L from_slice Z (nd_engine s) e)"
  "nd_puts (engine_turn L from_slice Z s e) = nd_puts s @ snd (loop_step L from_slice Z (nd_engine s) e)"
  by (simp_all add: engine_turn_def watched_def Let_def case_prod_beta)

lemma loop_step_timeout [simp]:
  "staleness_timeout (eval (fst (loop_step L from_slice Z g e))) = staleness_timeout (eval g)"
  by (cases e) (auto simp: Let_def case_prod_beta rebuild_def split: list.split)

lemma loop_step_keeps:
  assumes "running g" and "current_topics g = sorted_topics (arc_val a)"
    and "\<And>ok b. e = StoreChanged ok b \<Longrightarrow> ok \<and> b = a"
  shows "running (fst (loop_step L from_slice Z g e)) \<and>
    current_topics (fst (loop_step L from_slice Z g e)) = current_topics g"
  using assms by (cases e) (auto simp: Let_def case_prod_beta rebuild_def split: list.split)

lemma steady_turn:
  assumes "steady a s" and "\<And>ok b. e = StoreChanged ok b \<Longrightarrow> ok \<and> b = a"
  shows "steady a (engine_turn L from_slice Z s e)"
proof -
  have "running (nd_engine s)" "current_topics (nd_engine s) = sorted_topics (arc_val a)"
    using assms(1) by (simp_all add: steady_def)
  from loop_step_keeps [where L = L and from_slice = from_slice and Z = Z, OF this assms(2)] assms(1)
    loop.inv_step [of "nd_engine s" L from_slice Z e]
  show ?thesis by (simp add: steady_def)
qed

lemma steady_step:
  assumes "steady a s" and "seen_in [e] = {}"
  shows "steady a (node_step T D L from_slice Z s e)"
proof (cases e)
  case (Reload sample)
  with assms(2) show ?thesis by (simp add: seen_in_def)
next
  case StoreWoke
  have "watched s = a" using assms(1) by (simp add: steady_def)
  with StoreWoke steady_turn [OF assms(1), of "StoreChanged True a" L from_slice Z] show ?thesis by simp
qed (use steady_turn [OF assms(1)] in auto)

lemma steady_run:
  "steady a s \<Longrightarrow> seen_in es = {} \<Longrightarrow> steady a (foldl (node_step T D L from_slice Z) s es)"
proof (induction es arbitrary: s)
  case (Cons e es)
  then have "seen_in [e] = {}" "seen_in es = {}" by (auto simp: seen_in_def)
  with Cons steady_step [of a s e T D L from_slice Z] show ?case by simp
qed simp

lemma run_start_fresh:
  "run_start Z a = Ok g \<Longrightarrow> staleness_timeout (eval g) = None \<and> queue g = [] \<and> latest (eval g) = Map.empty"
  by (cases "subscribe_to_topics Z (arc_val a) [] []"; cases "fst (subscribe_to_topics Z (arc_val a) [] [])")
    (auto simp: run_start_def eval_state_empty_def)

lemma node_start_steady:
  assumes "node_start T D L from_slice Z h [] = Ok s0" and "hr_store h = ar_new a"
  shows "steady a s0"
proof -
  obtain g where g: "run_start Z a = Ok g" and s0: "nd_engine s0 = g" "watched s0 = a"
    using assms by (auto simp: node_start_def ar_new_def current_def watched_def subscribe_rules_def Let_def)
  with run_start_ok [OF g] run_start_fresh [OF g] show ?thesis by (simp add: steady_def)
qed

section \<open>One reading\<close>

text \<open>The loop takes what is in the channel, in order.\<close>

lemma loop_takes:
  "running g \<Longrightarrow> foldl (\<lambda>g e. fst (loop_step L from_slice Z g e)) g (replicate (length (queue g)) (Receive t)) =
     g\<lparr>eval := foldl (\<lambda>e (k, v). ingest L e t k v) (eval g) (queue g), queue := []\<rparr>"
proof (induction "queue g" arbitrary: g)
  case (Cons kv q)
  obtain k v where kv: "kv = (k, v)" by fastforce
  let ?g = "g\<lparr>eval := ingest L (eval g) t k v, queue := q\<rparr>"
  have "fst (loop_step L from_slice Z g (Receive t)) = ?g"
    using Cons.hyps(2) [symmetric] Cons.prems kv by simp
  with Cons.hyps(1) [of ?g] Cons.prems Cons.hyps(2) [symmetric] kv show ?case
    by (simp del: loop_step.simps)
qed simp

lemma take_all:
  assumes "running (nd_engine s)"
  shows "nd_engine (foldl (node_step T D L from_slice Z) s (replicate (length (queue (nd_engine s))) (TakeAt t))) =
    (nd_engine s)\<lparr>eval := foldl (\<lambda>e (k, v). ingest L e t k v) (eval (nd_engine s)) (queue (nd_engine s)), queue := []\<rparr>"
proof -
  have "nd_engine (foldl (node_step T D L from_slice Z) s (replicate n (TakeAt t))) =
      foldl (\<lambda>g e. fst (loop_step L from_slice Z g e)) (nd_engine s) (replicate n (Receive t))" for n
    by (induction n arbitrary: s) (simp_all del: loop_step.simps)
  with loop_takes [OF assms] show ?thesis by simp
qed

text \<open>A node whose last reading of a topic is \<open>payload\<close>, with nothing in the channel.\<close>

definition holds_reading :: "'n rules arc \<Rightarrow> string \<Rightarrow> 'n json \<Rightarrow> 'n node \<Rightarrow> bool" where
  "holds_reading a topic payload s \<longleftrightarrow>
     steady a s \<and> queue (nd_engine s) = [] \<and> latest (eval (nd_engine s)) topic = Some payload"

lemma quiet_keeps_reading:
  assumes "holds_reading a topic payload s" and "list_all quiet es"
  shows "holds_reading a topic payload (foldl (node_step T D L from_slice Z) s es)"
  using assms
proof (induction es arbitrary: s)
  case (Cons e es)
  have "seen_in [e] = {}" using Cons.prems(2) by (cases e) (auto simp: seen_in_def)
  with Cons.prems steady_step [of a s e T D L from_slice Z]
  have "holds_reading a topic payload (node_step T D L from_slice Z s e)"
    by (cases e) (auto simp: holds_reading_def steady_def rebuild_def Let_def case_prod_beta)
  with Cons show ?case by simp
qed simp

lemma arrives:
  assumes "steady a s" and "SensorTask sub topic \<in> set (tasks (nd_engine s))" and "from_slice bytes = Some payload"
    and "length (queue (nd_engine s)) < CHANNEL_CAPACITY" and "\<not> is_zone_topic topic"
  shows "holds_reading a topic payload (foldl (node_step T D L from_slice Z) s
    (Arrive (SensorTask sub topic) key bytes # replicate (Suc (length (queue (nd_engine s)))) (TakeAt t)))"
proof -
  let ?s = "node_step T D L from_slice Z s (Arrive (SensorTask sub topic) key bytes)"
  have q: "queue (nd_engine ?s) = queue (nd_engine s) @ [(topic, payload)]"
    using assms by (simp add: try_send_def)
  have ok: "steady a ?s" by (rule steady_step [OF assms(1)]) (simp add: seen_in_def)
  then have run: "running (nd_engine ?s)" by (simp add: steady_def)
  have takes: "nd_engine (foldl (node_step T D L from_slice Z) ?s (replicate (Suc (length (queue (nd_engine s)))) (TakeAt t))) =
      (nd_engine ?s)\<lparr>eval := foldl (\<lambda>e (k, v). ingest L e t k v) (eval (nd_engine ?s)) (queue (nd_engine ?s)), queue := []\<rparr>"
    using take_all [OF run, of T D L from_slice Z t] unfolding q by simp
  have "seen_in (replicate (Suc (length (queue (nd_engine s)))) (TakeAt t)) = {}" by (auto simp: seen_in_def)
  from steady_run [OF ok this, of T D L from_slice Z] takes show ?thesis
    by (simp add: holds_reading_def q ingest_sensor_topic [OF assms(5)] ingest_sample_def
        del: node_step.simps replicate_Suc)
qed

section \<open>The stop\<close>

abbreviation human_topic :: "string \<Rightarrow> string" where
  "human_topic robot_id \<equiv> ''robot/'' @ robot_id @ ''/local/human_present''"

lemma human_topic_listened:
  assumes "compile L doc robot_id = Ok (arc_val a)" and "plain_id robot_id" and "i < length (rm_rules doc)"
    and "sr_when (rm_rules doc ! i) = near_human_only d" and "steady a s"
  shows "SensorTask (subscription_for (human_topic robot_id)) (human_topic robot_id) \<in> set (tasks (nd_engine s))"
proof -
  let ?r = "rules_list (arc_val a) ! i"
  note guard = compile_rule_guard [OF compile_nth [OF assms(1,3)]]
  have demo: "near_human_only d = demo_when d" by (simp add: near_human_only_def demo_when_def)
  let ?c = "cond_trigger robot_id (''human_present'', Comparison Lt (OPrim HumanPresence) (OFloat d), Level)"
  have "guard_triggers (rule_when ?r) \<noteq> []" and only: "set (guard_triggers (rule_when ?r)) \<subseteq> {?c}"
    using guard unfolding assms(4) demo demo_conditions by auto
  then obtain t where t: "t \<in> set (guard_triggers (rule_when ?r))" by (meson last_in_set)
  have "tr_topic ?c = human_topic robot_id" by (simp add: cond_trigger_def)
  with t only have topic: "tr_topic t = human_topic robot_id" by blast
  have mem: "?r \<in> set (rules_list (arc_val a))"
    using compile_length [OF assms(1)] assms(3) by simp
  then have "human_topic robot_id \<in> set (sorted_topics (arc_val a))"
    unfolding set_sorted_topics topic [symmetric] using t by blast
  then have "listening (nd_engine s) (human_topic robot_id)"
    using assms(5) by (auto simp: steady_def engine_ok_def)
  moreover have "pattern_try_new (human_topic robot_id) = Ok (Pattern (human_topic robot_id))"
    using robot_local_pattern [of robot_id "''human_present''"] assms(2) by (auto simp: plain_id_def)
  ultimately show ?thesis unfolding listening_def by (metis outcome.inject(1) pattern.sel)
qed

lemma estop_action:
  assumes "compile L doc robot_id = Ok rls" and "i < length (rm_rules doc)"
    and "j < length (sr_actions (rm_rules doc ! i))" and "sa_estop (sr_actions (rm_rules doc ! i) ! j)"
  shows "\<lparr>act_topic = ''stop/fleet/cmd'', act_qos = Reliable, act_payload = JObject [(''stop'', JBool True)]\<rparr> \<in>
    set (rule_actions (rules_list rls ! i)) \<and> i < length (rules_list rls)"
proof -
  obtain spec where "try_from_action (sr_actions (rm_rules doc ! i) ! j) (sr_name (rm_rules doc ! i)) = Ok spec"
    and act: "compile_action_from_spec L spec (sr_actions (rm_rules doc ! i) ! j) robot_id = Ok (rule_actions (rules_list rls ! i) ! j)"
    and j: "j < length (rule_actions (rules_list rls ! i))" "i < length (rules_list rls)"
    by (rule compile_action_nth [OF assms(1,2) refl assms(3)])
  then have "spec = Estop" using try_from_action_estop assms(4) by metis
  with act j show ?thesis by (auto simp: compile_action_from_spec_def in_set_conv_nth)
qed

lemma fired_action_published:
  assumes "running (nd_engine s)" and "i < length (rules_list (arc_val (watched s)))"
    and "rule_fires L (note_rules (eval (nd_engine s)) (watched s)) now i (rules_list (arc_val (watched s)) ! i)"
    and "act \<in> set (rule_actions (rules_list (arc_val (watched s)) ! i))" and "p \<in> set (fire_action Z act)"
  shows "p \<in> set (drop (length (nd_puts s)) (nd_puts (node_step T D L from_slice Z s (TickAt now))))"
proof -
  have "act \<in> set (fst (tick_inner L (note_rules (eval (nd_engine s)) (watched s)) now (arc_val (watched s))))"
    using assms(2-4) unfolding tick_inner_fst by (force simp: in_set_enumerate_eq)
  then show ?thesis using assms(1,5) by (auto simp: Let_def case_prod_beta)
qed

text \<open>
  A document with a rule that stops the fleet when a human is nearer than \<open>d\<close>, and bytes that report one.
\<close>

definition estop_below :: "f64 \<Rightarrow> 'n rules_manifest \<Rightarrow> bool" where
  "estop_below d doc \<longleftrightarrow>
     (\<exists>r \<in> set (rm_rules doc). sr_when r = near_human_only d \<and> (\<exists>act \<in> set (sr_actions r). sa_estop act))"

definition reports_below :: "'n serde \<Rightarrow> (string \<Rightarrow> 'n json option) \<Rightarrow> f64 \<Rightarrow> string \<Rightarrow> bool" where
  "reports_below L from_slice d bytes \<longleftrightarrow>
     (\<exists>payload n x. from_slice bytes = Some payload \<and> sj_get L payload ''separation_distance'' = Some (JNumber n) \<and>
        num_as_f64 L n = Some x \<and> f64_lt x d)"

definition stop_message :: "string \<Rightarrow> put" where
  "stop_message bytes = \<lparr>put_key = ''stop/fleet/cmd'', put_bytes = bytes, put_qos = Some (RelReliable, Block, InteractiveHigh)\<rparr>"

lemma near_reading_stops:
  assumes "serde_documented L" and "compile L doc robot_id = Ok (arc_val a)" and "plain_id robot_id"
    and "estop_below d doc" and "is_finite d"
    and "node_start T D L from_slice Z h [] = Ok s0" and "hr_store h = ar_new a"
    and "s = foldl (node_step T D L from_slice Z) s0 es" and "seen_in es = {}"
    and "t = SensorTask (subscription_for (human_topic robot_id)) (human_topic robot_id)"
    and "length (queue (nd_engine s)) < CHANNEL_CAPACITY" and "reports_below L from_slice d bytes"
    and "z_to_vec Z (JObject [(''stop'', JBool True)]) = Some stop_bytes" and "list_all quiet later"
    and "s1 = foldl (node_step T D L from_slice Z) s
      (Arrive t key bytes # replicate (Suc (length (queue (nd_engine s)))) (TakeAt t1) @ later)"
  shows "t \<in> set (tasks (nd_engine s)) \<and>
    stop_message stop_bytes \<in> set (drop (length (nd_puts s1)) (nd_puts (node_step T D L from_slice Z s1 (TickAt now))))"
proof -
  obtain i j where rule: "i < length (rm_rules doc)" "sr_when (rm_rules doc ! i) = near_human_only d"
    "j < length (sr_actions (rm_rules doc ! i))" "sa_estop (sr_actions (rm_rules doc ! i) ! j)"
    using assms(4) unfolding estop_below_def by (metis in_set_conv_nth)
  obtain payload n x where report: "from_slice bytes = Some payload" "num_as_f64 L n = Some x" "f64_lt x d"
    "sj_get L payload ''separation_distance'' = Some (JNumber n)"
    using assms(12) unfolding reports_below_def by blast
  have steady: "steady a s"
    unfolding assms(8) by (rule steady_run [OF node_start_steady [OF assms(6,7)] assms(9)])
  have task: "t \<in> set (tasks (nd_engine s))"
    unfolding assms(10) by (rule human_topic_listened [OF assms(2,3) rule(1,2) steady])
  have "holds_reading a (human_topic robot_id) payload s1"
    using quiet_keeps_reading [OF arrives [where from_slice = from_slice, OF steady task [unfolded assms(10)] report(1) assms(11)] assms(14)]
    unfolding assms(15,10) by (simp add: is_zone_topic_def del: node_step.simps)
  then have s1: "running (nd_engine s1)" "watched s1 = a" "staleness_timeout (eval (nd_engine s1)) = None"
    "latest (eval (nd_engine s1)) (human_topic robot_id) = Some payload"
    by (simp_all only: holds_reading_def steady_def)
  have "reported_distance L (staleness_view (note_rules (eval (nd_engine s1)) a) now) (human_topic robot_id) = Some x"
    using s1(3,4) report(2,4) by (simp only: staleness_view_def reported_distance_def note_rules_frame option.case json.case)
  then have fires: "rule_fires L (note_rules (eval (nd_engine s1)) a) now i (rules_list (arc_val a) ! i)"
    unfolding near_human_fires [OF assms(1,2) rule(1,2)] using assms(5) report(3) by blast
  note act = estop_action [OF assms(2) rule(1,3,4)]
  have "topic_try_new ''stop/fleet/cmd'' = Ok (Topic ''stop/fleet/cmd'')" by code_simp
  then have "stop_message stop_bytes \<in>
      set (fire_action Z \<lparr>act_topic = ''stop/fleet/cmd'', act_qos = Reliable, act_payload = JObject [(''stop'', JBool True)]\<rparr>)"
    using assms(13) by (simp add: fire_action_def publish_def send_put_def stop_message_def)
  from fired_action_published [OF s1(1) _ _ _ this, where i = i and now = now and L = L and T = T and D = D and from_slice = from_slice]
    fires act task show ?thesis
    unfolding s1(2) by blast
qed

lemma node_timeout:
  "staleness_timeout (eval (nd_engine (node_step T D L from_slice Z s e))) = staleness_timeout (eval (nd_engine s))"
  by (cases e) (auto simp del: loop_step.simps split: outcome.split)

lemma node_run_timeout:
  "staleness_timeout (eval (nd_engine (foldl (node_step T D L from_slice Z) s es))) = staleness_timeout (eval (nd_engine s))"
  by (induction es arbitrary: s) (simp_all add: node_timeout del: node_step.simps)

section \<open>What the engine remembers\<close>

text \<open>The sample an event puts into the channel: a task of the engine was handed it, and there was room.\<close>

fun enqueued :: "(string \<Rightarrow> 'n json option) \<Rightarrow> 'n node \<Rightarrow> node_event \<Rightarrow> (string \<times> 'n json) list" where
  "enqueued from_slice s (Arrive t key bytes) =
     (if t \<in> set (tasks (nd_engine s)) \<and> length (queue (nd_engine s)) < CHANNEL_CAPACITY
      then [(case t of ZoneTask _ \<Rightarrow> key | SensorTask _ topic \<Rightarrow> topic,
             case from_slice bytes of Some v \<Rightarrow> v | None \<Rightarrow> JNull)]
      else [])"
| "enqueued from_slice s _ = []"

text \<open>All of them in a run, oldest first.\<close>

fun received ::
  "'n toml_readers \<Rightarrow> 'n digests \<Rightarrow> 'n serde \<Rightarrow> (string \<Rightarrow> 'n json option) \<Rightarrow> 'n zenoh \<Rightarrow> 'n node \<Rightarrow> node_event list
   \<Rightarrow> (string \<times> 'n json) list" where
  "received T D L from_slice Z s [] = []"
| "received T D L from_slice Z s (e # es) =
     enqueued from_slice s e @ received T D L from_slice Z (node_step T D L from_slice Z s e) es"

definition last_samples :: "(string \<times> 'n json) list \<Rightarrow> string \<rightharpoonup> 'n json" where
  "last_samples xs = map_of (rev (filter (\<lambda>(topic, _). \<not> is_zone_topic topic) xs))"

lemma last_samples_snoc:
  "last_samples (xs @ [(topic, v)]) = (if is_zone_topic topic then last_samples xs else (last_samples xs)(topic \<mapsto> v))"
  by (simp add: last_samples_def)

definition remembers :: "(string \<times> 'n json) list \<Rightarrow> 'n engine \<Rightarrow> bool" where
  "remembers xs g \<longleftrightarrow> (\<exists>taken. xs = taken @ queue g \<and> latest (eval g) = last_samples taken)"

lemma remembers_same: "remembers xs g \<Longrightarrow> queue g' = queue g \<Longrightarrow> latest (eval g') = latest (eval g) \<Longrightarrow> remembers xs g'"
  by (simp add: remembers_def)

lemma remembers_receive:
  assumes "remembers xs g"
  shows "remembers xs (fst (loop_step L from_slice Z g (Receive now)))"
proof (cases "queue g")
  case (Cons kv q)
  obtain topic v where kv: "kv = (topic, v)" by fastforce
  obtain taken where taken: "xs = taken @ queue g" "latest (eval g) = last_samples taken"
    using assms by (auto simp: remembers_def)
  show ?thesis
  proof (cases "running g")
    case True
    have "latest (ingest L (eval g) now topic v) = last_samples (taken @ [(topic, v)])"
      unfolding last_samples_snoc taken(2) [symmetric]
      by (cases "is_zone_topic topic") (simp_all add: ingest_sensor_topic ingest_zone_topic ingest_sample_def)
    with Cons kv True taken(1) show ?thesis
      unfolding remembers_def by (intro exI [of _ "taken @ [(topic, v)]"]) simp
  qed (use assms Cons kv in simp)
qed (use assms in simp)

lemma remembers_step:
  assumes "remembers xs (nd_engine s)"
  shows "remembers (xs @ enqueued from_slice s e) (nd_engine (node_step T D L from_slice Z s e))"
proof (cases e)
  case (Reload sample)
  with assms show ?thesis by (auto split: outcome.split)
next
  case (TickAt now)
  then show ?thesis
    using assms by (auto intro!: remembers_same [OF assms] simp: Let_def case_prod_beta)
next
  case (TakeAt now)
  with remembers_receive [OF assms] show ?thesis by (simp del: loop_step.simps)
next
  case StoreWoke
  then show ?thesis
    using assms by (auto intro!: remembers_same [OF assms] simp: Let_def case_prod_beta rebuild_def)
next
  case (Arrive t key bytes)
  with assms show ?thesis by (auto simp: remembers_def try_send_def Let_def split: task.split)
qed

lemma remembers_run:
  "remembers xs (nd_engine s) \<Longrightarrow>
     remembers (xs @ received T D L from_slice Z s es) (nd_engine (foldl (node_step T D L from_slice Z) s es))"
proof (induction es arbitrary: xs s)
  case (Cons e es)
  from Cons.IH [OF remembers_step [OF Cons.prems, of from_slice e T D L Z]] show ?case
    by (simp del: node_step.simps enqueued.simps)
qed simp

lemma reloads_keep_engine: "nd_engine (foldl (node_step T D L from_slice Z) s (map Reload early)) = nd_engine s"
proof (induction early arbitrary: s)
  case (Cons x early)
  have "nd_engine (node_step T D L from_slice Z s (Reload x)) = nd_engine s" by (simp split: outcome.split)
  with Cons show ?case by (simp del: node_step.simps)
qed simp

lemma node_start_remembers:
  assumes "node_start T D L from_slice Z h early = Ok s0"
  shows "remembers [] (nd_engine s0)" and "staleness_timeout (eval (nd_engine s0)) = None"
proof -
  obtain g where g: "run_start Z (current (hr_store h)) = Ok g" and s0: "nd_engine s0 = g"
    using assms by (auto simp: node_start_def Let_def reloads_keep_engine)
  then show "remembers [] (nd_engine s0)" using run_start_fresh [OF g] by (simp add: s0 remembers_def last_samples_def)
  show "staleness_timeout (eval (nd_engine s0)) = None" using run_start_fresh [OF g] s0 by simp
qed

text \<open>
  C29: the running engine never forgets a sample. In every state of every run of a node, updates and
  restarts of the ruleset included, the samples that its tasks have put into the channel are those the
  loop has taken, followed, in order, by those that wait; and whatever the time, what a tick sees of a
  topic is the last sample of it that was taken, however old that is: no staleness timeout is ever set, so
  what a silent sensor reported last goes on to decide the rules.
\<close>

theorem samples_never_expire:
  assumes "node_start T D L from_slice Z h early = Ok s0" and "s = foldl (node_step T D L from_slice Z) s0 es"
  shows "\<exists>taken. received T D L from_slice Z s0 es = taken @ queue (nd_engine s) \<and>
    (\<forall>now. staleness_view (eval (nd_engine s)) now =
       map_of (rev (filter (\<lambda>(topic, _). \<not> is_zone_topic topic) taken)))"
proof -
  have "remembers (received T D L from_slice Z s0 es) (nd_engine s)"
    using remembers_run [OF node_start_remembers(1) [OF assms(1)]] by (simp add: assms(2))
  moreover have "staleness_timeout (eval (nd_engine s)) = None"
    unfolding assms(2) node_run_timeout by (rule node_start_remembers(2) [OF assms(1)])
  ultimately show ?thesis by (auto simp: remembers_def last_samples_def staleness_view_def)
qed

theorem samples_never_expire_witness:
  "staleness_view (eval (nd_engine (foldl pose_step pose_node [Arrive pose_task [] [], TakeAt 0]))) 1000000
     ''robot/7/local/pose'' = Some JNull"
proof -
  have z: "\<not> is_zone_topic ''robot/7/local/pose''" by code_simp
  let ?es = "[Arrive pose_task [] [], TakeAt 0]"
  have "queue (nd_engine (foldl pose_step pose_node ?es)) = []"
    by (simp add: pose_node_def pose_task_def try_send_def CHANNEL_CAPACITY_def Let_def)
  moreover have "received demo_readers demo_digests f64_serde (\<lambda>_. Some JNull) demo_zenoh pose_node ?es =
      [(''robot/7/local/pose'', JNull)]"
    by (simp add: pose_node_def pose_task_def CHANNEL_CAPACITY_def)
  ultimately show ?thesis
    using samples_never_expire [OF pose_started refl, of ?es] z by simp
qed

end
