(* ===== verification/Fleet.thy ===== *)
theory Fleet
  imports Runtime Signaling "HOL-Library.Multiset"
begin

text \<open>
  Registration across the mesh: the server of \<open>src/registration/transport.rs\<close> and any number of robots
  that register as \<open>src/runtime.rs\<close> does, with the network between them. Requests in flight are lost or
  handled in any order; a response stays in the air, so it may reach nobody, one robot or several, late or
  never. Deregistrations and liveliness samples come at any time. The properties are what a robot may
  conclude from being told that it is registered.
\<close>

section \<open>Robots\<close>

text \<open>A robot is before its attempt \<open>k\<close>, waiting for the response to it, or done.\<close>

datatype phase = Ready nat | Waiting nat | Ended "(boot_error, unit) outcome"

definition after_attempt :: "nat \<Rightarrow> (registration_error, unit) outcome \<Rightarrow> phase" where
  "after_attempt k res =
     (if res = Err Timeout \<and> k < REGISTRATION_RETRIES then Ready (Suc k) else Ended (boot_verdict res))"

text \<open>Taken alone, a robot that is answered by \<open>replies\<close> ends as the loop of \<open>bootstrap\<close> does.\<close>

lemma attempts_end:
  assumes "k + length rest = REGISTRATION_RETRIES" and "0 < k"
  shows "fst (register_attempts Z W r cfg replies (k # map ((+) (Suc k)) [0..<length rest])) =
    (case after_attempt k (attempt_result Z W r cfg replies k) of
       Ended res \<Rightarrow> res
     | _ \<Rightarrow> fst (register_attempts Z W r cfg replies (map ((+) (Suc k)) [0..<length rest])))"
  by (cases "attempt_result Z W r cfg replies k" rule: boot_verdict.cases)
    (auto simp: after_attempt_def attempt_result_def Let_def case_prod_beta)

section \<open>The fleet\<close>

record fleet =
  fl_server :: server_state
  fl_phase :: "nat \<Rightarrow> phase"
  fl_requests :: "put multiset" \<comment> \<open>requests in flight\<close>
  fl_air :: "put set" \<comment> \<open>what the server published\<close>
  fl_released :: "string set" \<comment> \<open>robots deregistered since their last registration\<close>

definition fleet_new :: "server_config \<Rightarrow> fleet" where
  "fleet_new config =
     \<lparr>fl_server = \<lparr>sv_lease = lease_new config, reg_alive = True, dereg_alive = True, monitor_alive = True\<rparr>,
      fl_phase = (\<lambda>_. Ready 1), fl_requests = {#}, fl_air = {}, fl_released = {}\<rparr>"

definition serve :: "fleet \<Rightarrow> server_state \<times> put list \<Rightarrow> fleet" where
  "serve s r = s\<lparr>fl_server := fst r, fl_air := fl_air s \<union> set (snd r)\<rparr>"

definition conclude :: "nat \<Rightarrow> phase \<Rightarrow> fleet \<Rightarrow> fleet" where
  "conclude i p s = s\<lparr>fl_phase := (fl_phase s)(i := p)\<rparr>"

text \<open>The robots that a request registers, and those it removes from the record; nobody if it is refused.\<close>

definition readmitted :: "'n wire \<Rightarrow> server_state \<Rightarrow> string \<Rightarrow> string set" where
  "readmitted W sv bytes =
     (case request_of W bytes of
        Some (RegisterReq r c) \<Rightarrow> (if reg_alive sv \<and> fst (register (sv_lease sv) r c) = Ok () then {r} else {})
      | _ \<Rightarrow> {})"

definition discharged :: "'n wire \<Rightarrow> server_state \<Rightarrow> string \<Rightarrow> string set" where
  "discharged W sv bytes =
     (case request_of W bytes of
        Some (DeregisterReq r) \<Rightarrow> (if dereg_alive sv \<and> fst (deregister (sv_lease sv) r) = Ok () then {r} else {})
      | _ \<Rightarrow> {})"

text \<open>The responses a robot's subscription takes.\<close>

definition hears :: "(subscription \<Rightarrow> string \<Rightarrow> bool) \<Rightarrow> string \<Rightarrow> put \<Rightarrow> bool" where
  "hears delivers r p \<longleftrightarrow>
     (\<exists>t pat. (registration_response r :: (unit, topic) outcome) = Ok t \<and> pattern_try_new (topic_str t) = Ok pat \<and>
        delivers (subscription_for (pattern_str pat)) (put_key p))"

inductive fleet_step ::
  "'n zenoh \<Rightarrow> 'n wire \<Rightarrow> (subscription \<Rightarrow> string \<Rightarrow> bool) \<Rightarrow> (nat \<Rightarrow> string) \<Rightarrow> (nat \<Rightarrow> client_config) \<Rightarrow> fleet \<Rightarrow> fleet \<Rightarrow> bool"
  for Z :: "'n zenoh" and W :: "'n wire" and delivers ids cfgs where
  ask: "fl_phase s i = Ready k \<Longrightarrow>
    puts = snd (register_with_client Z W (ids i) (cfgs i) Elapsed) \<Longrightarrow>
    fleet_step Z W delivers ids cfgs s (conclude i (Waiting k) (s\<lparr>fl_requests := fl_requests s + mset puts\<rparr>))"
| hear: "fl_phase s i = Waiting k \<Longrightarrow> p \<in> fl_air s \<Longrightarrow> hears delivers (ids i) p \<Longrightarrow>
    res = fst (register_with_client Z W (ids i) (cfgs i) (Arrived (put_bytes p))) \<Longrightarrow>
    fleet_step Z W delivers ids cfgs s (conclude i (after_attempt k res) s)"
| expire: "fl_phase s i = Waiting k \<Longrightarrow> res = fst (register_with_client Z W (ids i) (cfgs i) Elapsed) \<Longrightarrow>
    fleet_step Z W delivers ids cfgs s (conclude i (after_attempt k res) s)"
| handle: "q \<in># fl_requests s \<Longrightarrow>
    fleet_step Z W delivers ids cfgs s
      (serve (s\<lparr>fl_requests := fl_requests s - {#q#}, fl_released := fl_released s - readmitted W (fl_server s) (put_bytes q)\<rparr>)
         (handle_registration Z W (fl_server s) (put_bytes q)))"
| lose: "fleet_step Z W delivers ids cfgs s (s\<lparr>fl_requests := fl_requests s - {#q#}\<rparr>)"
| leave: "request_of W bytes = Some (DeregisterReq (ids i)) \<Longrightarrow>
    fleet_step Z W delivers ids cfgs s
      (serve (s\<lparr>fl_released := fl_released s \<union> discharged W (fl_server s) bytes\<rparr>)
         (handle_deregistration Z W (fl_server s) bytes))"
| liveliness: "fleet_step Z W delivers ids cfgs s (serve s (handle_liveliness Z W (fl_server s) key kind))"

inductive fleet_run ::
  "'n zenoh \<Rightarrow> 'n wire \<Rightarrow> (subscription \<Rightarrow> string \<Rightarrow> bool) \<Rightarrow> (nat \<Rightarrow> string) \<Rightarrow> (nat \<Rightarrow> client_config) \<Rightarrow> server_config \<Rightarrow> fleet \<Rightarrow> bool"
  for Z :: "'n zenoh" and W :: "'n wire" and delivers ids cfgs config where
  start: "fleet_run Z W delivers ids cfgs config (fleet_new config)"
| step: "fleet_run Z W delivers ids cfgs config s \<Longrightarrow> fleet_step Z W delivers ids cfgs s s' \<Longrightarrow>
    fleet_run Z W delivers ids cfgs config s'"

section \<open>What the server records\<close>

text \<open>The robot is on record with the configuration of a robot of that id.\<close>

definition holds :: "(nat \<Rightarrow> string) \<Rightarrow> (nat \<Rightarrow> client_config) \<Rightarrow> (string \<rightharpoonup> client_entry) \<Rightarrow> string \<Rightarrow> bool" where
  "holds ids cfgs m r \<longleftrightarrow> (\<exists>i. ids i = r \<and> m r = Some \<lparr>ce_state = Registered, ce_config = Some (cfgs i)\<rparr>)"

definition recorded :: "(nat \<Rightarrow> string) \<Rightarrow> (nat \<Rightarrow> client_config) \<Rightarrow> fleet \<Rightarrow> string \<Rightarrow> bool" where
  "recorded ids cfgs s r \<longleftrightarrow>
     (let m = clients (sv_lease (fl_server s)) in holds ids cfgs m r \<or> entry_state m r = Poisoned) \<or> r \<in> fl_released s"

definition honest :: "(nat \<Rightarrow> string) \<Rightarrow> (nat \<Rightarrow> client_config) \<Rightarrow> (string \<rightharpoonup> client_entry) \<Rightarrow> bool" where
  "honest ids cfgs m \<longleftrightarrow> (\<forall>r. entry_state m r = Registered \<longrightarrow> holds ids cfgs m r)"

text \<open>Any client registry stays honest, and forgets no robot that it holds unless it is asked to.\<close>

context client_registry
begin

lemmas registry_views = registry_laws honest_def holds_def entry_state_def

lemma admit_honest:
  assumes "honest ids cfgs (entries s)"
  shows "honest ids cfgs (entries (snd (admit s (ids i) (cfgs i))))"
    and "fst (admit s (ids i) (cfgs i)) = Ok u \<Longrightarrow> holds ids cfgs (entries (snd (admit s (ids i) (cfgs i)))) (ids i)"
    and "holds ids cfgs (entries s) r \<Longrightarrow> holds ids cfgs (entries (snd (admit s (ids i) (cfgs i)))) r"
  using assms by (auto simp: registry_views)

lemma release_honest:
  assumes "honest ids cfgs (entries s)"
  shows "honest ids cfgs (entries (snd (release s r)))"
    and "holds ids cfgs (entries s) q \<Longrightarrow> q = r \<or> holds ids cfgs (entries (snd (release s r))) q"
  using assms by (auto simp: registry_views)

lemma lose_honest:
  assumes "honest ids cfgs (entries s)"
  shows "honest ids cfgs (entries (snd (lose s r)))"
    and "fst (lose s r) \<Longrightarrow> holds ids cfgs (entries s) r"
    and "holds ids cfgs (entries s) q \<Longrightarrow>
      holds ids cfgs (entries (snd (lose s r))) q \<or> entry_state (entries (snd (lose s r))) q = Poisoned"
  using assms by (auto simp: registry_views)

end

section \<open>What the handlers publish\<close>

lemma publish_response_key:
  "p \<in> set (snd (publish_response Z W t status)) \<Longrightarrow> put_key p = topic_str t"
  by (auto simp: publish_response_def case_prod_beta publish_def send_put_def split: option.splits)

lemma deregistration_effect:
  assumes "request_of W bytes = Some (DeregisterReq r)"
  shows "(sv_lease (fst (handle_deregistration Z W s bytes)) = sv_lease s \<or>
     sv_lease (fst (handle_deregistration Z W s bytes)) = snd (deregister (sv_lease s) r) \<and> dereg_alive s) \<and>
    (\<forall>p \<in> set (snd (handle_deregistration Z W s bytes)). put_key p = ''fleet/deregistration/response/'' @ r)"
  using assms
  by (cases "CHR ''/'' \<in> set r")
    (auto simp: handle_deregistration_def case_prod_beta Let_def dest: publish_response_key)

lemma liveliness_effect:
  "\<exists>r. sv_lease (fst (handle_liveliness Z W s key kind)) \<in> {sv_lease s, snd (on_liveliness_delete (sv_lease s) r)} \<and>
    (\<forall>p \<in> set (snd (handle_liveliness Z W s key kind)).
       fst (on_liveliness_delete (sv_lease s) r) \<and> put_key p = ''fleet/alerts/heartbeat/'' @ r)"
  by (rule exI [of _ "split_on CHR ''/'' key ! 1"], cases "CHR ''/'' \<in> set (split_on CHR ''/'' key ! 1)")
    (auto simp: handle_liveliness_def case_prod_beta Let_def split: sample_kind.split dest: publish_response_key)

lemma request_puts:
  "q \<in> set (snd (register_with_client Z W r c reply)) \<Longrightarrow>
     \<exists>v. request_value W (RegisterReq r c) = Some v \<and> z_to_vec Z v = Some (put_bytes q)"
  by (auto simp: register_with_client_def request_response_def publish_def send_put_def case_prod_beta
      split: if_splits option.splits outcome.splits)

lemma told_registered:
  "fst (register_with_client Z W r c reply) = Ok u \<Longrightarrow>
     \<exists>b. reply = Arrived b \<and> response_of W b = Some Ack"
  by (cases reply)
    (auto simp: register_with_client_def request_response_def case_prod_beta await_status_def bind_out_Ok ok_or_Ok
      split: if_splits option.splits outcome.splits)

lemma after_attempt_Ok [simp]: "after_attempt k res = Ended (Ok u) \<longleftrightarrow> res = Ok ()"
  by (cases res rule: boot_verdict.cases) (auto simp: after_attempt_def)

section \<open>What a robot hears\<close>

definition fleet_keys :: "string \<Rightarrow> string set" where
  "fleet_keys r = {''fleet/registration/response/'' @ r, ''fleet/deregistration/response/'' @ r, ''fleet/alerts/heartbeat/'' @ r}"

lemma fleet_keys_plain: "signal_id r \<Longrightarrow> k \<in> fleet_keys r \<Longrightarrow> plain_key k"
  by (auto simp: fleet_keys_def plain_key_def signal_id_def string_simps)

lemma response_key_inj:
  "''fleet/registration/response/'' @ r \<in> fleet_keys q \<longleftrightarrow> r = q"
  by (auto simp: fleet_keys_def)

context key_delivery
begin

lemma hears_key:
  assumes "signal_id r" and "plain_key (put_key p)" and "hears delivers r p"
  shows "put_key p = ''fleet/registration/response/'' @ r"
proof -
  have slash: "CHR ''/'' \<notin> set r" and ne: "r \<notin> {[], ''*'', ''**''}" and star: "CHR ''*'' \<notin> set r"
    using assms(1) by (auto simp: signal_id_def)
  obtain t pat where t: "(registration_response r :: (unit, topic) outcome) = Ok t"
    and pat: "pattern_try_new (topic_str t) = Ok pat" and heard: "delivers (subscription_for (pattern_str pat)) (put_key p)"
    using assms(3) unfolding hears_def by blast
  have "Ok t = (Ok (Topic (''fleet/registration/response/'' @ r)) :: (unit, topic) outcome)"
    by (rule trans [OF t [symmetric] response_Ok(1) [OF slash]])
  then have "topic_str t = ''fleet/registration/response/'' @ r" by (simp only: outcome.inject topic.sel)
  with pat have "Ok pat = (Ok (Pattern (''fleet/registration/response/'' @ r)) :: (topic_error, pattern) outcome)"
    using response_pattern [OF slash ne] by (simp only:)
  then have "pattern_str pat = ''fleet/registration/response/'' @ r" by (simp only: outcome.inject pattern.sel)
  with heard have "delivers (subscription_for (''fleet/registration/response/'' @ r)) (put_key p)" by (simp only:)
  then have "delivers (DataSub (''fleet/registration/response/'' @ r)) (put_key p)"
    by (auto simp: subscription_for_def no_put_on_liveliness split: if_splits)
  then show ?thesis
    using ke_literal [of "''fleet/registration/response/'' @ r" "put_key p"] star assms(2) by simp
qed

end

section \<open>The invariant\<close>

definition requests_documented :: "'n zenoh \<Rightarrow> 'n wire \<Rightarrow> (nat \<Rightarrow> string) \<Rightarrow> (nat \<Rightarrow> client_config) \<Rightarrow> bool" where
  "requests_documented Z W ids cfgs \<longleftrightarrow>
     (\<forall>i v b. request_value W (RegisterReq (ids i) (cfgs i)) = Some v \<longrightarrow> z_to_vec Z v = Some b \<longrightarrow>
        request_of W b = Some (RegisterReq (ids i) (cfgs i)))"

definition aired :: "'n wire \<Rightarrow> (nat \<Rightarrow> string) \<Rightarrow> (nat \<Rightarrow> client_config) \<Rightarrow> fleet \<Rightarrow> put \<Rightarrow> bool" where
  "aired W ids cfgs s p \<longleftrightarrow>
     (\<exists>i. put_key p \<in> fleet_keys (ids i) \<and>
        (put_key p = ''fleet/registration/response/'' @ ids i \<longrightarrow> response_of W (put_bytes p) = Some Ack \<longrightarrow>
           recorded ids cfgs s (ids i)))"

definition fleet_ok :: "'n wire \<Rightarrow> (nat \<Rightarrow> string) \<Rightarrow> (nat \<Rightarrow> client_config) \<Rightarrow> fleet \<Rightarrow> bool" where
  "fleet_ok W ids cfgs s \<longleftrightarrow>
     honest ids cfgs (clients (sv_lease (fl_server s))) \<and>
     (\<forall>q \<in># fl_requests s. \<exists>i. request_of W (put_bytes q) = Some (RegisterReq (ids i) (cfgs i))) \<and>
     (\<forall>p \<in> fl_air s. aired W ids cfgs s p) \<and>
     (\<forall>i. fl_phase s i = Ended (Ok ()) \<longrightarrow> recorded ids cfgs s (ids i))"

lemma fleet_okI:
  assumes "honest ids cfgs (clients (sv_lease (fl_server s)))"
    and "\<And>q. q \<in># fl_requests s \<Longrightarrow> \<exists>i. request_of W (put_bytes q) = Some (RegisterReq (ids i) (cfgs i))"
    and "\<And>p. p \<in> fl_air s \<Longrightarrow> aired W ids cfgs s p"
    and "\<And>i. fl_phase s i = Ended (Ok ()) \<Longrightarrow> recorded ids cfgs s (ids i)"
  shows "fleet_ok W ids cfgs s"
  using assms by (simp add: fleet_ok_def)

lemma fleet_okD:
  assumes "fleet_ok W ids cfgs s"
  shows "honest ids cfgs (clients (sv_lease (fl_server s)))"
    and "q \<in># fl_requests s \<Longrightarrow> \<exists>i. request_of W (put_bytes q) = Some (RegisterReq (ids i) (cfgs i))"
    and "p \<in> fl_air s \<Longrightarrow> aired W ids cfgs s p"
    and "fl_phase s i = Ended (Ok ()) \<Longrightarrow> recorded ids cfgs s (ids i)"
  using assms by (simp_all add: fleet_ok_def)

lemma aired_mono:
  "aired W ids cfgs s p \<Longrightarrow> (\<And>r. recorded ids cfgs s r \<Longrightarrow> recorded ids cfgs s' r) \<Longrightarrow> aired W ids cfgs s' p"
  unfolding aired_def by blast

text \<open>A step of one robot changes nothing that the server knows.\<close>

lemma recorded_conclude [simp]:
  "recorded ids cfgs (conclude i ph s) r \<longleftrightarrow> recorded ids cfgs s r"
  "recorded ids cfgs (s\<lparr>fl_requests := q\<rparr>) r \<longleftrightarrow> recorded ids cfgs s r"
  by (simp_all add: recorded_def conclude_def)

lemma conclude_views [simp]:
  "fl_server (conclude i ph s) = fl_server s" "fl_requests (conclude i ph s) = fl_requests s"
  "fl_air (conclude i ph s) = fl_air s" "fl_phase (conclude i ph s) = (fl_phase s)(i := ph)"
  by (simp_all add: conclude_def)

lemma robot_step_ok:
  assumes ok: "fleet_ok W ids cfgs s" and "ph = Ended (Ok ()) \<Longrightarrow> recorded ids cfgs s (ids i)"
    and "\<And>q. q \<in># new \<Longrightarrow> \<exists>i. request_of W (put_bytes q) = Some (RegisterReq (ids i) (cfgs i))"
  shows "fleet_ok W ids cfgs (conclude i ph (s\<lparr>fl_requests := fl_requests s + new\<rparr>))"
proof (rule fleet_okI)
  fix q assume "q \<in># fl_requests (conclude i ph (s\<lparr>fl_requests := fl_requests s + new\<rparr>))"
  then show "\<exists>i. request_of W (put_bytes q) = Some (RegisterReq (ids i) (cfgs i))"
    using fleet_okD(2) [OF ok] assms(3) by auto
next
  fix p assume "p \<in> fl_air (conclude i ph (s\<lparr>fl_requests := fl_requests s + new\<rparr>))"
  then show "aired W ids cfgs (conclude i ph (s\<lparr>fl_requests := fl_requests s + new\<rparr>)) p"
    using fleet_okD(3) [OF ok, of p] aired_mono [of W ids cfgs s p] by simp
qed (use fleet_okD(1,4) [OF ok] assms(2) in \<open>auto split: if_splits\<close>)

text \<open>A step of the server keeps the invariant if it forgets no robot and airs only what is so.\<close>

lemma server_step_ok:
  assumes ok: "fleet_ok W ids cfgs s" and "honest ids cfgs (clients (sv_lease (fst r)))"
    and rec: "\<And>q. recorded ids cfgs s q \<Longrightarrow> recorded ids cfgs (serve s' r) q"
    and "\<And>p. p \<in> set (snd r) \<Longrightarrow> aired W ids cfgs (serve s' r) p"
    and "set_mset (fl_requests s') \<subseteq> set_mset (fl_requests s)" and "fl_air s' = fl_air s" and "fl_phase s' = fl_phase s"
  shows "fleet_ok W ids cfgs (serve s' r)"
proof (rule fleet_okI)
  fix q assume "q \<in># fl_requests (serve s' r)"
  then show "\<exists>i. request_of W (put_bytes q) = Some (RegisterReq (ids i) (cfgs i))"
    using fleet_okD(2) [OF ok] assms(5) by (auto simp: serve_def)
next
  fix p assume "p \<in> fl_air (serve s' r)"
  then show "aired W ids cfgs (serve s' r) p"
    using aired_mono [OF fleet_okD(3) [OF ok, of p] rec] assms(4,6) by (auto simp: serve_def)
qed (use rec fleet_okD(4) [OF ok] assms(2,7) in \<open>auto simp: serve_def\<close>)

lemma recorded_serve:
  "recorded ids cfgs (serve s r) q \<longleftrightarrow>
     holds ids cfgs (clients (sv_lease (fst r))) q \<or> entry_state (clients (sv_lease (fst r))) q = Poisoned \<or> q \<in> fl_released s"
  by (simp add: recorded_def Let_def serve_def)

lemma handle_ok:
  assumes ok: "fleet_ok W ids cfgs s" and wire: "wire_documented Z W" and id: "\<And>i. signal_id (ids i)"
    and q: "q \<in># fl_requests s"
  shows "fleet_ok W ids cfgs (serve (s\<lparr>fl_requests := fl_requests s - {#q#}, fl_released := fl_released s - readmitted W (fl_server s) (put_bytes q)\<rparr>)
    (handle_registration Z W (fl_server s) (put_bytes q)))"
proof -
  let ?s = "s\<lparr>fl_requests := fl_requests s - {#q#}, fl_released := fl_released s - readmitted W (fl_server s) (put_bytes q)\<rparr>"
  note honest = fleet_okD(1) [OF ok]
  obtain i where req: "request_of W (put_bytes q) = Some (RegisterReq (ids i) (cfgs i))"
    using fleet_okD(2) [OF ok q] by blast
  let ?l = "sv_lease (fl_server s)"
  let ?res = "register ?l (ids i) (cfgs i)" and ?h = "handle_registration Z W (fl_server s) (put_bytes q)"
  have "sv_lease (fst ?h) \<in> {?l, snd ?res} \<and> (reg_alive (fl_server s) \<longrightarrow> sv_lease (fst ?h) = snd ?res) \<and> (\<forall>p \<in> set (snd ?h). sv_lease (fst ?h) = snd ?res \<and>
      put_key p = ''fleet/registration/response/'' @ ids i \<and>
      (response_of W (put_bytes p) = Some Ack \<longrightarrow> fst ?res = Ok ()))"
  proof (cases "reg_alive (fl_server s)")
    case True
    with registration_step [OF wire True req] id [of i] show ?thesis
      by (auto simp: signal_id_def registration_result_def split: outcome.splits registration_error.splits)
  qed (simp add: handle_registration_def)
  then have lease: "sv_lease (fst ?h) \<in> {?l, snd ?res}" and taken: "reg_alive (fl_server s) \<Longrightarrow> sv_lease (fst ?h) = snd ?res"
    and puts: "\<And>p. p \<in> set (snd ?h) \<Longrightarrow> sv_lease (fst ?h) = snd ?res \<and>
      put_key p = ''fleet/registration/response/'' @ ids i \<and>
      (response_of W (put_bytes p) = Some Ack \<longrightarrow> fst ?res = Ok ())" by blast+
  show ?thesis
  proof (rule server_step_ok [OF ok])
    show "honest ids cfgs (clients (sv_lease (fst ?h)))" using lease honest leases.admit_honest(1) [OF honest] by auto
    show "recorded ids cfgs (serve ?s ?h) r" if "recorded ids cfgs s r" for r
    proof (cases "r \<in> readmitted W (fl_server s) (put_bytes q)")
      case True
      then have "r = ids i" "reg_alive (fl_server s)" "fst ?res = Ok ()"
        by (auto simp: readmitted_def req split: if_splits)
      then show ?thesis unfolding recorded_serve using taken leases.admit_honest(2) [OF honest, of i "()"] by simp
    next
      case False
      then show ?thesis
        unfolding recorded_serve using that [unfolded recorded_def Let_def] lease leases.admit_honest(3) [OF honest, of r i] leases.poisoned_stays(1) by auto
    qed
    show "aired W ids cfgs (serve ?s ?h) p" if "p \<in> set (snd ?h)" for p
      unfolding aired_def recorded_serve using puts [OF that] leases.admit_honest(2) [OF honest, of i "()"]
      by (intro exI [of _ i]) (auto simp: fleet_keys_def)
  qed (auto dest: in_diffD)
qed

lemma leave_ok:
  assumes ok: "fleet_ok W ids cfgs s" and req: "request_of W bytes = Some (DeregisterReq (ids i))"
  shows "fleet_ok W ids cfgs
    (serve (s\<lparr>fl_released := fl_released s \<union> discharged W (fl_server s) bytes\<rparr>) (handle_deregistration Z W (fl_server s) bytes))"
proof -
  let ?s = "s\<lparr>fl_released := fl_released s \<union> discharged W (fl_server s) bytes\<rparr>"
  note honest = fleet_okD(1) [OF ok]
  let ?h = "handle_deregistration Z W (fl_server s) bytes" and ?l = "sv_lease (fl_server s)"
  have lease: "sv_lease (fst ?h) = ?l \<or> sv_lease (fst ?h) = snd (deregister ?l (ids i)) \<and> dereg_alive (fl_server s)"
    and puts: "\<And>p. p \<in> set (snd ?h) \<Longrightarrow> put_key p = ''fleet/deregistration/response/'' @ ids i"
    using deregistration_effect [OF req, of Z "fl_server s"] by blast+
  show ?thesis
  proof (rule server_step_ok [OF ok])
    show "honest ids cfgs (clients (sv_lease (fst ?h)))" using lease honest leases.release_honest(1) [OF honest] by auto
    show "recorded ids cfgs (serve ?s ?h) r" if "recorded ids cfgs s r" for r
    proof (cases "fst (deregister ?l (ids i)) = Ok ()")
      case True
      then show ?thesis
        unfolding recorded_serve using that [unfolded recorded_def Let_def] lease leases.release_honest(2) [OF honest, of r "ids i"]
          leases.poisoned_stays(2) by (auto simp: discharged_def req)
    next
      case False
      then have "clients (sv_lease (fst ?h)) = clients ?l" using lease leases.release_entries [of ?l "ids i"] by auto
      then show ?thesis unfolding recorded_serve using that [unfolded recorded_def Let_def] by auto
    qed
    show "aired W ids cfgs (serve ?s ?h) p" if "p \<in> set (snd ?h)" for p
      unfolding aired_def using puts [OF that] by (intro exI [of _ i]) (simp add: fleet_keys_def)
  qed simp_all
qed

lemma liveliness_ok:
  assumes ok: "fleet_ok W ids cfgs s"
  shows "fleet_ok W ids cfgs (serve s (handle_liveliness Z W (fl_server s) key kind))"
proof -
  note honest = fleet_okD(1) [OF ok]
  let ?h = "handle_liveliness Z W (fl_server s) key kind" and ?l = "sv_lease (fl_server s)"
  obtain r where lease: "sv_lease (fst ?h) \<in> {?l, snd (on_liveliness_delete ?l r)}"
    and puts: "\<And>p. p \<in> set (snd ?h) \<Longrightarrow> fst (on_liveliness_delete ?l r) \<and> put_key p = ''fleet/alerts/heartbeat/'' @ r"
    using liveliness_effect [of Z W "fl_server s" key kind] by blast
  show ?thesis
  proof (rule server_step_ok [OF ok])
    show "honest ids cfgs (clients (sv_lease (fst ?h)))" using lease honest leases.lose_honest(1) [OF honest] by auto
    show "recorded ids cfgs (serve s ?h) q" if "recorded ids cfgs s q" for q
      unfolding recorded_serve using that [unfolded recorded_def Let_def] lease leases.lose_honest(3) [OF honest, of q r] leases.poisoned_stays(3) by auto
    show "aired W ids cfgs (serve s ?h) p" if p: "p \<in> set (snd ?h)" for p
    proof -
      have "holds ids cfgs (clients ?l) r" using leases.lose_honest(2) [OF honest] puts [OF p] by blast
      then obtain i where "ids i = r" by (auto simp: holds_def)
      then show ?thesis unfolding aired_def using puts [OF p] by (intro exI [of _ i]) (simp add: fleet_keys_def)
    qed
  qed simp_all
qed

lemma fleet_step_ok:
  assumes "fleet_step Z W delivers ids cfgs s s'" and ok: "fleet_ok W ids cfgs s"
    and delivers: "delivery_documented delivers" and wire: "wire_documented Z W"
    and requests: "requests_documented Z W ids cfgs" and id: "\<And>i. signal_id (ids i)"
  shows "fleet_ok W ids cfgs s'"
  using assms(1)
proof (cases rule: fleet_step.cases)
  case (ask i k puts)
  have "\<exists>i. request_of W (put_bytes q) = Some (RegisterReq (ids i) (cfgs i))" if "q \<in># mset puts" for q
    using that request_puts [of q Z W "ids i" "cfgs i" Elapsed] ask(3) requests
    unfolding requests_documented_def by auto
  then show ?thesis unfolding ask(1) by (intro robot_step_ok [OF ok]) simp_all
next
  case (hear i k p res)
  have "recorded ids cfgs s (ids i)" if "after_attempt k res = Ended (Ok ())"
  proof -
    have ack: "response_of W (put_bytes p) = Some Ack"
      using that hear(5) told_registered [of Z W "ids i" "cfgs i" "Arrived (put_bytes p)" "()"] by auto
    obtain j where j: "put_key p \<in> fleet_keys (ids j)"
      "put_key p = ''fleet/registration/response/'' @ ids j \<Longrightarrow> recorded ids cfgs s (ids j)"
      using fleet_okD(3) [OF ok hear(3)] ack unfolding aired_def by blast
    have "put_key p = ''fleet/registration/response/'' @ ids i"
      by (rule key_delivery.hears_key [OF key_delivery.intro [OF delivers] id fleet_keys_plain [OF id j(1)] hear(4)])
    with j response_key_inj [of "ids i" "ids j"] show ?thesis by simp
  qed
  then show ?thesis using robot_step_ok [OF ok, of "after_attempt k res" i "{#}"] hear(1) by simp
next
  case (expire i k res)
  have "after_attempt k res \<noteq> Ended (Ok ())"
    using expire(3) told_registered [of Z W "ids i" "cfgs i" Elapsed "()"] by auto
  then show ?thesis using robot_step_ok [OF ok, of "after_attempt k res" i "{#}"] expire(1) by simp
next
  case (lose q)
  have "fleet_ok W ids cfgs (s\<lparr>fl_requests := fl_requests s - {#q#}\<rparr>)"
  proof (rule fleet_okI)
    fix p assume "p \<in> fl_air (s\<lparr>fl_requests := fl_requests s - {#q#}\<rparr>)"
    then show "aired W ids cfgs (s\<lparr>fl_requests := fl_requests s - {#q#}\<rparr>) p"
      using aired_mono [OF fleet_okD(3) [OF ok, of p]] by simp
  qed (use fleet_okD(1,2,4) [OF ok] in \<open>auto dest: in_diffD\<close>)
  with lose show ?thesis by simp
qed (auto intro: handle_ok [OF ok wire id] leave_ok [OF ok] liveliness_ok [OF ok])

lemma fleet_new_ok: "fleet_ok W ids cfgs (fleet_new config)"
  by (rule fleet_okI) (auto simp: fleet_new_def honest_def entry_state_def lease_new_entry split: if_splits)

lemma fleet_run_ok:
  assumes "fleet_run Z W delivers ids cfgs config s" and "delivery_documented delivers" and "wire_documented Z W"
    and "requests_documented Z W ids cfgs" and "\<And>i. signal_id (ids i)"
  shows "fleet_ok W ids cfgs s"
  using assms(1) by (induction rule: fleet_run.induct) (auto intro: fleet_new_ok fleet_step_ok [OF _ _ assms(2-5)])

lemma response_subscription:
  assumes "CHR ''/'' \<notin> set r" and "\<not> sublist ''liveliness'' r"
  shows "subscription_for (''fleet/registration/response/'' @ r) = DataSub (''fleet/registration/response/'' @ r)"
proof -
  have parts: "split_on CHR ''/'' (''fleet/registration/response/'' @ r) = [''fleet'', ''registration'', ''response'', r]"
    using assms(1) by (simp add: string_simps)
  have "\<not> sublist ''liveliness'' ''fleet''" "\<not> sublist ''liveliness'' ''response''" by (auto dest: sublist_length_le)
  moreover have "\<not> sublist ''liveliness'' ''registration''" by code_simp
  ultimately have "\<not> sublist ''liveliness'' (''fleet/registration/response/'' @ r)"
    using sublist_split_iff [of "CHR ''/''" "''liveliness''" "''fleet/registration/response/'' @ r"] assms(2)
    unfolding parts by auto
  then show ?thesis by (simp only: subscription_for_def if_False)
qed

lemma ask_run:
  assumes "wire_documented Z W" and "\<And>sub. z_declare Z sub" and "\<And>p. z_put Z p" and "signal_id (ids i)"
    and "requests_documented Z W ids cfgs" and "fl_phase s i = Ready k"
  shows "\<exists>q. request_of W (put_bytes q) = Some (RegisterReq (ids i) (cfgs i)) \<and>
    fleet_step Z W delivers ids cfgs s (conclude i (Waiting k) (s\<lparr>fl_requests := fl_requests s + {#q#}\<rparr>))"
proof -
  have id: "CHR ''/'' \<notin> set (ids i)" "ids i \<notin> {[], ''*'', ''**''}" using assms(4) by (auto simp: signal_id_def)
  obtain v b where "request_value W (RegisterReq (ids i) (cfgs i)) = Some v" "z_to_vec Z v = Some b"
    and puts: "snd (register_with_client Z W (ids i) (cfgs i) Elapsed) =
      [\<lparr>put_key = REGISTRATION_KEY, put_bytes = b, put_qos = None\<rparr>]"
    using register_with_client_run [OF assms(1-3) id, of "cfgs i" Elapsed] by auto
  then have "request_of W b = Some (RegisterReq (ids i) (cfgs i))" using assms(5) by (auto simp: requests_documented_def)
  with fleet_step.ask [where ids = ids and cfgs = cfgs, OF assms(6) puts [symmetric]] show ?thesis
    by (intro exI [of _ "\<lparr>put_key = REGISTRATION_KEY, put_bytes = b, put_qos = None\<rparr>"]) simp
qed

lemma hear_ack:
  assumes "wire_documented Z W" and "\<And>sub. z_declare Z sub" and "\<And>p. z_put Z p" and "delivery_documented delivers"
    and "signal_id (ids i)" and "\<not> sublist ''liveliness'' (ids i)" and "fl_phase s i = Waiting k"
    and "p \<in> fl_air s" and "put_key p = ''fleet/registration/response/'' @ ids i" and "response_of W (put_bytes p) = Some Ack"
  shows "fleet_step Z W delivers ids cfgs s (conclude i (Ended (Ok ())) s)"
proof -
  let ?key = "''fleet/registration/response/'' @ ids i"
  have id: "CHR ''/'' \<notin> set (ids i)" "ids i \<notin> {[], ''*'', ''**''}" and star: "CHR ''*'' \<notin> set (ids i)"
    using assms(5) by (auto simp: signal_id_def)
  have "plain_key ?key" by (rule fleet_keys_plain [OF assms(5)]) (simp only: response_key_inj)
  then have "delivers (DataSub ?key) ?key"
    using key_expressions.ke_literal [of "\<lambda>ke. delivers (DataSub ke)" ?key ?key] star assms(4)
    by (simp add: key_expressions_def delivery_documented_def)
  then have "delivers (subscription_for ?key) (put_key p)"
    unfolding response_subscription [OF id(1) assms(6)] assms(9) .
  then have heard: "hears delivers (ids i) p"
    unfolding hears_def using response_pattern [OF id] response_Ok(1) [OF id(1)]
    by (intro exI [of _ "Topic ?key"] exI [of _ "Pattern ?key"] conjI) (simp_all only: topic.sel pattern.sel)
  have "Ok () = fst (register_with_client Z W (ids i) (cfgs i) (Arrived (put_bytes p)))"
    using assms(10) register_with_client_reply [OF assms(1-3) id] by (simp add: await_status_def)
  from fleet_step.hear [where ids = ids and cfgs = cfgs and i = i and p = p, OF assms(7,8) heard this] have
    "fleet_step Z W delivers ids cfgs s (conclude i (after_attempt k (Ok ())) s)" .
  then show ?thesis by (simp add: after_attempt_def)
qed

lemma shared_ack_run:
  assumes wire: "wire_documented Z W" and z: "\<And>sub. z_declare Z sub" "\<And>p. z_put Z p" and delivers: "delivery_documented delivers"
    and requests: "requests_documented Z W ids cfgs" and id: "\<And>i. signal_id (ids i)"
    and "\<not> sublist ''liveliness'' (ids i)" and "ids j = ids i" and "i \<noteq> j"
  shows "\<exists>s. fleet_run Z W delivers ids cfgs config s \<and>
    fl_phase s i = Ended (Ok ()) \<and> fl_phase s j = Ended (Ok ()) \<and>
    clients (sv_lease (fl_server s)) (ids i) = Some \<lparr>ce_state = Registered, ce_config = Some (cfgs i)\<rparr> \<and>
    (\<exists>q \<in># fl_requests s. request_of W (put_bytes q) = Some (RegisterReq (ids j) (cfgs j)))"
proof -
  let ?run = "fleet_run Z W delivers ids cfgs config"
  let ?s0 = "fleet_new config"
  obtain p where p: "request_of W (put_bytes p) = Some (RegisterReq (ids i) (cfgs i))"
    and step1: "fleet_step Z W delivers ids cfgs ?s0 (conclude i (Waiting 1) (?s0\<lparr>fl_requests := fl_requests ?s0 + {#p#}\<rparr>))"
    using ask_run [OF wire z id requests, of ?s0 i 1 delivers] by (auto simp: fleet_new_def)
  let ?s1 = "conclude i (Waiting 1) (?s0\<lparr>fl_requests := fl_requests ?s0 + {#p#}\<rparr>)"
  have run1: "?run ?s1" using step1
    by (blast intro: fleet_run.intros)
  have "fl_phase ?s1 j = Ready 1" using assms(9) by (simp add: fleet_new_def)
  then obtain q where q: "request_of W (put_bytes q) = Some (RegisterReq (ids j) (cfgs j))"
    and step2: "fleet_step Z W delivers ids cfgs ?s1 (conclude j (Waiting 1) (?s1\<lparr>fl_requests := fl_requests ?s1 + {#q#}\<rparr>))"
    using ask_run [OF wire z id requests, of ?s1 j 1 delivers] by blast
  let ?s2 = "conclude j (Waiting 1) (?s1\<lparr>fl_requests := fl_requests ?s1 + {#q#}\<rparr>)"
  have run2: "?run ?s2" using run1 step2
    by (blast intro: fleet_run.intros)
  have server: "fl_server ?s2 = fl_server ?s0" "fl_requests ?s2 = {#p, q#}" by (simp_all add: fleet_new_def)
  have fresh: "fst (register (sv_lease (fl_server ?s0)) r c) = Ok ()"
    "clients (snd (register (sv_lease (fl_server ?s0)) r c)) r = Some \<lparr>ce_state = Registered, ce_config = Some c\<rparr>" for r c
    by (simp_all add: fleet_new_def register_def lease_new_entry)
  have alive: "reg_alive (fl_server ?s2)" by (simp add: fleet_new_def)
  obtain b where b: "response_of W b = Some Ack" and handled: "handle_registration Z W (fl_server ?s2) (put_bytes p) =
      (fl_server ?s0\<lparr>sv_lease := snd (register (sv_lease (fl_server ?s0)) (ids i) (cfgs i))\<rparr>,
       [\<lparr>put_key = ''fleet/registration/response/'' @ ids i, put_bytes = b, put_qos = None\<rparr>])"
    using registration_step [OF wire alive p] id [of i] fresh(1)
    unfolding server(1) by (auto simp: signal_id_def registration_result_def)
  let ?r = "\<lparr>put_key = ''fleet/registration/response/'' @ ids i, put_bytes = b, put_qos = None\<rparr>"
  have "?run (serve (?s2\<lparr>fl_requests := fl_requests ?s2 - {#p#},
      fl_released := fl_released ?s2 - readmitted W (fl_server ?s2) (put_bytes p)\<rparr>) (handle_registration Z W (fl_server ?s2) (put_bytes p)))"
    using run2 by (rule fleet_run.step) (rule fleet_step.handle, unfold server, simp)
  then obtain s where run3: "?run s" and s: "fl_phase s i = Waiting 1" "fl_phase s j = Waiting 1" "?r \<in> fl_air s"
    "fl_requests s = {#q#}"
    "clients (sv_lease (fl_server s)) (ids i) = Some \<lparr>ce_state = Registered, ce_config = Some (cfgs i)\<rparr>"
    using assms(9) fresh(2) unfolding handled server(2) by (auto simp: serve_def)
  have air: "?r \<in> fl_air (conclude i (Ended (Ok ())) s)" using s(3) by simp
  have "?run (conclude i (Ended (Ok ())) s)"
    by (rule fleet_run.step [OF run3], rule hear_ack [where ids = ids and i = i, OF wire z delivers id assms(7) s(1) s(3)]) (simp_all add: b)
  then have "?run (conclude j (Ended (Ok ())) (conclude i (Ended (Ok ())) s))"
    by (rule fleet_run.step, intro hear_ack [where ids = ids and i = j, OF wire z delivers id _ _ air])
      (use assms(7-9) s(2) b in \<open>simp_all\<close>)
  then show ?thesis
    using s q assms(9) by (intro exI [of _ "conclude j (Ended (Ok ())) (conclude i (Ended (Ok ())) s)"]) simp
qed

section \<open>Properties\<close>

text \<open>
  C7: a robot that is told it is registered is on record. Robots ask, ask again after a timeout, and the
  network loses, delays and reorders their requests and spreads the responses to whoever subscribes;
  robots leave and lose their liveliness. In every state of every such run, for a robot whose
  registration succeeded, the lease holds its id with the configuration of a robot of that id, unless the
  id has been poisoned, or it is in \<open>fl_released\<close>: its record was removed by a deregistration that the
  server accepted, and no registration of the id has been accepted after that.
\<close>

theorem confirmed_robot_on_record:
  assumes "fleet_run Z W delivers ids cfgs config s" and "delivery_documented delivers" and "wire_documented Z W"
    and "requests_documented Z W ids cfgs" and "\<And>i. signal_id (ids i)" and "fl_phase s i = Ended (Ok ())"
  shows "(\<exists>j. ids j = ids i \<and> clients (sv_lease (fl_server s)) (ids i) =
             Some \<lparr>ce_state = Registered, ce_config = Some (cfgs j)\<rparr>) \<or>
    client_state_of (sv_lease (fl_server s)) (ids i) = Poisoned \<or> ids i \<in> fl_released s"
  using fleet_okD(4) [OF fleet_run_ok [OF assms(1-5)] assms(6)] unfolding recorded_def holds_def client_state_of_entries Let_def by blast

lemma demo_requests_documented: "requests_documented demo_mesh demo_wire ids (\<lambda>_. demo_config)"
  by (auto simp: requests_documented_def demo_mesh_def demo_wire_def)

lemma demo_shared_ack:
  "\<exists>s. fleet_run demo_mesh demo_wire ke_delivers (\<lambda>_. ''7'') (\<lambda>_. demo_config) \<lparr>expected_clients = [''7'']\<rparr> s \<and>
    fl_phase s 0 = Ended (Ok ()) \<and> fl_phase s 2 = Ended (Ok ())"
proof -
  have "\<not> sublist ''liveliness'' ''7''" by (auto dest: sublist_length_le)
  then show ?thesis
    using shared_ack_run [OF demo_wire_documented _ _ ke_delivers_documented demo_requests_documented,
        of "\<lambda>_. ''7''" 0 2 "\<lparr>expected_clients = [''7'']\<rparr>"]
    by (auto simp: demo_mesh_def signal_id_def)
qed

theorem confirmed_robot_on_record_witness:
  "\<exists>s :: fleet. fl_phase s 0 = Ended (Ok ()) \<and>
     (clients (sv_lease (fl_server s)) ''7'' = Some \<lparr>ce_state = Registered, ce_config = Some demo_config\<rparr> \<or>
      client_state_of (sv_lease (fl_server s)) ''7'' = Poisoned \<or> ''7'' \<in> fl_released s)"
proof -
  obtain s where run: "fleet_run demo_mesh demo_wire ke_delivers (\<lambda>_. ''7'') (\<lambda>_. demo_config) \<lparr>expected_clients = [''7'']\<rparr> s"
    and told: "fl_phase s 0 = Ended (Ok ())"
    using demo_shared_ack by blast
  from confirmed_robot_on_record [OF run ke_delivers_documented demo_wire_documented demo_requests_documented _ told] told
  show ?thesis by - (rule exI [of _ s], simp add: signal_id_def)
qed

text \<open>
  C13: one acknowledgement confirms two robots. The response topic names the robot id and nothing of the
  request, so when two robots share an id, there is a run in which the server accepts the request of one,
  both take its acknowledgement for their own and end registered, the lease holds the configuration of
  the first only, and the request of the second is still in flight.
\<close>

theorem shared_id_both_confirmed:
  assumes "wire_documented Z W" and "\<And>sub. z_declare Z sub" and "\<And>p. z_put Z p" and "delivery_documented delivers"
    and "requests_documented Z W ids cfgs" and "\<And>i. signal_id (ids i)"
    and "\<not> sublist ''liveliness'' (ids i)" and "ids j = ids i" and "i \<noteq> j"
  shows "\<exists>s. fleet_run Z W delivers ids cfgs config s \<and>
    fl_phase s i = Ended (Ok ()) \<and> fl_phase s j = Ended (Ok ()) \<and>
    clients (sv_lease (fl_server s)) (ids i) = Some \<lparr>ce_state = Registered, ce_config = Some (cfgs i)\<rparr> \<and>
    (\<exists>q \<in># fl_requests s. request_of W (put_bytes q) = Some (RegisterReq (ids j) (cfgs j)))"
  using assms by (rule shared_ack_run)

theorem shared_id_both_confirmed_witness:
  "\<exists>s :: fleet. fl_phase s 0 = Ended (Ok ()) \<and> fl_phase s 2 = Ended (Ok ()) \<and> fl_requests s \<noteq> {#}"
proof -
  have "\<not> sublist ''liveliness'' ''7''" by (auto dest: sublist_length_le)
  with shared_id_both_confirmed [OF demo_wire_documented _ _ ke_delivers_documented demo_requests_documented,
      of "\<lambda>_. ''7''" 0 2 "\<lparr>expected_clients = [''7'']\<rparr>"]
  show ?thesis by (fastforce simp: demo_mesh_def signal_id_def)
qed

end
