(* ===== verification/Report.thy ===== *)
theory Report
  imports Server Video
begin

text \<open>
  What the processes report: the \<open>Display\<close> of the error types of \<open>src/semantic.rs\<close>, \<open>src/registry.rs\<close> and
  \<open>src/device.rs\<close>, the lines \<open>run_rule_command\<close> of \<open>src/cli.rs\<close> prints, and how the short-lived commands
  of the binaries in \<open>src/bin\<close> end. The rendering of a JSON value is \<open>serde_json\<close>'s, and that of a float
  the standard library's: the record \<open>writers\<close>.
\<close>

section \<open>Error texts\<close>

record 'n writers =
  show_value :: "'n json \<Rightarrow> string" \<comment> \<open>\<open>Display\<close> of \<open>serde_json::Value\<close>\<close>
  show_f64 :: "f64 \<Rightarrow> string" \<comment> \<open>\<open>Display\<close> of \<open>f64\<close>\<close>

definition quoted :: "string \<Rightarrow> string" where
  "quoted s = [CHR 0x27] @ s @ [CHR 0x27]"

definition in_rule :: "string \<Rightarrow> string \<Rightarrow> string" where
  "in_rule rname rest = ''rule '' @ quoted rname @ '': '' @ rest"

fun message_text :: "'n writers \<Rightarrow> 'n message \<Rightarrow> string" where
  "message_text W (MParse e) = e"
| "message_text W (MNoVerb r) = in_rule r ''action has no known verb (estop/slow_to/resume)''"
| "message_text W (MManyVerbs r) =
     in_rule r ''action has multiple verbs (only one of estop/slow_to/resume/topic allowed)''"
| "message_text W (MPayload r p) =
     in_rule r (''action payload must be primitive (bool/int/float/string), got '' @ show_value W p)"
| "message_text W (MSlowTo r v) = in_rule r (''slow_to must be finite, got '' @ show_f64 W v)"
| "message_text W (MTopicEmpty r) = in_rule r ''action topic is empty''"
| "message_text W (MWhenEmpty r) = in_rule r ''when is empty (no condition key, no all, no any)''"
| "message_text W (MDistance r d) = in_rule r (''distance must be > 0, got '' @ show_f64 W d)"
| "message_text W (MZone r z) = in_rule r (''references unknown zone '' @ quoted z)"
| "message_text W (MSecondOr r path idx) =
     in_rule r (path @ ''.all['' @ show_nat idx @ ''] introduces a second OR group; '' @
       ''the runtime model can hold only one (an AND of two OR groups)'')"
| "message_text W (MAndWithOr r path) =
     in_rule r (path @ '' is an AND of triggers ANDed with an OR group, '' @
       ''which cannot be expressed as a single OR element'')"
| "message_text W (MAndOf r path n) =
     in_rule r (path @ '' is an AND of '' @ show_nat n @ '' triggers; '' @
       ''an OR element must be a single trigger or an OR group'')"
| "message_text W MSiteId = ''missing [site].id''"
| "message_text W (MTopic t e) = ''invalid topic '' @ quoted t @ '': '' @ topic_error_text e"
| "message_text W (MName n) = ''invalid ruleset_name '' @ quoted n @ '' (must match [a-z0-9-]{1,64})''"

definition semantic_error_text :: "'n writers \<Rightarrow> 'n semantic_error \<Rightarrow> string" where
  "semantic_error_text W e =
     ''error['' @ error_code_str (se_code e) @ '']: '' @ message_text W (se_message e) @
     (case field_path e of Some path \<Rightarrow> newline @ ''  --> '' @ path | None \<Rightarrow> [])"

fun registry_error_text :: "registry_error \<Rightarrow> string" where
  "registry_error_text (DbError e) = ''registry db error: '' @ e"
| "registry_error_text (IoError e) = ''registry io error: '' @ e"
| "registry_error_text BadName = ''invalid ruleset_name''"
| "registry_error_text (LockError e) = ''registry lock poisoned: '' @ e"
| "registry_error_text (SerError e) = ''registry serialization error: '' @ e"

text \<open>\<open>io\<close> is the text of the I/O error that \<open>metadata\<close> gave.\<close>

fun device_error_text :: "string \<Rightarrow> device_error \<Rightarrow> string" where
  "device_error_text io (DeviceNotFound p) = ''video device not found: '' @ p"
| "device_error_text io (DeviceIo p) = ''could not stat video device '' @ p @ '': '' @ io"
| "device_error_text io (NotACharacterDevice p) =
     p @ '' is not a usable V4L2 video device (expected a /dev/videoN char device)''"

section \<open>How a command ends\<close>

datatype std_stream = Stdout | Stderr

text \<open>
  The exit code, the lines the program prints, and the error \<open>main\<close> returns, which the Rust runtime
  prints after them. A panic exits with 101.
\<close>

record process_end =
  exit_code :: nat
  printed :: "(std_stream \<times> string) list"
  returned :: "string option"

definition ends_ok :: "(std_stream \<times> string) list \<Rightarrow> process_end" where
  "ends_ok ls = \<lparr>exit_code = 0, printed = ls, returned = None\<rparr>"

definition ends_err :: "(std_stream \<times> string) list \<Rightarrow> string \<Rightarrow> process_end" where
  "ends_err ls e = \<lparr>exit_code = 1, printed = ls, returned = Some e\<rparr>"

fun rule_path :: "rule_subcommand \<Rightarrow> string" where
  "rule_path (Check path json) = path"
| "rule_path (Compile path robot_id json) = path"

fun report_text :: "'n writers \<Rightarrow> 'n report \<Rightarrow> string" where
  "report_text W (SemanticOk path) = ''OK: '' @ path @ '' is a valid semantic ruleset''"
| "report_text W (RawOk path) = ''OK: '' @ path @ '' is a valid raw ruleset''"
| "report_text W (Invalid e) = ''INVALID: '' @ semantic_error_text W e"
| "report_text W (ParseError e) = ''PARSE ERROR: '' @ semantic_error_text W e"
| "report_text W (CompileError e) = ''COMPILE ERROR: '' @ semantic_error_text W e"
| "report_text W (Compiled out) = out"

definition error_object :: "'n writers \<Rightarrow> string \<Rightarrow> 'n semantic_error \<Rightarrow> (string \<times> 'n json) list" where
  "error_object W path e =
     [(''status'', JString ''error''), (''path'', JString path), (''error'', JString (semantic_error_text W e))]"

fun report_object :: "'n writers \<Rightarrow> string \<Rightarrow> 'n report \<Rightarrow> (string \<times> 'n json) list" where
  "report_object W path (SemanticOk _) = [(''status'', JString ''ok''), (''path'', JString path)]"
| "report_object W path (RawOk _) = [(''status'', JString ''ok''), (''path'', JString path), (''kind'', JString ''raw'')]"
| "report_object W path (Invalid e) = error_object W path e"
| "report_object W path (ParseError e) = error_object W path e"
| "report_object W path (CompileError e) = error_object W path e"
| "report_object W path (Compiled out) = []"

text \<open>The flag of a result says that the report goes out as JSON; \<open>rule compile\<close> never sets it.\<close>

definition report_line :: "'n writers \<Rightarrow> string \<Rightarrow> bool \<Rightarrow> 'n report \<Rightarrow> string" where
  "report_line W path json r = (if json then show_value W (JObject (report_object W path r)) else report_text W r)"

fun rule_end :: "'n writers \<Rightarrow> string \<Rightarrow> 'n cli_result \<Rightarrow> process_end" where
  "rule_end W path (Finished json r) = ends_ok [(Stdout, report_line W path json r)]"
| "rule_end W path (ExitOne json r) = \<lparr>exit_code = 1, printed = [(Stderr, report_line W path json r)], returned = None\<rparr>"
| "rule_end W path (Returned e) = ends_err [] e"
| "rule_end W path Crashed = \<lparr>exit_code = 101, printed = [], returned = None\<rparr>"

text \<open>
  The ends of the one-shot commands of both binaries; \<open>None\<close> when the program goes on to run a client or
  a server. \<open>locators\<close> opens a session and gives the locators it listens on.
\<close>

definition print_locators :: "(string, string list) outcome \<Rightarrow> process_end" where
  "print_locators found =
     (case found of
        Err e \<Rightarrow> ends_err [] e
      | Panic \<Rightarrow> \<lparr>exit_code = 101, printed = [], returned = None\<rparr>
      | Ok ls \<Rightarrow>
          let lines = map (Pair Stdout) ls
          in if ls = [] then ends_err (lines @ [(Stderr, ''no locators'')]) ''no zenoh locators'' else ends_ok lines)"

fun action_end ::
  "filesystem \<Rightarrow> 'n crates \<Rightarrow> ('n rules \<Rightarrow> string option) \<Rightarrow> 'n writers \<Rightarrow> 'ip tcp
   \<Rightarrow> (config \<Rightarrow> (string, string list) outcome) \<Rightarrow> main_action \<Rightarrow> process_end option" where
  "action_end F K pretty W N locators (RunRule cmd) = Some (rule_end W (rule_path cmd) (run_rule_command F K pretty cmd))"
| "action_end F K pretty W N locators (HealthProbe addr) =
     Some (if probe N (utf8_lossy (cr_toml K)) addr then ends_ok [] else ends_err [] (''health probe failed at '' @ addr))"
| "action_end F K pretty W N locators (PrintLocators config) = Some (print_locators (locators config))"
| "action_end F K pretty W N locators StartClient = None"
| "action_end F K pretty W N locators (StartServer robot_id) = None"

section \<open>What the reports promise\<close>

lemma check_rules_cases:
  assumes "parse_semantic_auto (cr_readers K) file_text \<noteq> Panic"
  shows "(\<exists>r \<in> {SemanticOk path, RawOk path}. check_rules K path json file_text = Finished json r) \<or>
    (\<exists>e. check_rules K path json file_text \<in> {ExitOne json (Invalid e), ExitOne json (ParseError e)})"
  using assms validate_no_panic by (auto simp: check_rules_def split: outcome.split option.split)

text \<open>
  \<open>rule check --json\<close> can be read by a machine: for a file that can be read it prints one
  JSON object on one line, with the path, and its status is \<open>ok\<close>, on standard output, exactly when the
  exit code is 0, and \<open>error\<close>, on standard error, when it is 1.
\<close>

theorem check_json_verdict:
  assumes "read_file F path = Some file_text" and "parse_semantic_auto (cr_readers K) file_text \<noteq> Panic"
  shows "\<exists>obj ok. rule_end W path (run_rule_command F K pretty (Check path True)) =
      \<lparr>exit_code = (if ok then 0 else 1), printed = [(if ok then Stdout else Stderr, show_value W (JObject obj))], returned = None\<rparr> \<and>
    map_of obj ''path'' = Some (JString path) \<and> map_of obj ''status'' = Some (JString (if ok then ''ok'' else ''error''))"
proof -
  have run: "run_rule_command F K pretty (Check path True) = check_rules K path True file_text"
    using assms(1) by (simp add: run_rule_command_def)
  from check_rules_cases [OF assms(2), of path True] show ?thesis
  proof
    assume "\<exists>r \<in> {SemanticOk path, RawOk path}. check_rules K path True file_text = Finished True r"
    then obtain r where "r \<in> {SemanticOk path, RawOk path}" "check_rules K path True file_text = Finished True r" by blast
    then show ?thesis
      unfolding run by (intro exI [of _ "report_object W path r"] exI [of _ True]) (auto simp: report_line_def ends_ok_def)
  next
    assume "\<exists>e. check_rules K path True file_text \<in> {ExitOne True (Invalid e), ExitOne True (ParseError e)}"
    then obtain e where "check_rules K path True file_text \<in> {ExitOne True (Invalid e), ExitOne True (ParseError e)}" by blast
    then show ?thesis
      unfolding run by (intro exI [of _ "error_object W path e"] exI [of _ False]) (auto simp: report_line_def error_object_def)
  qed
qed

text \<open>
  \<open>rule compile\<close> has the same flag and no effect of it: its diagnostics are plain text either way.
\<close>

theorem compile_ignores_json:
  "run_rule_command F K pretty (Compile path robot_id json) = run_rule_command F K pretty (Compile path robot_id json') \<and>
   (run_rule_command F K pretty (Compile path robot_id True) = ExitOne json r \<longrightarrow> \<not> json)"
  by (auto simp: run_rule_command_def compile_rules_def Let_def split: option.split outcome.split)

text \<open>The exit code of a container health check is the verdict of the probe, for both binaries.\<close>

theorem healthcheck_exit_code:
  assumes "cf_command flags = None" and "cf_healthcheck flags"
  shows "\<exists>act p. client_main Z F to_json flags a health_env id_env = Ok act \<and>
    server_main Z F to_json flags b health_env id_env = Ok act \<and>
    action_end F K pretty W N locators act = Some p \<and>
    (exit_code p = 0 \<longleftrightarrow> probe N (utf8_lossy (cr_toml K)) (case health_env of Some addr \<Rightarrow> addr | None \<Rightarrow> ''127.0.0.1:8080''))"
  using assms by (simp add: client_main_def server_main_def ends_ok_def ends_err_def)

end
