(* ===== verification/Call.thy ===== *)
theory Call
  imports Video
begin

text \<open>
  The callbacks of one \<open>VideoPeer\<close> (\<open>src/video.rs\<close>) as the tasks they spawn, and the start of an outgoing
  call with what arrives meanwhile. \<open>Video\<close> runs a callback to its end; here a task stops at every await, so
  callbacks of the same connection overlap. Each operation of the connection is one step, because the
  webrtc crate runs it under its own lock. The properties say what the order of the steps changes.
\<close>

section \<open>The tasks of a peer\<close>

datatype 'd peer_task =
    SettingOffer string 'd \<comment> \<open>\<open>on_offer\<close> before \<open>set_remote_description\<close>\<close>
  | CreatingAnswer string
  | SettingAnswer string 'd \<comment> \<open>before \<open>set_local_description\<close>\<close>
  | SendingAnswer string 'd
  | ApplyingAnswer 'd \<comment> \<open>\<open>on_answer\<close>\<close>
  | AddingCandidate ice_candidate \<comment> \<open>\<open>on_ice\<close>\<close>

text \<open>The part of a callback that runs before it spawns.\<close>

fun spawned :: "('pc, 'd) webrtc \<Rightarrow> handler_call \<Rightarrow> 'd peer_task option" where
  "spawned W (OnOffer from msg) = map_option (SettingOffer from) (parse_offer W (sm_sdp msg))"
| "spawned W (OnAnswer from msg) = map_option ApplyingAnswer (parse_answer W (sm_sdp msg))"
| "spawned W (OnIce from candidate) = Some (AddingCandidate candidate)"

text \<open>One step of a task: the connection after it, what the task still has to do, and what it publishes.\<close>

fun task_turn ::
  "('pc, 'd) webrtc \<Rightarrow> 'n zenoh \<Rightarrow> 'n signal_wire \<Rightarrow> string \<Rightarrow> 'd peer_task \<Rightarrow> 'pc
   \<Rightarrow> 'pc \<times> 'd peer_task option \<times> put list" where
  "task_turn W Z S me (SettingOffer from offer) pc =
     (let (ok, pc') = set_remote W offer pc in (pc', if ok then Some (CreatingAnswer from) else None, []))"
| "task_turn W Z S me (CreatingAnswer from) pc =
     (let (answer, pc') = create_answer W pc in (pc', map_option (SettingAnswer from) answer, []))"
| "task_turn W Z S me (SettingAnswer from answer) pc =
     (let (ok, pc') = set_local W answer pc in (pc', if ok then Some (SendingAnswer from answer) else None, []))"
| "task_turn W Z S me (SendingAnswer from answer) pc =
     (pc, None, snd (publish_answer Z S me from (sdp_of W answer) []))"
| "task_turn W Z S me (ApplyingAnswer desc) pc = (snd (set_remote W desc pc), None, [])"
| "task_turn W Z S me (AddingCandidate candidate) pc = (snd (add_candidate W candidate pc), None, [])"

record ('pc, 'd) live_peer =
  lp_peer :: "'pc video_peer"
  lp_tasks :: "'d peer_task list"
  lp_puts :: "put list"

definition idle :: "'pc video_peer \<Rightarrow> put list \<Rightarrow> ('pc, 'd) live_peer" where
  "idle peer puts = \<lparr>lp_peer = peer, lp_tasks = [], lp_puts = puts\<rparr>"

text \<open>A callback comes in, or the task at a position takes its next step.\<close>

datatype peer_event = Callback handler_call | Turn nat

definition remaining :: "nat \<Rightarrow> 'd peer_task option \<Rightarrow> 'd peer_task list \<Rightarrow> 'd peer_task list" where
  "remaining i rest ts = (case rest of Some t \<Rightarrow> ts[i := t] | None \<Rightarrow> take i ts @ drop (Suc i) ts)"

fun live_step ::
  "('pc, 'd) webrtc \<Rightarrow> 'n zenoh \<Rightarrow> 'n signal_wire \<Rightarrow> ('pc, 'd) live_peer \<Rightarrow> peer_event \<Rightarrow> ('pc, 'd) live_peer" where
  "live_step W Z S s (Callback c) =
     (case spawned W c of None \<Rightarrow> s | Some t \<Rightarrow> s\<lparr>lp_tasks := lp_tasks s @ [t]\<rparr>)"
| "live_step W Z S s (Turn i) =
     (if i < length (lp_tasks s)
      then let (pc, rest, puts) = task_turn W Z S (vp_robot (lp_peer s)) (lp_tasks s ! i) (vp_pc (lp_peer s))
        in \<lparr>lp_peer = (lp_peer s)\<lparr>vp_pc := pc\<rparr>, lp_tasks = remaining i rest (lp_tasks s), lp_puts = lp_puts s @ puts\<rparr>
      else s)"

section \<open>An outgoing call\<close>

text \<open>
  \<open>start_video\<close> in its steps: the offer is out when the value exists, \<open>run_signal_receiver\<close> is still to come.
  A subscription gets what is published while it exists; zenoh keeps nothing for later.
\<close>

record ('pc, 'd) caller =
  ca_live :: "('pc, 'd) live_peer"
  ca_receivers :: "signal_task list"
  ca_result :: "(video_error, unit) outcome option"

definition calling :: "'pc video_peer \<Rightarrow> put list \<Rightarrow> ('pc, 'd) caller" where
  "calling peer puts = \<lparr>ca_live = idle peer puts, ca_receivers = [], ca_result = None\<rparr>"

datatype caller_event =
    Subscribed \<comment> \<open>\<open>run_signal_receiver\<close> has been called and returns\<close>
  | Incoming put
  | Proceed nat

fun caller_step ::
  "('pc, 'd) webrtc \<Rightarrow> 'n zenoh \<Rightarrow> 'n signal_wire \<Rightarrow> (subscription \<Rightarrow> string \<Rightarrow> bool) \<Rightarrow> ('pc, 'd) caller \<Rightarrow> caller_event
   \<Rightarrow> ('pc, 'd) caller" where
  "caller_step W Z S delivers s Subscribed =
     (if ca_result s = None
      then let (res, receivers) = run_signal_receiver Z (vp_robot (lp_peer (ca_live s)))
        in s\<lparr>ca_receivers := receivers, ca_result := Some (map_err SignalReceiver res)\<rparr>
      else s)"
| "caller_step W Z S delivers s (Incoming p) =
     s\<lparr>ca_live := foldl (live_step W Z S) (ca_live s) (map Callback (calls delivers S (ca_receivers s) p))\<rparr>"
| "caller_step W Z S delivers s (Proceed i) = s\<lparr>ca_live := live_step W Z S (ca_live s) (Turn i)\<rparr>"

text \<open>When nothing arrives in between, these are the steps of \<open>start_video\<close>.\<close>

lemma calling_subscribed:
  assumes "offer_peer W Z S robot_id peer_id n = (Ok peer, n', puts)"
  shows "let s = caller_step W Z S delivers (calling peer puts) Subscribed in
    start_video W Z S robot_id peer_id n =
      (bind_out (the (ca_result s)) (\<lambda>_. Ok (lp_peer (ca_live s))), n', lp_puts (ca_live s), ca_receivers s)"
proof -
  have "vp_robot peer = robot_id"
    using assms by (auto simp: offer_peer_def bind_out_Ok case_prod_beta split: outcome.splits prod.splits option.splits bool.splits)
  with assms show ?thesis
    by (simp add: start_video_def calling_def idle_def Let_def case_prod_beta)
qed

section \<open>Callbacks that do not overlap\<close>

lemma turns_idle: "lp_tasks s = [] \<Longrightarrow> foldl (live_step W Z S) s (replicate k (Turn 0)) = s"
  by (induction k) simp_all

lemma solo_offer:
  assumes "lp_tasks s = []"
  shows "foldl (live_step W Z S) s (Callback (OnOffer from msg) # replicate 4 (Turn 0)) =
    (let (peer, puts) = answer_offer W Z S (lp_peer s) from msg in s\<lparr>lp_peer := peer, lp_puts := lp_puts s @ puts\<rparr>)"
proof (cases "parse_offer W (sm_sdp msg)")
  case (Some offer)
  obtain ok1 pc1 where remote: "set_remote W offer (vp_pc (lp_peer s)) = (ok1, pc1)" by fastforce
  obtain answer pc2 where created: "create_answer W pc1 = (answer, pc2)" by fastforce
  obtain ok3 pc3 where local_desc: "set_local W (the answer) pc2 = (ok3, pc3)" by fastforce
  show ?thesis
    by (cases ok1; cases answer; cases ok3)
      (use assms Some remote created local_desc in \<open>simp_all add: answer_offer_def remaining_def numeral_eq_Suc Let_def\<close>)
qed (use assms in \<open>simp add: answer_offer_def turns_idle numeral_eq_Suc\<close>)

lemma solo_call:
  assumes "lp_tasks s = []"
  shows "foldl (live_step W Z S) s (Callback c # replicate 4 (Turn 0)) =
    (let (peer, puts) = peer_call W Z S c (lp_peer s) in s\<lparr>lp_peer := peer, lp_puts := lp_puts s @ puts\<rparr>)"
proof (cases c)
  case (OnOffer "from" msg)
  then show ?thesis using solo_offer [OF assms, of W Z S "from" msg] by simp
qed (use assms in \<open>auto simp: apply_answer_def apply_ice_def remaining_def numeral_eq_Suc Let_def case_prod_beta split: option.split\<close>)

fun peer_calls ::
  "('pc, 'd) webrtc \<Rightarrow> 'n zenoh \<Rightarrow> 'n signal_wire \<Rightarrow> handler_call list \<Rightarrow> 'pc video_peer \<Rightarrow> 'pc video_peer \<times> put list" where
  "peer_calls W Z S [] peer = (peer, [])"
| "peer_calls W Z S (c # cs) peer =
     (let (peer1, puts) = peer_call W Z S c peer; (peer2, puts') = peer_calls W Z S cs peer1 in (peer2, puts @ puts'))"

section \<open>Callbacks that overlap\<close>

fun answers_to :: "'d peer_task \<Rightarrow> string list" where
  "answers_to (SettingOffer from _) = [from]"
| "answers_to (CreatingAnswer from) = [from]"
| "answers_to (SettingAnswer from _) = [from]"
| "answers_to (SendingAnswer from _) = [from]"
| "answers_to _ = []"

fun offer_of :: "peer_event \<Rightarrow> string list" where
  "offer_of (Callback (OnOffer from msg)) = [from]"
| "offer_of _ = []"

definition offers :: "peer_event list \<Rightarrow> string list" where
  "offers es = concat (map offer_of es)"

text \<open>A description the connection created as an answer, and one it also took as its own.\<close>

definition own_answer :: "('pc, 'd) webrtc \<Rightarrow> 'd \<Rightarrow> bool" where
  "own_answer W a \<longleftrightarrow> (\<exists>pc. fst (create_answer W pc) = Some a)"

definition taken_answer :: "('pc, 'd) webrtc \<Rightarrow> 'd \<Rightarrow> bool" where
  "taken_answer W a \<longleftrightarrow> own_answer W a \<and> (\<exists>pc. fst (set_local W a pc))"

fun task_ok :: "('pc, 'd) webrtc \<Rightarrow> 'd peer_task \<Rightarrow> bool" where
  "task_ok W (SettingAnswer from a) = own_answer W a"
| "task_ok W (SendingAnswer from a) = taken_answer W a"
| "task_ok W _ = True"

definition answer_put :: "('pc, 'd) webrtc \<Rightarrow> 'n zenoh \<Rightarrow> 'n signal_wire \<Rightarrow> string \<Rightarrow> peer_event list \<Rightarrow> put \<Rightarrow> bool" where
  "answer_put W Z S me es p \<longleftrightarrow>
     (\<exists>from a. from \<in> set (offers es) \<and> taken_answer W a \<and> p \<in> set (snd (publish_answer Z S me from (sdp_of W a) [])))"

definition answers_ok ::
  "('pc, 'd) webrtc \<Rightarrow> 'n zenoh \<Rightarrow> 'n signal_wire \<Rightarrow> string \<Rightarrow> peer_event list \<Rightarrow> ('pc, 'd) live_peer \<Rightarrow> bool" where
  "answers_ok W Z S me es s \<longleftrightarrow>
     vp_robot (lp_peer s) = me \<and>
     (\<forall>t \<in> set (lp_tasks s). task_ok W t \<and> set (answers_to t) \<subseteq> set (offers es)) \<and>
     (\<forall>p \<in> set (lp_puts s). answer_put W Z S me es p) \<and>
     length (lp_puts s) + length (concat (map answers_to (lp_tasks s))) \<le> length (offers es)"

lemma answers_okI:
  assumes "vp_robot (lp_peer s) = me" and "\<And>t. t \<in> set (lp_tasks s) \<Longrightarrow> task_ok W t \<and> set (answers_to t) \<subseteq> set (offers es)"
    and "\<And>p. p \<in> set (lp_puts s) \<Longrightarrow> answer_put W Z S me es p"
    and "length (lp_puts s) + length (concat (map answers_to (lp_tasks s))) \<le> length (offers es)"
  shows "answers_ok W Z S me es s"
  using assms by (simp add: answers_ok_def)

lemma answers_okD:
  assumes "answers_ok W Z S me es s"
  shows "vp_robot (lp_peer s) = me" and "t \<in> set (lp_tasks s) \<Longrightarrow> task_ok W t"
    and "t \<in> set (lp_tasks s) \<Longrightarrow> x \<in> set (answers_to t) \<Longrightarrow> x \<in> set (offers es)"
    and "p \<in> set (lp_puts s) \<Longrightarrow> answer_put W Z S me es p"
    and "length (lp_puts s) + length (concat (map answers_to (lp_tasks s))) \<le> length (offers es)"
  using assms by (auto simp: answers_ok_def)

lemma offers_snoc [simp]: "offers (es @ [e]) = offers es @ offer_of e"
  by (simp add: offers_def)

lemma answer_put_snoc: "answer_put W Z S me es p \<Longrightarrow> answer_put W Z S me (es @ [e]) p"
  by (auto simp: answer_put_def)

lemma publish_answer_one: "length (snd (publish_answer Z S r q sdp ice)) \<le> 1"
  by (auto simp: publish_answer_def with_key_def put_signal_def publish_def send_put_def case_prod_beta
      split: outcome.split option.split)

lemma remaining_split:
  "i < length ts \<Longrightarrow> remaining i rest ts = take i ts @ (case rest of Some t \<Rightarrow> [t] | None \<Rightarrow> []) @ drop (Suc i) ts"
  by (simp add: remaining_def upd_conv_take_nth_drop split: option.split)

text \<open>What one step of a task does to the promises it carries.\<close>

lemma task_turn_answers:
  assumes "task_turn W Z S me t pc = (pc', rest, puts)" and "task_ok W t"
  shows "length puts + length (concat (map answers_to (case rest of Some t \<Rightarrow> [t] | None \<Rightarrow> []))) \<le> length (answers_to t)"
    and "rest = Some t' \<Longrightarrow> task_ok W t' \<and> set (answers_to t') \<subseteq> set (answers_to t)"
    and "p \<in> set puts \<Longrightarrow> \<exists>from a. from \<in> set (answers_to t) \<and> taken_answer W a \<and>
      p \<in> set (snd (publish_answer Z S me from (sdp_of W a) []))"
proof -
  show "length puts + length (concat (map answers_to (case rest of Some t \<Rightarrow> [t] | None \<Rightarrow> []))) \<le> length (answers_to t)"
    using assms(1) publish_answer_one [of Z S me] by (cases t) (auto simp: Let_def case_prod_beta split: option.split if_splits)
  show "task_ok W t' \<and> set (answers_to t') \<subseteq> set (answers_to t)" if "rest = Some t'"
    using assms that by (cases t) (auto simp: Let_def case_prod_beta own_answer_def taken_answer_def split: if_splits)
  show "\<exists>from a. from \<in> set (answers_to t) \<and> taken_answer W a \<and> p \<in> set (snd (publish_answer Z S me from (sdp_of W a) []))"
    if "p \<in> set puts"
    using assms that by (cases t) (auto simp: Let_def case_prod_beta)
qed

lemma answers_step:
  assumes ok: "answers_ok W Z S me es s"
  shows "answers_ok W Z S me (es @ [e]) (live_step W Z S s e)"
proof (cases e)
  case (Callback c)
  note D = answers_okD [OF ok]
  show ?thesis
  proof (cases "spawned W c")
    case None
    then have "live_step W Z S s e = s" by (simp add: Callback)
    with D show ?thesis by (intro answers_okI) (auto simp: answer_put_snoc)
  next
    case (Some t)
    have new: "task_ok W t \<and> answers_to t = offer_of e" using Some unfolding Callback by (cases c) auto
    have "live_step W Z S s e = s\<lparr>lp_tasks := lp_tasks s @ [t]\<rparr>" using Some by (simp add: Callback)
    with D new show ?thesis by (intro answers_okI) (auto simp: answer_put_snoc)
  qed
next
  case (Turn i)
  note D = answers_okD [OF ok]
  show ?thesis
  proof (cases "i < length (lp_tasks s)")
    case True
    let ?t = "lp_tasks s ! i"
    obtain pc rest puts where turn: "task_turn W Z S me ?t (vp_pc (lp_peer s)) = (pc, rest, puts)" by (metis prod_cases3)
    have t: "?t \<in> set (lp_tasks s)" using True by simp
    note T = task_turn_answers [OF turn D(2) [OF t]]
    have tasks: "lp_tasks s = take i (lp_tasks s) @ [?t] @ drop (Suc i) (lp_tasks s)" using True by (simp add: id_take_nth_drop)
    have count: "length (concat (map answers_to (lp_tasks s))) =
        length (concat (map answers_to (take i (lp_tasks s)))) + length (answers_to ?t) +
        length (concat (map answers_to (drop (Suc i) (lp_tasks s))))"
      by (subst (1) tasks) (simp only: map_append concat_append length_append, simp)
    have step: "live_step W Z S s e = \<lparr>lp_peer = (lp_peer s)\<lparr>vp_pc := pc\<rparr>,
        lp_tasks = take i (lp_tasks s) @ (case rest of Some t \<Rightarrow> [t] | None \<Rightarrow> []) @ drop (Suc i) (lp_tasks s),
        lp_puts = lp_puts s @ puts\<rparr>"
      using True turn D(1) by (simp add: Turn remaining_split)
    show ?thesis
    proof (rule answers_okI)
      fix u assume "u \<in> set (lp_tasks (live_step W Z S s e))"
      then have "u \<in> set (lp_tasks s) \<or> rest = Some u"
        unfolding step by (auto dest: in_set_takeD in_set_dropD split: option.splits)
      then show "task_ok W u \<and> set (answers_to u) \<subseteq> set (offers (es @ [e]))"
        using D(2) D(3) [OF t] D(3) [of u] T(2) [of u] by (auto simp: Turn dest: subsetD)
    next
      fix p assume "p \<in> set (lp_puts (live_step W Z S s e))"
      then consider "p \<in> set (lp_puts s)" | "p \<in> set puts" unfolding step by auto
      then have "answer_put W Z S me es p"
      proof cases
        case 2
        from T(3) [OF this] D(3) [OF t] show ?thesis unfolding answer_put_def by blast
      qed (rule D(4))
      then show "answer_put W Z S me (es @ [e]) p" by (rule answer_put_snoc)
    next
      show "length (lp_puts (live_step W Z S s e)) + length (concat (map answers_to (lp_tasks (live_step W Z S s e))))
          \<le> length (offers (es @ [e]))"
        using D(5) T(1) unfolding step count by (simp add: Turn)
    qed (use D(1) step in simp)
  next
    case False
    then have "live_step W Z S s e = s" by (simp add: Turn)
    with D show ?thesis by (intro answers_okI) (auto simp: answer_put_snoc Turn)
  qed
qed

lemma answers_run: "answers_ok W Z S (vp_robot peer) es (foldl (live_step W Z S) (idle peer []) es)"
proof (induction es rule: rev_induct)
  case Nil
  show ?case by (simp add: answers_ok_def idle_def offers_def)
next
  case (snoc e es)
  then show ?case using answers_step by fastforce
qed

section \<open>Properties\<close>

definition demo_peer :: "string list video_peer" where
  "demo_peer = \<lparr>vp_robot = ''7'', vp_pc = [''v=0''], vp_track = \<lparr>tr_ssrc = FIRST_SSRC, tr_id = ''7-cam0'', tr_stream = ''7-stream0''\<rparr>\<rparr>"

definition demo_answer :: signal_message where
  "demo_answer = \<lparr>sm_sdp = ''v=1'', sm_kind = Answer, sm_from = ''8'', sm_to = ''7'', sm_ice = []\<rparr>"

definition answer_wire :: "unit signal_wire" where
  "answer_wire = \<lparr>message_value = (\<lambda>m. Some (JString (sm_sdp m))),
     message_of = (\<lambda>b. Some \<lparr>sm_sdp = b, sm_kind = Answer, sm_from = ''8'', sm_to = ''7'', sm_ice = []\<rparr>),
     presence_value = (\<lambda>_. None), presence_of = (\<lambda>_. None)\<rparr>"

text \<open>
  callbacks that do not overlap behave as one piece. If each callback of an idle peer has ended
  before the next one comes in, the connection, and what is published, are those of the callbacks run
  one after the other without interruption.
\<close>

theorem spaced_callbacks_atomic:
  assumes "lp_tasks s = []"
  shows "foldl (live_step W Z S) s (concat (map (\<lambda>c. Callback c # replicate 4 (Turn 0)) cs)) =
    (let (peer, puts) = peer_calls W Z S cs (lp_peer s) in s\<lparr>lp_peer := peer, lp_puts := lp_puts s @ puts\<rparr>)"
  using assms
proof (induction cs arbitrary: s)
  case (Cons c cs)
  obtain peer puts where c: "peer_call W Z S c (lp_peer s) = (peer, puts)" by fastforce
  let ?s = "s\<lparr>lp_peer := peer, lp_puts := lp_puts s @ puts\<rparr>"
  have step: "foldl (live_step W Z S) s (Callback c # replicate 4 (Turn 0)) = ?s"
    using solo_call [OF Cons.prems, of W Z S c] c by simp
  have "foldl (live_step W Z S) s (concat (map (\<lambda>c. Callback c # replicate 4 (Turn 0)) (c # cs))) =
      foldl (live_step W Z S) ?s (concat (map (\<lambda>c. Callback c # replicate 4 (Turn 0)) cs))"
    by (simp only: list.map concat.simps foldl_append step)
  with Cons.IH [of ?s] Cons.prems c show ?case by (simp add: case_prod_beta Let_def)
qed simp

theorem spaced_callbacks_atomic_witness:
  "vp_pc (lp_peer (foldl (live_step demo_webrtc signal_mesh answer_wire) (idle demo_peer [])
     (Callback (OnAnswer ''8'' demo_answer) # replicate 4 (Turn 0)))) = [''v=0'', ''v=1'']"
proof -
  have "lp_tasks (idle demo_peer [] :: (string list, string) live_peer) = []" by (simp add: idle_def)
  from spaced_callbacks_atomic [OF this, of demo_webrtc signal_mesh answer_wire "[OnAnswer ''8'' demo_answer]"]
  show ?thesis by (simp add: idle_def demo_peer_def demo_answer_def demo_webrtc_def apply_answer_def del: foldl_Cons)
qed

text \<open>
  C19: a peer answers only robots that offered, and no more often than it got offers. However the callbacks of a connection overlap,
  every message they publish is an answer to a robot that sent an offer, with a description that the
  connection created as an answer and took as its own, and in total there are never more of them than
  offers.
\<close>

theorem answers_match_offers:
  "let s = foldl (live_step W Z S) (idle peer []) es in
    length (lp_puts s) \<le> length (offers es) \<and>
    (\<forall>p \<in> set (lp_puts s). \<exists>from a. from \<in> set (offers es) \<and> taken_answer W a \<and>
       p \<in> set (snd (publish_answer Z S (vp_robot peer) from (sdp_of W a) [])))"
  using answers_okD(4,5) [OF answers_run [of W Z S peer es]] unfolding answer_put_def Let_def by fastforce

theorem answers_match_offers_witness:
  "length (lp_puts (foldl (live_step demo_webrtc signal_mesh answer_wire) (idle demo_peer [])
     [Callback (OnOffer ''8'' demo_answer), Turn 0, Turn 0, Turn 0, Turn 0, Turn 0])) \<le> 1"
  using answers_match_offers [where W = demo_webrtc and Z = signal_mesh and S = answer_wire and peer = demo_peer
      and es = "[Callback (OnOffer ''8'' demo_answer), Turn 0, Turn 0, Turn 0, Turn 0, Turn 0]"]
  by (simp add: Let_def offers_def del: foldl_Cons live_step.simps)

text \<open>
  C17: an answer that is fast is lost. \<open>start_video\<close> publishes its offer before it subscribes to answers.
  Take a call whose offer is out and whose receiver subscribes without error. If the answer of the called
  robot comes in after the subscription, the connection gets it. If it comes before, the call reports
  success all the same, and whatever tasks run then and however long, the connection stays without it.
\<close>

theorem early_answer_lost:
  assumes "delivery_documented delivers" and "\<And>sub. z_declare Z sub" and "signal_id a" and "signal_id b"
    and "\<not> sublist ''liveliness'' a" and "vp_robot peer = a"
    and "carried Z S \<lparr>sm_sdp = sdp, sm_kind = Answer, sm_from = b, sm_to = a, sm_ice = []\<rparr>"
    and "snd (publish_answer Z S b a sdp []) = [q]" and "parse_answer W sdp = Some reply"
    and "list_all (\<lambda>e. \<exists>i. e = Proceed i) late"
  shows "let timely = foldl (caller_step W Z S delivers) (calling peer puts) [Subscribed, Incoming q, Proceed 0];
      early = foldl (caller_step W Z S delivers) (calling peer puts) ([Incoming q, Subscribed] @ late)
    in ca_result timely = Some (Ok ()) \<and> vp_pc (lp_peer (ca_live timely)) = snd (set_remote W reply (vp_pc peer)) \<and>
      ca_result early = Some (Ok ()) \<and> ca_live early = idle peer puts"
proof -
  let ?ack = "\<lparr>sm_sdp = sdp, sm_kind = Answer, sm_from = b, sm_to = a, sm_ice = []\<rparr>"
  obtain p where p: "snd (publish_answer Z S b a sdp []) = [p]" "put_key p = signal_key b a ''answer''"
      "message_of S (put_bytes p) = Some ?ack"
    using published_answer [OF assms(7) assms(4,3)] by blast
  then have "q = p" using assms(8) by simp
  with key_delivery.signal_calls [OF key_delivery.intro [OF assms(1)] assms(2,4,3,3) _ p(2,3)] assms(5)
  have calls: "calls delivers S (snd (run_signal_receiver Z a)) q = [OnAnswer b ?ack]" by simp
  have silent: "calls delivers S [] q = []" by (simp add: calls_def)
  have receiver: "fst (run_signal_receiver Z a) = Ok ()" using receiver_tasks [OF assms(3,2)] by simp
  have stays: "foldl (caller_step W Z S delivers) s late = s" if "lp_tasks (ca_live s) = []" for s
    using assms(10) that by (induction late) auto
  show ?thesis
    using calls receiver silent assms(6,9)
    by (simp add: calling_def idle_def Let_def case_prod_beta remaining_def stays)
qed

theorem early_answer_lost_witness:
  "\<exists>q. ca_live (foldl (caller_step demo_webrtc signal_mesh answer_wire ke_delivers) (calling demo_peer [])
         [Incoming q, Subscribed, Proceed 0]) = idle demo_peer [] \<and>
     vp_pc (lp_peer (ca_live (foldl (caller_step demo_webrtc signal_mesh answer_wire ke_delivers) (calling demo_peer [])
         [Subscribed, Incoming q, Proceed 0]))) = [''v=0'', ''v=1'']"
proof -
  have live: "\<not> sublist ''liveliness'' ''7''" by (auto dest: sublist_length_le)
  have id: "signal_id ''7''" "signal_id ''8''" by (simp_all add: signal_id_def)
  have wire: "carried signal_mesh answer_wire \<lparr>sm_sdp = ''v=1'', sm_kind = Answer, sm_from = ''8'', sm_to = ''7'', sm_ice = []\<rparr>"
    by (simp add: carried_def answer_wire_def signal_mesh_def)
  obtain q where q: "snd (publish_answer signal_mesh answer_wire ''8'' ''7'' ''v=1'' []) = [q]"
    using published_answer [OF wire id(2,1)] by blast
  have me: "vp_robot demo_peer = ''7''" by (simp add: demo_peer_def)
  have reply: "parse_answer demo_webrtc ''v=1'' = Some ''v=1''" by (simp add: demo_webrtc_def)
  from early_answer_lost [OF ke_delivers_documented _ id live me wire q reply, of "[Proceed 0]" "[]"]
  have "ca_live (foldl (caller_step demo_webrtc signal_mesh answer_wire ke_delivers) (calling demo_peer [])
         [Incoming q, Subscribed, Proceed 0]) = idle demo_peer []"
    and "vp_pc (lp_peer (ca_live (foldl (caller_step demo_webrtc signal_mesh answer_wire ke_delivers) (calling demo_peer [])
         [Subscribed, Incoming q, Proceed 0]))) = snd (set_remote demo_webrtc ''v=1'' (vp_pc demo_peer))"
    by (simp_all add: signal_mesh_def Let_def del: foldl_Cons caller_step.simps)
  then show ?thesis by (intro exI [of _ q]) (simp add: demo_webrtc_def demo_peer_def)
qed

section \<open>Candidates that overtake their answer\<close>

text \<open>Taking elements out of a list by position: those taken, in that order, and those left. A position outside takes nothing.\<close>

fun picks :: "nat list \<Rightarrow> 'a list \<Rightarrow> 'a list \<times> 'a list" where
  "picks [] xs = ([], xs)"
| "picks (k # ks) xs =
     (if k < length xs
      then let (taken, left) = picks ks (take k xs @ drop (Suc k) xs) in (xs ! k # taken, left)
      else picks ks xs)"

lemma picks_mset: "mset (fst (picks ks xs)) + mset (snd (picks ks xs)) = mset xs"
proof (induction ks xs rule: picks.induct)
  case (2 k ks xs)
  show ?case
  proof (cases "k < length xs")
    case True
    have whole: "add_mset (xs ! k) (mset (take k xs @ drop (Suc k) xs)) = mset xs"
      using arg_cong [OF id_take_nth_drop [OF True], of mset] by simp
    from 2(1) [OF True] show ?thesis by (simp add: True case_prod_beta Let_def whole [symmetric] del: mset_append)
  qed (use 2 in simp)
qed simp

lemma spawn_candidates:
  "foldl (live_step W Z S) s (map (\<lambda>c. Callback (OnIce b c)) cs) = s\<lparr>lp_tasks := lp_tasks s @ map AddingCandidate cs\<rparr>"
  by (induction cs arbitrary: s) simp_all

lemma candidates_before:
  assumes "lp_tasks s = ApplyingAnswer reply # map AddingCandidate cs" and "\<forall>k \<in> set early. 0 < k"
    and "\<And>c. add_candidate W c (vp_pc (lp_peer s)) = (False, vp_pc (lp_peer s))"
  shows "foldl (live_step W Z S) s (map Turn early) =
    s\<lparr>lp_tasks := ApplyingAnswer reply # map AddingCandidate (snd (picks (map (\<lambda>k. k - 1) early) cs))\<rparr>"
  using assms
proof (induction early arbitrary: s cs)
  case (Cons k early)
  obtain j where k: "k = Suc j" using Cons.prems(2) by (cases k) auto
  let ?s = "live_step W Z S s (Turn k)" and ?cs = "if j < length cs then take j cs @ drop (Suc j) cs else cs"
  have step: "?s = s\<lparr>lp_tasks := ApplyingAnswer reply # map AddingCandidate ?cs\<rparr>"
    using Cons.prems(1,3) by (simp add: k remaining_def take_map drop_map)
  have "snd (picks (map (\<lambda>k. k - 1) (k # early)) cs) = snd (picks (map (\<lambda>k. k - 1) early) ?cs)"
    by (simp add: k case_prod_beta Let_def)
  with Cons.IH [of ?s ?cs] Cons.prems(2,3) show ?case by (simp add: step del: live_step.simps picks.simps)
qed simp

lemma candidates_after:
  assumes "lp_tasks s = map AddingCandidate cs"
  shows "foldl (live_step W Z S) s (map Turn late) =
    s\<lparr>lp_peer := (lp_peer s)\<lparr>vp_pc := foldl (\<lambda>pc c. snd (add_candidate W c pc)) (vp_pc (lp_peer s)) (fst (picks late cs))\<rparr>,
      lp_tasks := map AddingCandidate (snd (picks late cs))\<rparr>"
  using assms
proof (induction late arbitrary: s cs)
  case (Cons k late)
  let ?s = "live_step W Z S s (Turn k)"
  show ?case
  proof (cases "k < length cs")
    case True
    then have "?s = s\<lparr>lp_peer := (lp_peer s)\<lparr>vp_pc := snd (add_candidate W (cs ! k) (vp_pc (lp_peer s)))\<rparr>,
        lp_tasks := map AddingCandidate (take k cs @ drop (Suc k) cs)\<rparr>"
      using Cons.prems by (cases s) (simp add: remaining_def take_map drop_map)
    with Cons.IH [of ?s "take k cs @ drop (Suc k) cs"] True show ?thesis
      by (simp add: case_prod_beta Let_def del: live_step.simps)
  qed (use Cons in simp)
qed simp

text \<open>
  C32: candidates overtake their answer and are lost. The answer to a call comes in, then candidates, in
  this order; their tasks run in any order. As the standard has it, a connection without a remote
  description refuses candidates. Then every candidate whose task runs before that of the answer is gone
  for good: the connection ends as the answer and the other candidates alone make it, in the order of their
  tasks, nothing waits for the lost ones and nobody is told.
\<close>

theorem callbacks_overtake:
  assumes "lp_tasks s = []" and "parse_answer W (sm_sdp ack) = Some reply"
    and "\<And>c. add_candidate W c (vp_pc (lp_peer s)) = (False, vp_pc (lp_peer s))" and "\<forall>k \<in> set early. 0 < k"
  shows "let (lost, waiting) = picks (map (\<lambda>k. k - 1) early) cs; (added, left) = picks late waiting;
      s' = foldl (live_step W Z S) s
        (Callback (OnAnswer b ack) # map (\<lambda>c. Callback (OnIce b c)) cs @ map Turn early @ Turn 0 # map Turn late) in
    mset lost + mset added + mset left = mset cs \<and>
    vp_pc (lp_peer s') = foldl (\<lambda>pc c. snd (add_candidate W c pc)) (snd (set_remote W reply (vp_pc (lp_peer s)))) added \<and>
    lp_tasks s' = map AddingCandidate left \<and> lp_puts s' = lp_puts s"
proof -
  let ?early = "picks (map (\<lambda>k. k - 1) early) cs" and ?late = "picks late (snd (picks (map (\<lambda>k. k - 1) early) cs))"
  let ?s1 = "s\<lparr>lp_tasks := ApplyingAnswer reply # map AddingCandidate cs\<rparr>"
  let ?s2 = "s\<lparr>lp_tasks := ApplyingAnswer reply # map AddingCandidate (snd ?early)\<rparr>"
  let ?s3 = "s\<lparr>lp_peer := (lp_peer s)\<lparr>vp_pc := snd (set_remote W reply (vp_pc (lp_peer s)))\<rparr>, lp_tasks := map AddingCandidate (snd ?early)\<rparr>"
  have "foldl (live_step W Z S) s (Callback (OnAnswer b ack) # map (\<lambda>c. Callback (OnIce b c)) cs) = ?s1"
    using assms(1,2) by (simp add: spawn_candidates)
  moreover have "foldl (live_step W Z S) ?s1 (map Turn early) = ?s2"
    using candidates_before [of ?s1 reply cs early W Z S] assms(3,4) by simp
  moreover have "live_step W Z S ?s2 (Turn 0) = ?s3"
    by (cases s) (simp add: remaining_def)
  moreover note candidates_after [of ?s3 "snd ?early" W Z S late]
  ultimately have "foldl (live_step W Z S) s
      (Callback (OnAnswer b ack) # map (\<lambda>c. Callback (OnIce b c)) cs @ map Turn early @ Turn 0 # map Turn late) =
    ?s3\<lparr>lp_peer := (lp_peer ?s3)\<lparr>vp_pc := foldl (\<lambda>pc c. snd (add_candidate W c pc)) (vp_pc (lp_peer ?s3)) (fst ?late)\<rparr>,
        lp_tasks := map AddingCandidate (snd ?late)\<rparr>"
    by (simp only: foldl_Cons foldl_append append.simps) simp
  moreover have "mset (fst ?early) + mset (fst ?late) + mset (snd ?late) = mset cs"
    using picks_mset [of "map (\<lambda>k. k - 1) early" cs] picks_mset [of late "snd ?early"] by (simp add: add.assoc)
  ultimately show ?thesis by (simp add: case_prod_beta Let_def del: live_step.simps)
qed

text \<open>A connection that takes candidates once it has a remote description.\<close>

definition trickle_webrtc :: "(string list, string) webrtc" where
  "trickle_webrtc = demo_webrtc\<lparr>add_candidate :=
     (\<lambda>c pc. if ''v=1'' \<in> set pc then (True, pc @ [ic_candidate c]) else (False, pc))\<rparr>"

definition demo_candidate :: "string \<Rightarrow> ice_candidate" where
  "demo_candidate text = \<lparr>ic_candidate = text, sdp_mid = None, mline_index = None\<rparr>"

theorem callbacks_overtake_witness:
  "vp_pc (lp_peer (foldl (live_step trickle_webrtc signal_mesh answer_wire) (idle demo_peer [])
     (Callback (OnAnswer ''8'' demo_answer) # map (\<lambda>c. Callback (OnIce ''8'' c)) [demo_candidate ''c1'', demo_candidate ''c2'']
        @ map Turn [1] @ Turn 0 # map Turn [0]))) = [''v=0'', ''v=1'', ''c2'']"
proof -
  have idle: "lp_tasks (idle demo_peer [] :: (string list, string) live_peer) = []" by (simp add: idle_def)
  have reply: "parse_answer trickle_webrtc (sm_sdp demo_answer) = Some ''v=1''"
    by (simp add: trickle_webrtc_def demo_webrtc_def demo_answer_def)
  have refuses: "add_candidate trickle_webrtc c (vp_pc (lp_peer (idle demo_peer [] :: (string list, string) live_peer))) =
      (False, vp_pc (lp_peer (idle demo_peer [] :: (string list, string) live_peer)))" for c
    by (simp add: trickle_webrtc_def demo_webrtc_def idle_def demo_peer_def)
  let ?c1 = "demo_candidate ''c1''" and ?c2 = "demo_candidate ''c2''"
  have picked: "picks (map (\<lambda>k. k - 1) [1]) [?c1, ?c2] = ([?c1], [?c2])" "picks [0] [?c2] = ([?c2], [])" by simp_all
  have late: "\<forall>k \<in> set [1::nat]. 0 < k" by simp
  have "vp_pc (lp_peer (foldl (live_step trickle_webrtc signal_mesh answer_wire) (idle demo_peer [])
     (Callback (OnAnswer ''8'' demo_answer) # map (\<lambda>c. Callback (OnIce ''8'' c)) [?c1, ?c2] @ map Turn [1] @ Turn 0 # map Turn [0]))) =
    foldl (\<lambda>pc c. snd (add_candidate trickle_webrtc c pc)) (snd (set_remote trickle_webrtc ''v=1'' (vp_pc (lp_peer (idle demo_peer [] :: (string list, string) live_peer))))) [?c2]"
    using callbacks_overtake [OF idle reply refuses late, where cs = "[?c1, ?c2]" and late = "[0]" and Z = signal_mesh
      and S = answer_wire and b = "''8''"]
    unfolding picked Let_def prod.case by blast
  also have "\<dots> = [''v=0'', ''v=1'', ''c2'']"
    by (simp add: trickle_webrtc_def demo_webrtc_def idle_def demo_peer_def demo_candidate_def)
  finally show ?thesis .
qed

end
