(* ===== verification/Spec2Isabelle.thy ===== *)
theory Spec2Isabelle
  imports Compiler Registration Client Hazard Fleet Report Call
begin

text \<open>
  A model of flo, an orchestrator for robot fleets: robots run a rule engine over the sensor topics of
  a zenoh mesh, authors write rules in a small language that is compiled per robot, a server registers
  the robots and watches over their liveliness, and robots call each other over WebRTC. All paths below
  are under \<open>src/src\<close>. Names follow the source.

  \<^bold>\<open>Theories.\<close>
  \<^item> \<open>Prelude\<close>: results with panics (\<open>outcome\<close>), Rust's string methods on byte lists, and the locales
    \<open>event_machine\<close> (an invariant kept by the events of a machine) and \<open>simulation\<close> (a machine that
    refines a smaller one), which the components interpret. \<open>Float64\<close>: \<open>f64\<close> with its order and the
    rounded subtraction. \<open>Json\<close>: \<open>serde_json::Value\<close>. \<open>Key_Expr\<close>: which keys an expression includes.
  \<^item> \<open>Topic\<close> (\<open>topic.rs\<close>): the convention of topics, patterns and ACL expressions, with all builders.
  \<^item> \<open>Rules\<close> (\<open>rules.rs\<close>): the runtime ruleset. \<open>Semantic\<close> (\<open>semantic.rs\<close>): the authored language,
    its validation and compilation; \<open>Semantic_Meaning\<close> and \<open>Compiler\<close>: that compilation keeps the
    meaning of guards, never panics and emits valid names.
  \<^item> \<open>Engine_Eval\<close>, \<open>Engine_State\<close>, \<open>Engine_Tick\<close>, \<open>Engine_Run\<close> (\<open>engine.rs\<close>): the predicate
    evaluator, the state with ingestion and tick, the properties of ticks over histories, and the
    event loop with its subscription tasks and bounded channel, one function case per \<open>select!\<close> branch.
  \<^item> \<open>Transport\<close> (\<open>transport.rs\<close>): opening sessions, their configurations, tokens, publish and subscribe.
    \<open>Auth\<close> (\<open>auth.rs\<close>): modes, credentials and access control.
  \<^item> \<open>Config\<close> (\<open>config.rs\<close>): the swappable ruleset, its watch channel and hot reload. \<open>Registry\<close>
    (\<open>registry.rs\<close>, \<open>mutation.rs\<close>): ownership, versions, digests and the audit trail of rulesets.
  \<^item> \<open>Node\<close> (\<open>start_common_subsystems\<close> of \<open>runtime.rs\<close>): the reload task and the engine around one
    store, with their steps in any order. \<open>Hazard\<close>: what such a node does with the distance to a human.
  \<^item> \<open>Lease\<close>, \<open>Registration\<close> (\<open>registration/\<close>): the robots known to the server, and the request, response
    and liveliness protocol over the mesh, one handler or attempt at a time. \<open>Fleet\<close>: the same definitions
    as a step relation of many robots, a server and a network that loses, delays and reorders.
  \<^item> \<open>Health\<close> (\<open>health.rs\<close>), \<open>Runtime\<close> (\<open>runtime.rs\<close>), \<open>Cli\<close> (\<open>cli.rs\<close>), \<open>Server\<close> (\<open>server.rs\<close>, \<open>bin/\<close>):
    readiness, probe and supervisor; the start of a robot with its fallbacks and retries; the rule
    commands; the start of the server and the dispatch of both binaries. \<open>Report\<close>: error texts, what the
    commands print and how they exit. \<open>Client\<close>: the supervised subsystems of a running client and server.
  \<^item> \<open>Signaling\<close>, \<open>Mesh\<close>, \<open>Video\<close>, \<open>Capture\<close> (\<open>signaling.rs\<close>, \<open>mesh.rs\<close>, \<open>video.rs\<close>, \<open>media.rs\<close>,
    \<open>device.rs\<close>, \<open>codec.rs\<close>): the exchange of session descriptions, the listener under every interleaving
    of its tasks, the peer of one call, and the pipelines and handles of the cameras. \<open>Call\<close>: the tasks
    one peer's callbacks spawn, await by await, and an outgoing call with what arrives before its
    receiver is up. This theory holds the properties that span components: from the authored rule to
    the tick, and from the command line to the stop.

  \<^bold>\<open>Contracts.\<close> Where a component relies on another, a locale states what: \<open>validator\<close> (a checked string is
  accepted again, for topics and ACL expressions), \<open>watched_store\<close> (the active ruleset, for the reload task
  and the engine), \<open>name_registry\<close> (who owns a ruleset name, for the fleet reload), \<open>client_registry\<close> (the
  robots on record, for the registration handlers), \<open>key_expressions\<close> and \<open>key_delivery\<close> (what a subscription
  receives, for signaling and registration). Each is interpreted on the definitions of its provider.

  \<^bold>\<open>Conventions.\<close> A struct is a record, an enum a datatype, an error a constructor of the component's
  error type; an \<open>expect\<close>, \<open>unwrap\<close> or slice that fails is \<open>Panic\<close>. Asynchronous handlers are steps: the
  engine loop and the server handlers run one event to its end, because they hold the state for it;
  the tasks of the mesh listener and, in \<open>Call\<close>, of a peer's callbacks interleave at each await. What
  is published is returned as a list of puts. Time is a number passed to the step that reads the clock. Counters that can wrap are words.

  \<^bold>\<open>Parameters.\<close> Code outside the repository is an argument: zenoh (\<open>zenoh\<close>, whether a key expression
  includes a key), serde, toml and serde_json (\<open>serde\<close>, \<open>readers\<close>, \<open>crates\<close>, \<open>wire\<close>, \<open>signal_wire\<close>), SHA-256,
  SQLite statements (which may fail), the file system, TCP, webrtc. What a property needs of them is a
  hypothesis of documented behaviour (\<open>serde_documented\<close>, \<open>wire_documented\<close>, \<open>ke_documented\<close>,
  \<open>delivery_documented\<close>, \<open>carried\<close>), and its witness instantiates it with a concrete function.

  \<^bold>\<open>Bounds.\<close> No fuel is used: every definition is structurally recursive or has a termination proof. The
  sample channel holds 256 entries (\<open>CHANNEL_CAPACITY\<close>), a request waits 5 seconds, registration makes 3
  attempts with pauses of 1 and 2 seconds, the probe stops at a line end or after 512 bytes. Nesting of guards is unbounded.

  \<^bold>\<open>What the lemmas show.\<close> From the rule to the robot: an authored guard, the compiled guard and the tick
  agree, whatever a tick publishes goes to a valid topic with the quality of service of its action, every
  message of a running node traces back to a ruleset it was given, and a robot started with a
  \<open>near_human\<close> rule stops the fleet when a human comes too near. On the server: leases refine one machine
  per robot, a lost robot stays out, a robot that was told it is registered is on record, ruleset names
  keep their owner. At the start: nothing is sent before authentication was validated, and a ruleset that
  cannot be used leaves the empty one. In a call: one peer per caller, an answer only to an offer that
  arrived, callbacks that are spaced out behave like whole functions, and cameras run exactly while a
  handle lives or was given up.
  Where the code departs from its comments or fails, the behaviour is stated as it is: a client with media stops right after its start, a request with a slash in its id ends
  registration, two robots with one id are both confirmed, a failed call leaves the camera on, an
  answer that comes before the caller subscribed is lost, two callbacks can overtake each other, samples
  never expire, a null payload panics the start.

  \<^bold>\<open>Not modelled.\<close> Logging, the parsing of the command line by clap (its result is an argument), the
  accessors and conversions of the string newtypes, and what the libraries decide: the locators of a
  session, the texts of their errors, the rendering of JSON and floats. An operation of a WebRTC
  connection is one step, because the crate runs it under the connection's own lock; its callbacks
  overlap between the operations. The three handlers of the registration protocol take the lease's lock,
  so each is one step; \<open>Fleet\<close> runs them in any order.
\<close>

section \<open>From the authored rule to the tick\<close>

text \<open>
  C2: the engine does what the author wrote. Take a rule whose conditions are all of level kind
  (\<open>near_human\<close>, \<open>not_near_human\<close>, \<open>near\<close>, nested in any way), compiled for a robot, and any tick of any
  state. Against every edge baseline, \<open>when_satisfied_with_prev\<close> holds for the compiled rule if and only if
  the authored guard holds of the fresh samples of that robot's topics. The tick returns the actions of the
  rules for which it holds, in the order of the document; when every rule is of that kind, they are the
  actions of the rules whose authored guard holds.
\<close>

theorem authored_level_rule_fires:
  assumes "compile L doc robot_id = Ok rls"
  shows "let n = length (rm_rules doc); view = staleness_view s now;
      level = (\<lambda>k. \<forall>c \<in> sem_conditions (sr_when (rm_rules doc ! k)). snd (snd c) = Level);
      meant = (\<lambda>k. sem_holds (\<lambda>c. trigger_cur L (cond_trigger robot_id c) view (zones s)) (sr_when (rm_rules doc ! k)));
      returned = (\<lambda>fires. concat (map (\<lambda>k. if fires k then rule_actions (rules_list rls ! k) else []) [0..<n])) in
    (\<forall>k < n. level k \<longrightarrow>
       (\<forall>pv. fst (when_satisfied_with_prev L (rule_when (rules_list rls ! k)) view pv k (zones s)) \<longleftrightarrow> meant k)) \<and>
    fst (tick L s now rls) =
      returned (\<lambda>k. fst (when_satisfied_with_prev L (rule_when (rules_list rls ! k)) view (prev s) k (zones s))) \<and>
    ((\<forall>k < n. level k) \<longrightarrow> fst (tick L s now rls) = returned meant)"
proof -
  let ?n = "length (rm_rules doc)" and ?view = "staleness_view s now"
  let ?meant = "\<lambda>k. sem_holds (\<lambda>c. trigger_cur L (cond_trigger robot_id c) ?view (zones s)) (sr_when (rm_rules doc ! k))"
  let ?fires = "\<lambda>k pv. fst (when_satisfied_with_prev L (rule_when (rules_list rls ! k)) ?view pv k (zones s))"
  have verdict: "?fires k pv \<longleftrightarrow> ?meant k"
    if "k < ?n" and level: "\<forall>c \<in> sem_conditions (sr_when (rm_rules doc ! k)). snd (snd c) = Level" for k pv
  proof -
    note guard = compile_rule_guard [OF compile_nth [OF assms that(1)], of "\<lambda>t. trigger_cur L t ?view (zones s)"]
    have "\<forall>t \<in> set (guard_triggers (rule_when (rules_list rls ! k))). tr_mode t = Level"
      using guard level by (force simp: cond_trigger_def)
    from guard_fires_level [OF this, of L ?view "zones s"] guard show ?thesis
      unfolding when_satisfied_fst by blast
  qed
  have returns: "fst (tick L s now rls) =
      concat (map (\<lambda>k. if ?fires k (prev s) then rule_actions (rules_list rls ! k) else []) [0..<?n])"
    unfolding tick_def tick_inner_verdicts compile_length [OF assms] ..
  have "concat (map (\<lambda>k. if ?fires k (prev s) then rule_actions (rules_list rls ! k) else []) [0..<?n]) =
      concat (map (\<lambda>k. if ?meant k then rule_actions (rules_list rls ! k) else []) [0..<?n])"
    if "\<forall>k < ?n. \<forall>c \<in> sem_conditions (sr_when (rm_rules doc ! k)). snd (snd c) = Level"
    using that verdict by (intro arg_cong [where f = concat] map_cong) auto
  with verdict returns show ?thesis unfolding Let_def by simp
qed

theorem authored_level_rule_fires_witness:
  "fst (tick f64_serde eval_state_empty 0 (demo_rules (Fin 1))) = []"
proof -
  have "\<not> f64_le (Fin 1) (Fin 0)" by code_simp
  from authored_level_rule_fires [OF demo_compiles [OF this], of eval_state_empty 0, unfolded Let_def, THEN conjunct2, THEN conjunct2] show ?thesis
    by (simp add: demo_doc_def demo_conditions demo_holds trigger_cur_def staleness_view_def
        eval_state_empty_def)
qed

section \<open>From the command line to the stop\<close>

text \<open>The ruleset a robot was asked to run: its document, and the rules it compiles to and TOML writes back.\<close>

definition requests_ruleset ::
  "filesystem \<Rightarrow> 'n crates \<Rightarrow> args \<Rightarrow> string \<Rightarrow> 'n rules_manifest \<Rightarrow> 'n rules \<Rightarrow> bool" where
  "requests_ruleset F K a robot_id doc rls \<longleftrightarrow>
     (\<exists>path toml_text compiled_text. arg_ruleset a = Some path \<and> read_file F path = Some toml_text \<and>
        parse_semantic (cr_readers K) toml_text = Ok doc \<and> compile (cr_serde K) doc robot_id = Ok rls \<and>
        cr_rules_to_toml K rls = Ok compiled_text \<and> rules_from_toml (cr_toml K) compiled_text = Ok rls)"

lemma bootstrap_inputs:
  assumes "bootstrap_runtime F K Z W open_session fresh env replies a = (Ok rt, trace)"
  shows "\<exists>inputs. (load_inputs F K fresh a (robot_id_of a env) :: (boot_error, 'n inputs) outcome) = Ok inputs \<and>
    rt_store rt = in_store inputs"
proof (cases "build_auth F a")
  case (Ok auth)
  show ?thesis
  proof (cases "load_inputs F K fresh a (robot_id_of a env) :: (boot_error, 'n inputs) outcome")
    case inputs: (Ok inputs)
    show ?thesis
    proof (cases "zenoh_config Z F (cr_to_json K) auth (robot_id_of a env)")
      case base: (Ok base)
      with assms Ok inputs show ?thesis
        by (cases "declare_liveliness Z [] (robot_id_of a env)"; cases "fst (declare_liveliness Z [] (robot_id_of a env))")
          (auto simp: bootstrap_runtime_def Let_def case_prod_beta split: if_splits option.splits)
    qed (use assms Ok inputs in \<open>auto simp: bootstrap_runtime_def Let_def\<close>)
  qed (use assms Ok in \<open>auto simp: bootstrap_runtime_def Let_def\<close>)
qed (use assms in \<open>auto simp: bootstrap_runtime_def Let_def\<close>)

lemma launched_store:
  assumes "bootstrap_runtime F K Z W open_session fresh env replies a = (Ok rt, trace)"
    and "requests_ruleset F K a (robot_id_of a env) doc rls"
  shows "rt_store rt = ar_new (Arc fresh rls)"
proof -
  obtain inputs where inputs: "(load_inputs F K fresh a (robot_id_of a env) :: (boot_error, 'a inputs) outcome) = Ok inputs"
      "rt_store rt = in_store inputs"
    using bootstrap_inputs [OF assms(1)] by blast
  then obtain config where "(load_client_config F K a :: (boot_error, client_config option) outcome) = Ok config"
    by (auto simp: load_inputs_def)
  with assms(2) requested_ruleset_runs [of a _ F _ K doc "robot_id_of a env" rls _ config fresh] inputs show ?thesis
    unfolding requests_ruleset_def by force
qed

text \<open>
  C1: a human too near stops the fleet, from the command line on. A robot is started with a ruleset file
  that compiles for its id and has a rule \<open>near_human = d\<close>, \<open>d\<close> finite, with an \<open>estop\<close> action; its
  start succeeds, its engine starts on the store, and no update reaches it. Then it has a task on its
  \<open>human_present\<close> topic. When that task is handed a sample whose \<open>separation_distance\<close> is below \<open>d\<close>
  while fewer than 256 samples wait, then as soon as the loop has taken these samples, every tick
  publishes \<open>{"stop": true}\<close> on \<open>stop/fleet/cmd\<close> with the reliable quality of service, and goes on to
  do so, however late, until a sample or an update comes.
\<close>

theorem launched_robot_stops_fleet:
  assumes "bootstrap_runtime F K Z W open_session fresh env replies a = (Ok rt, trace)"
    and "requests_ruleset F K a (robot_id_of a env) doc rls"
    and "serde_documented (cr_serde K)" and "plain_id (robot_id_of a env)" and "estop_below d doc" and "is_finite d"
    and "node_start (cr_toml K) D (cr_serde K) from_slice Z \<lparr>hr_store = rt_store rt, hr_policy = None\<rparr> [] = Ok s0"
    and "s = foldl (node_step (cr_toml K) D (cr_serde K) from_slice Z) s0 es" and "seen_in es = {}"
    and "t = SensorTask (subscription_for (human_topic (robot_id_of a env))) (human_topic (robot_id_of a env))"
    and "length (queue (nd_engine s)) < CHANNEL_CAPACITY" and "reports_below (cr_serde K) from_slice d bytes"
    and "z_to_vec Z (JObject [(''stop'', JBool True)]) = Some stop_bytes" and "list_all quiet later"
    and "s1 = foldl (node_step (cr_toml K) D (cr_serde K) from_slice Z) s
      (Arrive t key bytes # replicate (Suc (length (queue (nd_engine s)))) (TakeAt t1) @ later)"
  shows "t \<in> set (tasks (nd_engine s)) \<and>
    stop_message stop_bytes \<in> set (drop (length (nd_puts s1))
      (nd_puts (node_step (cr_toml K) D (cr_serde K) from_slice Z s1 (TickAt now))))"
proof -
  have "compile (cr_serde K) doc (robot_id_of a env) = Ok (arc_val (Arc fresh rls))"
    using assms(2) by (auto simp: requests_ruleset_def)
  moreover have "hr_store \<lparr>hr_store = rt_store rt, hr_policy = None\<rparr> = ar_new (Arc fresh rls)"
    using launched_store [OF assms(1,2)] by simp
  ultimately show ?thesis by (rule near_reading_stops [OF assms(3) _ assms(4-7) _ assms(8-15)])
qed

definition stop_args :: args where
  "stop_args = open_args\<lparr>arg_ruleset := Some ''s''\<rparr>"

lemma stop_args_requested: "requests_ruleset demo_disk demo_crates stop_args ''7'' (demo_doc (Fin 1)) (demo_rules (Fin 1))"
proof -
  have "\<not> f64_le (Fin 1) (Fin 0)" by code_simp
  note compiled = demo_compiles [OF this]
  show ?thesis
    unfolding requests_ruleset_def
    by (intro exI [of _ "''s''"] exI [of _ "''c''"])
      (simp add: stop_args_def open_args_def demo_args_def demo_disk_def demo_crates_def parse_semantic_def compiled
        demo_rules_def newline_def)
qed

lemma stop_robot_starts:
  "\<exists>rt trace. bootstrap_runtime demo_disk demo_crates demo_zenoh demo_wire (\<lambda>_. True) 2 None (\<lambda>_. Elapsed) stop_args = (Ok rt, trace)"
proof -
  have mode: "to_ascii_lowercase ''none'' = ''none''" by code_simp
  have auth: "build_auth demo_disk stop_args = Ok \<lparr>ac_mode = AuthNone, allow_insecure = True, ac_cert = Some ''c'', ac_key = Some ''k'', ac_trust = Some ''t''\<rparr>"
    by (simp add: build_auth_def stop_args_def open_args_def demo_args_def parse_mode_def mode validate_production_def check_credentials_def)
  have key: "(liveliness_key ''7'' :: (transport_error, topic) outcome) = Ok (Topic ''robot/7/client/liveliness'')"
    by code_simp
  have args: "arg_connect stop_args = []" "arg_config stop_args = None" "arg_robot_id stop_args = Some ''7''"
    by (simp_all add: stop_args_def open_args_def demo_args_def)
  obtain path toml_text compiled_text where req: "arg_ruleset stop_args = Some path" "read_file demo_disk path = Some toml_text"
      "parse_semantic (cr_readers demo_crates) toml_text = Ok (demo_doc (Fin 1))"
      "compile (cr_serde demo_crates) (demo_doc (Fin 1)) ''7'' = Ok (demo_rules (Fin 1))"
      "cr_rules_to_toml demo_crates (demo_rules (Fin 1)) = Ok compiled_text"
      "rules_from_toml (cr_toml demo_crates) compiled_text = Ok (demo_rules (Fin 1))"
    using stop_args_requested unfolding requests_ruleset_def by blast
  have "(load_client_config demo_disk demo_crates stop_args :: (boot_error, client_config option) outcome) = Ok None"
    by (simp add: load_client_config_def args)
  note inputs = requested_ruleset_runs [OF req this, of 2]
  show ?thesis
    by (simp add: bootstrap_runtime_def auth robot_id_of_def args inputs zenoh_config_def check_credentials_def
        declare_liveliness_def key demo_zenoh_def Let_def)
qed

definition near_sample :: "f64 json" where
  "near_sample = JObject [(''separation_distance'', JNumber (Fin 0))]"

lemma human_node_starts:
  "\<exists>s0. node_start T demo_digests f64_serde (\<lambda>_. Some near_sample) demo_zenoh
      \<lparr>hr_store = ar_new (Arc 2 (demo_rules (Fin 1))), hr_policy = None\<rparr> [] = Ok s0 \<and>
    queue (nd_engine s0) = [] \<and> nd_puts s0 = []"
proof -
  have patterns: "pattern_try_new ZONE_ENTERED_PATTERN = Ok (Pattern ''zone/*/entered'')"
    "pattern_try_new ZONE_CLEARED_PATTERN = Ok (Pattern ''zone/*/cleared'')"
    "pattern_try_new ''robot/7/local/human_present'' = Ok (Pattern ''robot/7/local/human_present'')"
    by code_simp+
  have topics: "sorted_topics (demo_rules (Fin 1)) = [''robot/7/local/human_present'']"
    by (simp add: sorted_topics_def collect_topics_def demo_rules_def cond_trigger_def)
  have "\<exists>g. run_start demo_zenoh (Arc 2 (demo_rules (Fin 1))) = Ok g"
    by (simp add: run_start_def zone_subscriptions_def patterns subscribe_def subscribe_to_topics_def topics
        demo_zenoh_def Let_def)
  then obtain g where g: "run_start demo_zenoh (Arc 2 (demo_rules (Fin 1))) = Ok g" by blast
  with run_start_ok [OF g] show ?thesis
    by (simp add: node_start_def ar_new_def current_def Let_def)
qed

theorem launched_robot_stops_fleet_witness:
  "\<exists>s. stop_put \<in> set (nd_puts (node_step (cr_toml demo_crates) demo_digests f64_serde (\<lambda>_. Some near_sample) demo_zenoh s (TickAt 100)))"
proof -
  let ?step = "node_step (cr_toml demo_crates) demo_digests f64_serde (\<lambda>_. Some near_sample) demo_zenoh"
  have serde: "cr_serde demo_crates = f64_serde" by (simp add: demo_crates_def)
  have robot: "robot_id_of stop_args None = ''7''" by (simp add: robot_id_of_def stop_args_def open_args_def demo_args_def)
  obtain rt trace where boot: "bootstrap_runtime demo_disk demo_crates demo_zenoh demo_wire (\<lambda>_. True) 2 None (\<lambda>_. Elapsed) stop_args = (Ok rt, trace)"
    using stop_robot_starts by blast
  have store: "rt_store rt = ar_new (Arc 2 (demo_rules (Fin 1)))"
    using launched_store [OF boot, of "demo_doc (Fin 1)"] stop_args_requested unfolding robot by blast
  obtain s0 where start: "node_start (cr_toml demo_crates) demo_digests f64_serde (\<lambda>_. Some near_sample) demo_zenoh
      \<lparr>hr_store = rt_store rt, hr_policy = None\<rparr> [] = Ok s0" and q: "queue (nd_engine s0) = []"
    using human_node_starts [of "cr_toml demo_crates"] unfolding store by blast
  have id: "plain_id ''7''" by (simp add: plain_id_def)
  have doc: "estop_below (Fin 1) (demo_doc (Fin 1))"
    by (simp add: estop_below_def demo_doc_def demo_action_def near_human_only_def demo_when_def)
  have "f64_lt (Fin 0) (Fin 1)" by code_simp
  then have near: "reports_below f64_serde (\<lambda>_. Some near_sample) (Fin 1) []"
    by (simp add: reports_below_def f64_serde_def near_sample_def)
  have none: "seen_in [] = {}" by (simp add: seen_in_def)
  have bytes: "z_to_vec demo_zenoh (JObject [(''stop'', JBool True)]) = Some ''null''" by (simp add: demo_zenoh_def)
  have room: "length (queue (nd_engine (foldl ?step s0 []))) < CHANNEL_CAPACITY" using q by (simp add: CHANNEL_CAPACITY_def)
  from launched_robot_stops_fleet [OF boot, unfolded serde robot, OF stop_args_requested f64_serde_documented id doc _ start refl none
      refl room near bytes _ refl, where later = "[]" and now = 100 and key = "[]" and ?t1.0 = 5]
  show ?thesis
    unfolding stop_put_def stop_message_def by (auto dest!: in_set_dropD simp del: node_step.simps foldl.simps)
qed

end
